(* ===== verification/Go_Prelude.thy ===== *)
theory Go_Prelude
  imports Main "HOL-Library.Multiset" "HOL-Library.AList"
begin

text \<open>
  What the components share: the integers, instants and durations of the Go runtime, the
  joined string keys the code uses as map keys, and generic facts on association lists.

  A Go \<^verbatim>\<open>int\<close> or \<^verbatim>\<open>int64\<close> is an \<^typ>\<open>int\<close>; where the code adds or multiplies
  amounts it receives from outside (tokens, estimates, durations) the two's complement
  wrap-around is written out with \<open>i64\<close>. Counters that grow by one per event are kept
  unwrapped. A \<^verbatim>\<open>time.Time\<close> is its distance in nanoseconds from the Unix epoch, a
  \<^verbatim>\<open>time.Duration\<close> a number of nanoseconds.
\<close>

named_theorems go_arith \<open>bounds and conversions of Go integers\<close>

subsection \<open>64-bit integers\<close>

definition i64 :: "int \<Rightarrow> int" where
  "i64 x = (x + 2 ^ 63) mod 2 ^ 64 - 2 ^ 63"

definition in_i64 :: "int \<Rightarrow> bool" where
  "in_i64 x \<longleftrightarrow> - (2 ^ 63) \<le> x \<and> x < 2 ^ 63"

lemma i64_id [simp]: "in_i64 x \<Longrightarrow> i64 x = x"
  by (simp add: i64_def in_i64_def)

lemma i64_in_range [simp]: "in_i64 (i64 x)"
proof -
  have "0 \<le> (x + 2 ^ 63) mod 2 ^ 64" and "(x + 2 ^ 63) mod 2 ^ 64 < 2 ^ 64"
    by (rule pos_mod_sign, simp) (rule pos_mod_bound, simp)
  then show ?thesis by (simp add: i64_def in_i64_def)
qed

lemma in_i64I: "- (2 ^ 63) \<le> x \<Longrightarrow> x < 2 ^ 63 \<Longrightarrow> in_i64 x"
  by (simp add: in_i64_def)

lemma in_i64_half:
  "\<bar>x\<bar> \<le> 2 ^ 62 - 1 \<Longrightarrow> \<bar>y\<bar> \<le> 2 ^ 62 - 1 \<Longrightarrow> in_i64 (x + y) \<and> in_i64 (x - y) \<and> in_i64 (2 * x)"
  unfolding in_i64_def abs_le_iff by simp

text \<open>The operator \<^verbatim>\<open>%\<close> truncates: the result has the sign of the dividend.\<close>

definition go_rem :: "int \<Rightarrow> int \<Rightarrow> int" where
  "go_rem a b = sgn a * (\<bar>a\<bar> mod \<bar>b\<bar>)"

lemma go_rem_nonneg [simp]: "0 \<le> a \<Longrightarrow> 0 < b \<Longrightarrow> go_rem a b = a mod b"
  by (cases "a = 0") (auto simp: go_rem_def)

subsection \<open>Instants and durations\<close>

type_synonym gotime = int
type_synonym duration = int

abbreviation millisecond :: duration where "millisecond \<equiv> 1000000"
abbreviation second :: duration where "second \<equiv> 1000000000"
abbreviation minute :: duration where "minute \<equiv> 60000000000"
abbreviation hour :: duration where "hour \<equiv> 3600000000000"

text \<open>\<^verbatim>\<open>time.Time{}\<close>: January 1, year 1, UTC.\<close>

definition zero_time :: gotime where
  "zero_time = - 62135596800000000000"

text \<open>\<^verbatim>\<open>Time.Sub\<close> saturates at the ends of the duration type.\<close>

definition t_sub :: "gotime \<Rightarrow> gotime \<Rightarrow> duration" where
  "t_sub a b = max (- (2 ^ 63)) (min (2 ^ 63 - 1) (a - b))"

text \<open>\<^verbatim>\<open>Time.UnixMilli\<close> and \<^verbatim>\<open>time.UnixMilli\<close>: the instant in whole milliseconds.\<close>

definition to_unix_milli :: "gotime \<Rightarrow> int" where
  "to_unix_milli t = t div millisecond"

definition of_unix_milli :: "int \<Rightarrow> gotime" where
  "of_unix_milli ms = ms * millisecond"

lemma t_sub_less_iff: "in_i64 d \<Longrightarrow> t_sub a b < d \<longleftrightarrow> a - b < d \<and> - (2 ^ 63) < d"
  by (auto simp: t_sub_def in_i64_def)

lemma t_sub_less_pos: "0 < d \<Longrightarrow> in_i64 d \<Longrightarrow> t_sub a b < d \<longleftrightarrow> a < b + d"
  by (auto simp: t_sub_def in_i64_def)

lemma t_sub_mono: "a \<le> a' \<Longrightarrow> b' \<le> b \<Longrightarrow> t_sub a b \<le> t_sub a' b'"
  by (auto simp: t_sub_def)

lemma unix_milli_round:
  "of_unix_milli (to_unix_milli t) \<le> t \<and> t < of_unix_milli (to_unix_milli t) + millisecond"
  by (simp add: of_unix_milli_def to_unix_milli_def) presburger

subsection \<open>Joined keys\<close>

text \<open>
  Several components key their state by \<^verbatim>\<open>a + ":" + b\<close>. The join is injective when the
  first part holds no separator, as generated identifiers do not.
\<close>

definition join_colon :: "string \<Rightarrow> string \<Rightarrow> string" where
  "join_colon a b = a @ '':'' @ b"

definition colon_free :: "string \<Rightarrow> bool" where
  "colon_free s \<longleftrightarrow> CHR '':'' \<notin> set s"

lemma append_sep_inj:
  "c \<notin> set a \<Longrightarrow> c \<notin> set a' \<Longrightarrow> a @ c # b = a' @ c # b' \<longleftrightarrow> a = a' \<and> b = b'"
proof (induction a arbitrary: a')
  case Nil
  then show ?case by (cases a') auto
next
  case (Cons x xs)
  then show ?case by (cases a') auto
qed

lemma join_colon_inj:
  "colon_free a \<Longrightarrow> colon_free a' \<Longrightarrow> join_colon a b = join_colon a' b' \<longleftrightarrow> a = a' \<and> b = b'"
  by (simp add: join_colon_def colon_free_def append_sep_inj)

subsection \<open>Decimal numerals\<close>

text \<open>\<^verbatim>\<open>strconv.FormatInt(n, 10)\<close>.\<close>

fun show_nat :: "nat \<Rightarrow> string" where
  "show_nat n = (if n < 10 then [char_of (48 + n)] else show_nat (n div 10) @ [char_of (48 + n mod 10)])"

declare show_nat.simps [simp del]

definition show_int :: "int \<Rightarrow> string" where
  "show_int n = (if n < 0 then ''-'' @ show_nat (nat (- n)) else show_nat (nat n))"

subsection \<open>Association lists\<close>

text \<open>
  A Go map whose size or iteration matters is an association list with distinct keys,
  updated with \<^const>\<open>AList.update\<close>.
\<close>

definition keys_distinct :: "('k \<times> 'v) list \<Rightarrow> bool" where
  "keys_distinct xs \<longleftrightarrow> distinct (map fst xs)"

lemma keys_distinct_Nil [simp]: "keys_distinct []"
  by (simp add: keys_distinct_def)

lemma keys_distinct_update [simp]: "keys_distinct xs \<Longrightarrow> keys_distinct (AList.update k v xs)"
  by (simp add: keys_distinct_def distinct_update)

lemma keys_distinct_filter [simp]: "keys_distinct xs \<Longrightarrow> keys_distinct (filter P xs)"
  by (induction xs) (auto simp: keys_distinct_def)

lemma keys_distinct_delete [simp]: "keys_distinct xs \<Longrightarrow> keys_distinct (AList.delete k xs)"
  by (simp add: keys_distinct_def distinct_delete)

lemma map_of_filter_distinct:
  "keys_distinct xs \<Longrightarrow>
   map_of (filter P xs) k = (case map_of xs k of None \<Rightarrow> None | Some v \<Rightarrow> if P (k, v) then Some v else None)"
proof (induction xs)
  case Nil
  then show ?case by simp
next
  case (Cons x xs)
  obtain k' v' where x: "x = (k', v')" by (cases x)
  from Cons.prems x have d: "keys_distinct xs" and n: "k' \<notin> fst ` set xs"
    by (auto simp: keys_distinct_def)
  have "map_of (filter P xs) k' = None"
    using n by (auto simp: map_of_eq_None_iff)
  with Cons.IH [OF d] x n show ?case
    by (auto simp: map_of_eq_None_iff split: option.splits)
qed

lemma length_update:
  "length (AList.update k v xs) = (if k \<in> fst ` set xs then length xs else Suc (length xs))"
  by (induction xs) auto

end
