(* ===== verification/Go_Float.thy ===== *)
theory Go_Float
  imports Go_Prelude Complex_Main
begin

text \<open>
  Go's \<^verbatim>\<open>float64\<close>: a finite value is a rational, and every arithmetic operation is the exact
  one followed by \<open>fl\<close>, rounding to the nearest multiple of the unit in the last place with
  ties to even (binary64: 53 bits of significand, least exponent -1074). Values beyond
  \<open>2 ^ 1024\<close> (infinities) and the sign of zero are not represented: no quantity of the
  modelled components comes near that range. A NaN that the code produces and tests for is
  an option result in the component that does so.
\<close>

type_synonym f64 = rat

subsection \<open>Binary exponents\<close>

fun bits :: "nat \<Rightarrow> nat" where
  "bits n = (if n = 0 then 0 else Suc (bits (n div 2)))"

declare bits.simps [simp del]

lemma bits_upper: "n < 2 ^ bits n"
proof (induction n rule: bits.induct)
  case (1 n)
  show ?case
  proof (cases "n = 0")
    case True
    then show ?thesis by (simp add: bits.simps [of n])
  next
    case False
    with "1.IH" have "n div 2 < 2 ^ bits (n div 2)" by simp
    with False show ?thesis by (simp add: bits.simps [of n])
  qed
qed

lemma bits_lower: "0 < n \<Longrightarrow> 2 ^ bits n \<le> 2 * n"
proof (induction n rule: bits.induct)
  case (1 n)
  show ?case
  proof (cases "n div 2 = 0")
    case True
    with "1.prems" have "n = 1" by auto
    then show ?thesis by (simp add: bits.simps)
  next
    case False
    with "1.IH" "1.prems" have "2 ^ bits (n div 2) \<le> 2 * (n div 2)" by simp
    with "1.prems" show ?thesis by (simp add: bits.simps [of n])
  qed
qed

text \<open>The binary exponent of a positive rational: \<open>2 powi ilog2 x \<le> x < 2 powi (ilog2 x + 1)\<close>.\<close>

definition ilog2 :: "rat \<Rightarrow> int" where
  "ilog2 x =
     (let (p, q) = quotient_of x;
          k = int (bits (nat p)) - int (bits (nat q))
      in if 2 powi k \<le> x then k else k - 1)"

lemma two_powi_pos [simp]: "0 < (2::rat) powi k"
  by (rule zero_less_power_int) simp

lemma ilog2_bounds:
  assumes "0 < x"
  shows "2 powi ilog2 x \<le> x" and "x < 2 powi (ilog2 x + 1)"
proof -
  obtain p q where pq: "quotient_of x = (p, q)" by (cases "quotient_of x")
  then have q: "0 < q" and x: "x = of_int p / of_int q"
    by (auto dest: quotient_of_denom_pos quotient_of_div)
  with assms have p: "0 < p" by (simp add: zero_less_divide_iff)
  define a where "a = bits (nat p)"
  define b where "b = bits (nat q)"
  define k where "k = int a - int b"
  have pu: "of_int p < (2::rat) ^ a" and pl: "(2::rat) ^ a \<le> 2 * of_int p"
  proof -
    have "int (nat p) < int (2 ^ a)" and "int (2 ^ a) \<le> int (2 * nat p)"
      using bits_upper [of "nat p"] bits_lower [of "nat p"] p unfolding a_def by linarith+
    then have "p < 2 ^ a" and "2 ^ a \<le> 2 * p" using p by simp_all
    then show "of_int p < (2::rat) ^ a" and "(2::rat) ^ a \<le> 2 * of_int p"
      by (metis of_int_less_iff of_int_numeral of_int_power,
          metis of_int_le_iff of_int_mult of_int_numeral of_int_power)
  qed
  have qu: "of_int q < (2::rat) ^ b" and ql: "(2::rat) ^ b \<le> 2 * of_int q"
  proof -
    have "int (nat q) < int (2 ^ b)" and "int (2 ^ b) \<le> int (2 * nat q)"
      using bits_upper [of "nat q"] bits_lower [of "nat q"] q unfolding b_def by linarith+
    then have "q < 2 ^ b" and "2 ^ b \<le> 2 * q" using q by simp_all
    then show "of_int q < (2::rat) ^ b" and "(2::rat) ^ b \<le> 2 * of_int q"
      by (metis of_int_less_iff of_int_numeral of_int_power,
          metis of_int_le_iff of_int_mult of_int_numeral of_int_power)
  qed
  have k: "(2::rat) powi k = 2 ^ a / 2 ^ b"
    by (simp add: k_def power_int_diff power_int_of_nat)
  have upper: "x < 2 powi (k + 1)"
  proof -
    have "of_int p * (2::rat) ^ b < 2 ^ a * (2 * of_int q)"
      using pu ql p q by (intro mult_less_le_imp_less) auto
    then show ?thesis
      using q by (simp add: x power_int_add k field_simps)
  qed
  have lower: "2 powi (k - 1) < x"
  proof -
    have "(2::rat) ^ a * of_int q < (2 * of_int p) * 2 ^ b"
      using pl qu p q by (intro mult_le_less_imp_less) auto
    then show ?thesis
      using q by (simp add: x power_int_diff k field_simps)
  qed
  have eq: "ilog2 x = (if 2 powi k \<le> x then k else k - 1)"
    by (simp add: ilog2_def pq k_def a_def b_def)
  show "2 powi ilog2 x \<le> x"
    using lower by (simp add: eq)
  show "x < 2 powi (ilog2 x + 1)"
    using upper by (simp add: eq)
qed

lemma ilog2_mono:
  assumes "0 < x" and "x \<le> y"
  shows "ilog2 x \<le> ilog2 y"
proof (rule ccontr)
  assume "\<not> ?thesis"
  then have "ilog2 y + 1 \<le> ilog2 x" by simp
  then have "(2::rat) powi (ilog2 y + 1) \<le> 2 powi ilog2 x"
    by (intro power_int_increasing) auto
  with ilog2_bounds [of x] ilog2_bounds [of y] assms show False by linarith
qed

subsection \<open>Rounding\<close>

text \<open>Nearest integer, ties to even.\<close>

definition rhe :: "rat \<Rightarrow> int" where
  "rhe x = (let n = \<lfloor>x\<rfloor>; d = x - of_int n
            in if d < 1 / 2 then n else if 1 / 2 < d then n + 1 else if even n then n else n + 1)"

lemma rhe_of_int [simp]: "rhe (of_int n) = n"
  by (simp add: rhe_def)

lemma rhe_floor: "\<lfloor>x\<rfloor> \<le> rhe x \<and> rhe x \<le> \<lfloor>x\<rfloor> + 1"
  by (simp add: rhe_def Let_def)

lemma rhe_mono: "x \<le> y \<Longrightarrow> rhe x \<le> rhe y"
proof -
  assume le: "x \<le> y"
  show ?thesis
  proof (cases "\<lfloor>x\<rfloor> = \<lfloor>y\<rfloor>")
    case True
    with le show ?thesis by (simp add: rhe_def Let_def)
  next
    case False
    with le have "\<lfloor>x\<rfloor> + 1 \<le> \<lfloor>y\<rfloor>" using floor_mono [OF le] by simp
    with rhe_floor [of x] rhe_floor [of y] show ?thesis by linarith
  qed
qed

lemma rhe_minus: "rhe (- x) = - rhe x"
proof (cases "x \<in> \<int>")
  case True
  then obtain n where "x = of_int n" by (auto elim: Ints_cases)
  then show ?thesis by (metis of_int_minus rhe_of_int)
next
  case False
  then have f: "\<lfloor>- x\<rfloor> = - \<lfloor>x\<rfloor> - 1"
    by (simp add: floor_minus ceiling_altdef) (metis Ints_of_int)
  have "of_int \<lfloor>x\<rfloor> \<noteq> x" using False by (metis Ints_of_int)
  then show ?thesis
    by (auto simp: rhe_def Let_def f field_simps)
qed

text \<open>The exponent of the last place of the binary64 numbers around \<open>x\<close>.\<close>

definition ulp_exp :: "rat \<Rightarrow> int" where
  "ulp_exp x = max (- 1074) (ilog2 \<bar>x\<bar> - 52)"

definition fl :: "rat \<Rightarrow> f64" where
  "fl x = (if x = 0 then 0 else of_int (rhe (x / 2 powi ulp_exp x)) * 2 powi ulp_exp x)"

lemma fl_0 [simp]: "fl 0 = 0"
  by (simp add: fl_def)

lemma fl_minus: "fl (- x) = - fl x"
  by (simp add: fl_def ulp_exp_def rhe_minus)

lemma fl_mono_pos:
  assumes "0 < x" and "x \<le> y"
  shows "fl x \<le> fl y"
proof -
  define ex where "ex = ulp_exp x"
  define ey where "ey = ulp_exp y"
  from assms have y: "0 < y" by simp
  have e: "ex \<le> ey"
    using ilog2_mono [OF assms] assms by (simp add: ex_def ey_def ulp_exp_def)
  show ?thesis
  proof (cases "ex = ey")
    case True
    have "x / 2 powi ey \<le> y / 2 powi ey"
      using assms by (intro divide_right_mono) (auto simp: less_imp_le)
    then have "rhe (x / 2 powi ey) \<le> rhe (y / 2 powi ey)" by (rule rhe_mono)
    with True assms y show ?thesis
      by (simp add: fl_def flip: ex_def ey_def)
  next
    case False
    with e have lt: "ex + 1 \<le> ey" by simp
    then have ey: "ey = ilog2 y - 52"
      using y by (auto simp: ey_def ex_def ulp_exp_def max_def split: if_splits)
    have xu: "x \<le> 2 powi (ex + 53)"
    proof -
      have "ilog2 x + 1 \<le> ex + 53" using assms by (simp add: ex_def ulp_exp_def)
      then have "(2::rat) powi (ilog2 x + 1) \<le> 2 powi (ex + 53)"
        by (intro power_int_increasing) auto
      with ilog2_bounds(2) [OF assms(1)] show ?thesis by linarith
    qed
    have "x / 2 powi ex \<le> of_int (2 ^ 53)"
      using xu by (simp add: power_int_add field_simps)
    then have "rhe (x / 2 powi ex) \<le> 2 ^ 53"
      using rhe_mono rhe_of_int by metis
    then have "(of_int (rhe (x / 2 powi ex)) :: rat) \<le> 2 ^ 53"
      by (metis of_int_le_iff of_int_numeral of_int_power)
    then have "fl x \<le> 2 ^ 53 * 2 powi ex"
      using assms by (simp add: fl_def flip: ex_def)
    also have "\<dots> = 2 powi (ex + 53)" by (simp add: power_int_add)
    also have "\<dots> \<le> 2 powi (ey + 52)" using lt by (intro power_int_increasing) auto
    also have "\<dots> \<le> fl y"
    proof -
      have "2 powi (ey + 52) \<le> y" using ilog2_bounds(1) [OF y] ey by simp
      then have "of_int (2 ^ 52) \<le> y / 2 powi ey"
        by (simp add: power_int_add field_simps)
      then have "2 ^ 52 \<le> rhe (y / 2 powi ey)"
        using rhe_mono rhe_of_int by metis
      then have "(2::rat) ^ 52 \<le> of_int (rhe (y / 2 powi ey))"
        by (metis of_int_le_iff of_int_numeral of_int_power)
      then show ?thesis
        using y by (simp add: fl_def power_int_add flip: ey_def)
    qed
    finally show ?thesis .
  qed
qed

lemma fl_nonneg: "0 \<le> x \<Longrightarrow> 0 \<le> fl x"
proof (cases "x = 0")
  case False
  assume "0 \<le> x"
  with False have "0 \<le> x / 2 powi ulp_exp x" by (simp add: less_imp_le)
  then have "0 \<le> rhe (x / 2 powi ulp_exp x)"
    using rhe_mono [of 0] rhe_of_int [of 0] by simp
  with False show ?thesis by (simp add: fl_def less_imp_le)
qed simp

theorem fl_mono: "x \<le> y \<Longrightarrow> fl x \<le> fl y"
proof -
  assume le: "x \<le> y"
  consider "0 < x" | "x \<le> 0" "0 \<le> y" | "y < 0" using le by linarith
  then show ?thesis
  proof cases
    case 1
    with le show ?thesis by (simp add: fl_mono_pos)
  next
    case 2
    then show ?thesis using fl_nonneg [of y] fl_nonneg [of "- x"] by (simp add: fl_minus)
  next
    case 3
    with le show ?thesis using fl_mono_pos [of "- y" "- x"] by (simp add: fl_minus)
  qed
qed

text \<open>Every significand of at most 53 bits at an exponent of the format is a binary64 number.\<close>

lemma fl_repr:
  assumes m: "\<bar>m\<bar> \<le> 2 ^ 53" and e: "- 1074 \<le> e"
  shows "fl (of_int m * 2 powi e) = of_int m * 2 powi e"
proof (cases "m = 0")
  case False
  define x where "x = (of_int m :: rat) * 2 powi e"
  define u where "u = ulp_exp x"
  have x0: "x \<noteq> 0" using False by (simp add: x_def)
  have absx: "\<bar>x\<bar> = of_int \<bar>m\<bar> * 2 powi e" by (simp add: x_def abs_mult)
  have fl: "fl x = of_int (rhe (x / 2 powi u)) * 2 powi u"
    using x0 by (simp add: fl_def u_def)
  have big: "2 ^ k \<le> \<bar>m\<bar>" if "e + int k \<le> ilog2 \<bar>x\<bar>" for k
  proof -
    have "(2::rat) powi (e + int k) \<le> 2 powi ilog2 \<bar>x\<bar>"
      using that by (intro power_int_increasing) auto
    also have "\<dots> \<le> \<bar>x\<bar>" using x0 by (intro ilog2_bounds) simp
    finally have "(of_int (2 ^ k) :: rat) \<le> of_int \<bar>m\<bar>"
      by (simp add: absx power_int_add power_int_of_nat)
    then show ?thesis by (simp only: of_int_le_iff)
  qed
  have le: "ilog2 \<bar>x\<bar> \<le> e + 53"
  proof (rule ccontr)
    assume "\<not> ?thesis"
    then have "2 ^ 54 \<le> \<bar>m\<bar>" by (intro big) simp
    with m show False by simp
  qed
  show ?thesis
  proof (cases "u \<le> e")
    case True
    then have "x / 2 powi u = of_int (m * 2 ^ nat (e - u))"
      by (simp add: x_def power_int_diff flip: power_int_of_nat)
    then have "rhe (x / 2 powi u) = m * 2 ^ nat (e - u)" by (metis rhe_of_int)
    with fl True have "fl x = of_int m * (2 powi (e - u) * 2 powi u)"
      by (simp flip: power_int_of_nat)
    then show ?thesis by (simp add: x_def flip: power_int_add)
  next
    case False
    with le e have ue: "u = e + 1" and l: "e + int 53 \<le> ilog2 \<bar>x\<bar>"
      by (auto simp: u_def ulp_exp_def)
    from big [OF l] m have "\<bar>m\<bar> = 2 ^ 53" by simp
    then have "even m" by (metis dvd_abs_iff even_numeral even_power zero_less_numeral)
    then obtain h where h: "m = 2 * h" by (auto elim: evenE)
    then have "x / 2 powi u = of_int h" by (simp add: x_def ue power_int_add)
    then have "rhe (x / 2 powi u) = h" by (metis rhe_of_int)
    with fl have "fl x = of_int h * 2 powi u" by simp
    then show ?thesis by (simp add: x_def ue h power_int_add)
  qed
qed simp

lemma rhe_ulp_bound: "\<bar>rhe (x / 2 powi ulp_exp x)\<bar> \<le> 2 ^ 53"
proof (cases "x = 0")
  case False
  define u where "u = ulp_exp x"
  have "\<bar>x\<bar> < 2 powi (ilog2 \<bar>x\<bar> + 1)" using False by (intro ilog2_bounds) simp
  also have "\<dots> \<le> 2 powi (u + 53)"
    by (intro power_int_increasing) (auto simp: u_def ulp_exp_def)
  finally have b: "\<bar>x / 2 powi u\<bar> \<le> of_int (2 ^ 53)"
    by (simp add: abs_divide power_int_add field_simps)
  have "x / 2 powi u \<le> of_int (2 ^ 53)" and "of_int (- (2 ^ 53)) \<le> x / 2 powi u"
    using b unfolding abs_le_iff of_int_minus by linarith+
  then have "rhe (x / 2 powi u) \<le> rhe (of_int (2 ^ 53))"
    and "rhe (of_int (- (2 ^ 53))) \<le> rhe (x / 2 powi u)"
    by - (erule rhe_mono)+
  then show ?thesis unfolding rhe_of_int u_def by simp
qed (simp add: rhe_def)

lemma fl_idem: "fl (fl x) = fl x"
proof (cases "x = 0")
  case False
  have "- 1074 \<le> ulp_exp x" by (simp add: ulp_exp_def)
  with fl_repr [OF rhe_ulp_bound this, of x] False show ?thesis by (simp add: fl_def [of x])
qed simp

lemma fl_of_int: "\<bar>n\<bar> \<le> 2 ^ 53 \<Longrightarrow> fl (of_int n) = of_int n"
  using fl_repr [of n 0] by simp

lemma fl_numeral [simp]: "(numeral n :: int) \<le> 2 ^ 53 \<Longrightarrow> fl (numeral n) = numeral n"
  using fl_of_int [of "numeral n"] by simp

subsection \<open>Rounding error\<close>

lemma rhe_error: "\<bar>of_int (rhe x) - x\<bar> \<le> 1 / 2"
proof -
  have "of_int \<lfloor>x\<rfloor> \<le> x" and "x < of_int \<lfloor>x\<rfloor> + 1"
    using floor_correct [of x] by auto
  then show ?thesis by (auto simp: rhe_def Let_def abs_le_iff)
qed

lemma fl_error:
  assumes "2 powi (- 1000) \<le> \<bar>x\<bar>"
  shows "\<bar>fl x - x\<bar> \<le> \<bar>x\<bar> / 2 ^ 53"
proof -
  have x: "x \<noteq> 0" using assms two_powi_pos [of "- 1000"] by (auto simp del: two_powi_pos)
  then have pos: "0 < \<bar>x\<bar>" by simp
  define u where "u = (2::rat) powi ulp_exp x"
  have u: "0 < u" by (simp add: u_def)
  have "- 1000 < ilog2 \<bar>x\<bar> + 1"
  proof (rule ccontr)
    assume "\<not> ?thesis"
    then have "(2::rat) powi (ilog2 \<bar>x\<bar> + 1) \<le> 2 powi (- 1000)"
      by (intro power_int_increasing) auto
    with ilog2_bounds(2) [OF pos] assms show False by linarith
  qed
  then have "ulp_exp x = ilog2 \<bar>x\<bar> - 52" by (simp add: ulp_exp_def)
  then have "u = 2 powi ilog2 \<bar>x\<bar> / 2 ^ 52"
    by (simp add: u_def power_int_diff)
  then have le: "u \<le> \<bar>x\<bar> / 2 ^ 52"
    using ilog2_bounds(1) [OF pos] by (simp add: divide_right_mono)
  have "fl x - x = (of_int (rhe (x / u)) - x / u) * u"
    using x u by (simp add: fl_def u_def left_diff_distrib)
  then have "\<bar>fl x - x\<bar> = \<bar>of_int (rhe (x / u)) - x / u\<bar> * u"
    using u by (simp add: abs_mult)
  also have "\<dots> \<le> 1 / 2 * u"
    using u by (intro mult_right_mono rhe_error) auto
  finally show ?thesis using le by simp
qed

lemma fl_power_two: "- 1074 \<le> k \<Longrightarrow> fl (2 powi k) = 2 powi k"
  using fl_repr [of 1 k] by simp

text \<open>One rounding adds at most a relative \<open>2 powi (- 53)\<close>, or next to nothing near zero.\<close>

definition ftiny :: rat where
  "ftiny = 2 powi (- 1000)"

lemma ftiny_pos: "0 < ftiny" and ftiny_small: "ftiny * 2 ^ 100 \<le> 1"
proof -
  show "0 < ftiny" by (simp add: ftiny_def)
  have "ftiny * 2 ^ 100 = 2 powi (- 1000) * 2 powi 100" by (simp add: ftiny_def)
  also have "\<dots> = 2 powi (- 900)" by (simp flip: power_int_add)
  also have "\<dots> \<le> 2 powi 0" by (rule power_int_increasing) auto
  finally show "ftiny * 2 ^ 100 \<le> 1" by simp
qed

lemma fl_upper:
  assumes "0 \<le> x"
  shows "fl x \<le> x * (1 + 1 / 2 ^ 53) + ftiny"
proof (cases "ftiny \<le> x")
  case True
  then have "\<bar>fl x - x\<bar> \<le> x / 2 ^ 53"
    using fl_error [of x] assms by (simp add: ftiny_def)
  then have "fl x \<le> x + x / 2 ^ 53" by linarith
  also have "\<dots> = x * (1 + 1 / 2 ^ 53)" by (simp only: distrib_left) simp
  finally show ?thesis using ftiny_pos by linarith
next
  case False
  then have "fl x \<le> fl ftiny" by (intro fl_mono) simp
  also have "fl ftiny = ftiny" unfolding ftiny_def by (rule fl_power_two) simp
  finally show ?thesis using assms by (simp add: distrib_left)
qed

subsection \<open>What the components rely on\<close>

text \<open>
  The laws of rounding the components use, as an interface: rounding is monotone, is the
  identity on its own results and on integers of at most 53 bits.
\<close>

locale float_rounding =
  fixes rnd :: "rat \<Rightarrow> rat"
  assumes rnd_mono: "x \<le> y \<Longrightarrow> rnd x \<le> rnd y"
    and rnd_idem: "rnd (rnd x) = rnd x"
    and rnd_of_int: "\<bar>n\<bar> \<le> 2 ^ 53 \<Longrightarrow> rnd (of_int n) = of_int n"
begin

lemma rnd_zero: "rnd 0 = 0"
  using rnd_of_int [of 0] by simp

lemma rnd_one: "rnd 1 = 1"
  using rnd_of_int [of 1] by simp

lemma rnd_nonneg: "0 \<le> x \<Longrightarrow> 0 \<le> rnd x"
  using rnd_mono [of 0 x] by (simp add: rnd_zero)

lemma rnd_nonpos: "x \<le> 0 \<Longrightarrow> rnd x \<le> 0"
  using rnd_mono [of x 0] by (simp add: rnd_zero)

lemma rnd_le_int: "x \<le> of_int n \<Longrightarrow> \<bar>n\<bar> \<le> 2 ^ 53 \<Longrightarrow> rnd x \<le> of_int n"
  using rnd_mono [of x "of_int n"] by (simp add: rnd_of_int)

lemma rnd_ge_int: "of_int n \<le> x \<Longrightarrow> \<bar>n\<bar> \<le> 2 ^ 53 \<Longrightarrow> of_int n \<le> rnd x"
  using rnd_mono [of "of_int n" x] by (simp add: rnd_of_int)

lemma rnd_add_ge: "rnd a = a \<Longrightarrow> 0 \<le> b \<Longrightarrow> a \<le> rnd (a + b)"
  using rnd_mono [of a "a + b"] by simp

lemma rnd_sub_le: "rnd a = a \<Longrightarrow> 0 \<le> b \<Longrightarrow> rnd (a - b) \<le> a"
  using rnd_mono [of "a - b" a] by simp

lemma rnd_unit: "0 \<le> x \<Longrightarrow> x \<le> 1 \<Longrightarrow> 0 \<le> rnd x \<and> rnd x \<le> 1"
  using rnd_mono [of x 1] by (simp add: rnd_nonneg rnd_one)

lemma rnd_less_imp: "rnd x < rnd y \<Longrightarrow> x < y"
  using rnd_mono [of y x] by linarith

end

interpretation f64: float_rounding fl
  by unfold_locales (auto simp: fl_mono fl_idem fl_of_int)

subsection \<open>Operations\<close>

definition fadd :: "f64 \<Rightarrow> f64 \<Rightarrow> f64" where "fadd a b = fl (a + b)"
definition fsub :: "f64 \<Rightarrow> f64 \<Rightarrow> f64" where "fsub a b = fl (a - b)"
definition fmul :: "f64 \<Rightarrow> f64 \<Rightarrow> f64" where "fmul a b = fl (a * b)"
definition fdiv :: "f64 \<Rightarrow> f64 \<Rightarrow> f64" where "fdiv a b = fl (a / b)"

text \<open>Conversion of an integer, \<^verbatim>\<open>float64(n)\<close>.\<close>

definition f_of_int :: "int \<Rightarrow> f64" where "f_of_int n = fl (of_int n)"

text \<open>
  Conversion to a 64-bit integer truncates. Outside the range of the type the result is
  implementation-dependent in Go; it is the parameter \<open>oor\<close>, and a result that holds for
  every \<open>oor\<close> holds on every platform. On amd64 it is the least integer, on arm64 the
  nearest end of the range.
\<close>

definition f_trunc :: "f64 \<Rightarrow> int" where
  "f_trunc x = (if 0 \<le> x then \<lfloor>x\<rfloor> else \<lceil>x\<rceil>)"

definition f_to_i64 :: "(f64 \<Rightarrow> int) \<Rightarrow> f64 \<Rightarrow> int" where
  "f_to_i64 oor x = (if in_i64 (f_trunc x) then f_trunc x else oor x)"

definition oor_amd64 :: "f64 \<Rightarrow> int" where
  "oor_amd64 x = - (2 ^ 63)"

definition oor_arm64 :: "f64 \<Rightarrow> int" where
  "oor_arm64 x = (if x < 0 then - (2 ^ 63) else 2 ^ 63 - 1)"

definition is_f64 :: "rat \<Rightarrow> bool" where
  "is_f64 x \<longleftrightarrow> fl x = x"

lemma is_f64_ops [simp]:
  "is_f64 (fadd a b)" "is_f64 (fsub a b)" "is_f64 (fmul a b)" "is_f64 (fdiv a b)"
  "is_f64 (f_of_int n)"
  by (simp_all add: is_f64_def fadd_def fsub_def fmul_def fdiv_def f_of_int_def fl_idem)

lemma f_of_int_exact [simp]: "\<bar>n\<bar> \<le> 2 ^ 53 \<Longrightarrow> f_of_int n = of_int n"
  by (simp add: f_of_int_def fl_of_int)

lemma f_of_int_mono: "m \<le> n \<Longrightarrow> f_of_int m \<le> f_of_int n"
  by (simp add: f_of_int_def fl_mono)

lemma f_of_int_nonneg: "0 \<le> n \<Longrightarrow> 0 \<le> f_of_int n"
  by (simp add: f_of_int_def fl_nonneg)

lemma f_trunc_of_int [simp]: "f_trunc (of_int n) = n"
  by (simp add: f_trunc_def)

lemma f_to_i64_of_int: "f_to_i64 oor (of_int n) = (if in_i64 n then n else oor (of_int n))"
  by (simp add: f_to_i64_def)

end
