(* ===== verification/Coordination.thy ===== *)
theory Coordination
  imports Go_Float
begin

text \<open>
  The coordination primitives of \<^verbatim>\<open>internal/platform/coordination\<close>: the budget ledger
  contract (\<^verbatim>\<open>contracts.go\<close>) with the in-process ledger that implements it (\<^verbatim>\<open>memory.go\<close>),
  the concurrency leases, the inflight counter, the per-region budget slices
  (\<^verbatim>\<open>budgetslice.go\<close>), and the lease gate of \<^verbatim>\<open>internal/resilience/leasegate\<close>. The Redis
  implementations are scripts of a remote store; they are other instances of the
  \<open>budget_ledger\<close> contract and are not modelled.
\<close>

named_theorems coord_defs \<open>operations of the coordination primitives\<close>

subsection \<open>Budget ledger\<close>

datatype coord_error =
    ErrReservationNotFound | ErrAlreadyFinalized | ErrCapacityExceeded | ErrLedgerUnavailable
  | CoordinationError string

record budget_window =
  bw_Key :: string
  bw_Limit :: f64
  bw_TTL :: duration

record reserve_request =
  rq_TenantID :: string
  rq_ReservationID :: string
  rq_Estimate :: f64
  rq_Windows :: "budget_window list"

record reserve_result =
  rr_Reserved :: bool
  rr_Active :: int
  rr_Degraded :: bool

abbreviation reserve_zero :: reserve_result where
  "reserve_zero \<equiv> \<lparr>rr_Reserved = False, rr_Active = 0, rr_Degraded = False\<rparr>"

record memoryReservation =
  mr_estimate :: f64
  mr_windows :: "string list"
  mr_final :: bool

text \<open>A counter that was never written reads as zero, so the windows are total functions.\<close>

record memory_ledger =
  ml_windows :: "string \<Rightarrow> string \<Rightarrow> f64"
  ml_reservations :: "string \<Rightarrow> string \<rightharpoonup> memoryReservation"

definition NewMemoryBudgetLedger :: memory_ledger where
  "NewMemoryBudgetLedger = \<lparr>ml_windows = (\<lambda>_ _. 0), ml_reservations = (\<lambda>_. Map.empty)\<rparr>"

fun check_windows :: "(string \<Rightarrow> f64) \<Rightarrow> f64 \<Rightarrow> budget_window list \<Rightarrow> coord_error + bool" where
  "check_windows tenant estimate [] = Inr True"
| "check_windows tenant estimate (w # ws) =
     (if bw_Key w = '''' \<or> bw_Limit w < 0 then Inl (CoordinationError ''invalid budget window'')
      else if bw_Limit w < fadd (tenant (bw_Key w)) estimate then Inr False
      else check_windows tenant estimate ws)"

definition add_windows :: "f64 \<Rightarrow> string list \<Rightarrow> (string \<Rightarrow> f64) \<Rightarrow> string \<Rightarrow> f64" where
  "add_windows delta keys tenant = fold (\<lambda>k tenant. tenant(k := fadd (tenant k) delta)) keys tenant"

definition mem_Reserve ::
  "memory_ledger \<Rightarrow> reserve_request \<Rightarrow> memory_ledger \<times> (coord_error + reserve_result)" where
  "mem_Reserve m req =
     (if rq_ReservationID req = '''' \<or> rq_Estimate req < 0
      then (m, Inl (CoordinationError ''invalid reserve request''))
      else let t = rq_TenantID req;
               keys = map bw_Key (rq_Windows req)
           in case check_windows (ml_windows m t) (rq_Estimate req) (rq_Windows req) of
                Inl e \<Rightarrow> (m, Inl e)
              | Inr False \<Rightarrow> (m, Inr reserve_zero)
              | Inr True \<Rightarrow>
                  (m\<lparr>ml_windows := (ml_windows m)(t := add_windows (rq_Estimate req) keys (ml_windows m t)),
                     ml_reservations := (ml_reservations m)(t := (ml_reservations m t)(rq_ReservationID req \<mapsto>
                       \<lparr>mr_estimate = rq_Estimate req, mr_windows = keys, mr_final = False\<rparr>))\<rparr>,
                   Inr (reserve_zero\<lparr>rr_Reserved := True\<rparr>)))"

definition mem_reservation ::
  "memory_ledger \<Rightarrow> string \<Rightarrow> string \<Rightarrow> coord_error + memoryReservation" where
  "mem_reservation m tenantID reservationID =
     (case ml_reservations m tenantID reservationID of
        None \<Rightarrow> Inl ErrReservationNotFound
      | Some r \<Rightarrow> if mr_final r then Inl ErrAlreadyFinalized else Inr r)"

definition mem_settle ::
  "memory_ledger \<Rightarrow> string \<Rightarrow> string \<Rightarrow> memoryReservation \<Rightarrow> f64 \<Rightarrow> memory_ledger" where
  "mem_settle m t rid r delta =
     m\<lparr>ml_windows := (ml_windows m)(t := add_windows delta (mr_windows r) (ml_windows m t)),
       ml_reservations := (ml_reservations m)(t := (ml_reservations m t)(rid \<mapsto> r\<lparr>mr_final := True\<rparr>))\<rparr>"

definition mem_Reconcile ::
  "memory_ledger \<Rightarrow> string \<Rightarrow> string \<Rightarrow> f64 \<Rightarrow> memory_ledger \<times> (coord_error + unit)" where
  "mem_Reconcile m tenantID reservationID actual =
     (case mem_reservation m tenantID reservationID of
        Inl e \<Rightarrow> (m, Inl e)
      | Inr r \<Rightarrow> (mem_settle m tenantID reservationID r (fsub actual (mr_estimate r)), Inr ()))"

text \<open>\<^verbatim>\<open>tenant[window] -= estimate\<close>: subtraction is addition of the exact negation.\<close>

definition mem_Release ::
  "memory_ledger \<Rightarrow> string \<Rightarrow> string \<Rightarrow> memory_ledger \<times> (coord_error + unit)" where
  "mem_Release m tenantID reservationID =
     (case mem_reservation m tenantID reservationID of
        Inl e \<Rightarrow> (m, Inl e)
      | Inr r \<Rightarrow> (mem_settle m tenantID reservationID r (- mr_estimate r), Inr ()))"

definition mem_Sweep :: "memory_ledger \<Rightarrow> string \<Rightarrow> int \<Rightarrow> memory_ledger \<times> (coord_error + int)" where
  "mem_Sweep m tenantID limit = (m, Inr 0)"

subsection \<open>The ledger contract\<close>

text \<open>
  What the \<^verbatim>\<open>BudgetLedger\<close> interface promises: a reservation is evaluated against all its
  windows and applied to all or none; a settlement happens at most once. \<open>used\<close> is the value
  of a window, \<open>held\<close> the estimate of a reservation that is not settled.
\<close>

definition granted :: "coord_error + reserve_result \<Rightarrow> bool" where
  "granted r \<longleftrightarrow> (case r of Inl _ \<Rightarrow> False | Inr res \<Rightarrow> rr_Reserved res \<and> \<not> rr_Degraded res)"

datatype ledger_call =
    LReserve reserve_request | LReconcile string string f64 | LRelease string string | LSweep string int

definition ledger_step ::
  "('s \<Rightarrow> reserve_request \<Rightarrow> 's \<times> (coord_error + reserve_result)) \<Rightarrow>
   ('s \<Rightarrow> string \<Rightarrow> string \<Rightarrow> f64 \<Rightarrow> 's \<times> (coord_error + unit)) \<Rightarrow>
   ('s \<Rightarrow> string \<Rightarrow> string \<Rightarrow> 's \<times> (coord_error + unit)) \<Rightarrow>
   ('s \<Rightarrow> string \<Rightarrow> int \<Rightarrow> 's \<times> (coord_error + int)) \<Rightarrow> 's \<Rightarrow> ledger_call \<Rightarrow> 's" where
  "ledger_step reserve reconcile release sweep s c =
     (case c of LReserve req \<Rightarrow> fst (reserve s req)
      | LReconcile t rid a \<Rightarrow> fst (reconcile s t rid a)
      | LRelease t rid \<Rightarrow> fst (release s t rid)
      | LSweep t n \<Rightarrow> fst (sweep s t n))"

text \<open>
  A call respects fixed limits: windows are named once each with their limit, amounts are
  representable, and a reconciliation reports at most the estimate.
\<close>

definition call_within ::
  "(string \<Rightarrow> string \<Rightarrow> f64) \<Rightarrow> ('s \<Rightarrow> string \<Rightarrow> string \<Rightarrow> f64 option) \<Rightarrow> 's \<Rightarrow> ledger_call \<Rightarrow> bool" where
  "call_within cap held s c \<longleftrightarrow>
     (case c of
        LReserve req \<Rightarrow> is_f64 (rq_Estimate req) \<and> distinct (map bw_Key (rq_Windows req))
          \<and> list_all (\<lambda>w. bw_Limit w = cap (rq_TenantID req) (bw_Key w)) (rq_Windows req)
      | LReconcile t rid a \<Rightarrow> (case held s t rid of None \<Rightarrow> True | Some e \<Rightarrow> a \<le> e)
      | _ \<Rightarrow> True)"

fun calls_within where
  "calls_within step cap held s [] \<longleftrightarrow> True"
| "calls_within step cap held s (c # cs) \<longleftrightarrow>
     call_within cap held s c \<and> calls_within step cap held (step s c) cs"

definition reserves :: "string \<Rightarrow> string \<Rightarrow> ledger_call \<Rightarrow> bool" where
  "reserves t rid c \<longleftrightarrow>
     (case c of LReserve req \<Rightarrow> rq_TenantID req = t \<and> rq_ReservationID req = rid | _ \<Rightarrow> False)"

locale budget_ledger =
  fixes reserve :: "'s \<Rightarrow> reserve_request \<Rightarrow> 's \<times> (coord_error + reserve_result)"
    and reconcile :: "'s \<Rightarrow> string \<Rightarrow> string \<Rightarrow> f64 \<Rightarrow> 's \<times> (coord_error + unit)"
    and release :: "'s \<Rightarrow> string \<Rightarrow> string \<Rightarrow> 's \<times> (coord_error + unit)"
    and sweep :: "'s \<Rightarrow> string \<Rightarrow> int \<Rightarrow> 's \<times> (coord_error + int)"
    and used :: "'s \<Rightarrow> string \<Rightarrow> string \<Rightarrow> f64"
    and held :: "'s \<Rightarrow> string \<Rightarrow> string \<Rightarrow> f64 option"
    and good :: "'s \<Rightarrow> bool"
  assumes good_reserve: "good s \<Longrightarrow> is_f64 (rq_Estimate req) \<Longrightarrow> good (fst (reserve s req))"
    and good_reconcile: "good s \<Longrightarrow> good (fst (reconcile s t rid a))"
    and good_release: "good s \<Longrightarrow> good (fst (release s t rid))"
    and good_sweep: "good s \<Longrightarrow> good (fst (sweep s t n))"
    and reserve_refused: "\<not> granted (snd (reserve s req)) \<Longrightarrow>
          used (fst (reserve s req)) = used s \<and> held (fst (reserve s req)) = held s"
    and reserve_granted: "granted (snd (reserve s req)) \<Longrightarrow> w \<in> set (rq_Windows req) \<Longrightarrow>
          distinct (map bw_Key (rq_Windows req)) \<Longrightarrow>
          used (fst (reserve s req)) (rq_TenantID req) (bw_Key w) \<le> bw_Limit w"
    and reserve_holds: "granted (snd (reserve s req)) \<Longrightarrow>
          held (fst (reserve s req)) (rq_TenantID req) (rq_ReservationID req) = Some (rq_Estimate req)"
    and reserve_others: "t \<noteq> rq_TenantID req \<or> k \<notin> bw_Key ` set (rq_Windows req) \<Longrightarrow>
          used (fst (reserve s req)) t k = used s t k"
    and reserve_held: "(t, rid) \<noteq> (rq_TenantID req, rq_ReservationID req) \<Longrightarrow>
          held (fst (reserve s req)) t rid = held s t rid"
    and settle_unknown: "held s t rid = None \<Longrightarrow>
          fst (reconcile s t rid a) = s \<and> fst (release s t rid) = s
          \<and> snd (reconcile s t rid a) \<noteq> Inr () \<and> snd (release s t rid) \<noteq> Inr ()"
    and settle_others: "(t', rid') \<noteq> (t, rid) \<Longrightarrow>
          held (fst (reconcile s t rid a)) t' rid' = held s t' rid'
          \<and> held (fst (release s t rid)) t' rid' = held s t' rid'"
    and settle_held: "held (fst (reconcile s t rid a)) t rid = None
          \<and> held (fst (release s t rid)) t rid = None"
    and reconcile_used: "good s \<Longrightarrow> held s t rid = Some e \<Longrightarrow> a \<le> e \<Longrightarrow>
          used (fst (reconcile s t rid a)) t' k \<le> used s t' k"
    and release_used: "good s \<Longrightarrow> used (fst (release s t rid)) t' k \<le> used s t' k"
    and sweep_used: "good s \<Longrightarrow> used (fst (sweep s t n)) t' k \<le> used s t' k"
    and sweep_held: "held (fst (sweep s t n)) t' rid \<in> {None, held s t' rid}"

begin

abbreviation step :: "'s \<Rightarrow> ledger_call \<Rightarrow> 's" where
  "step \<equiv> ledger_step reserve reconcile release sweep"

lemma step_good: "good s \<Longrightarrow> call_within cap held s c \<Longrightarrow> good (step s c)"
  by (cases c) (auto simp: ledger_step_def call_within_def good_reserve good_reconcile good_release good_sweep)

lemma step_used:
  assumes "good s" and "call_within cap held s c" and "used s t k \<le> cap t k"
  shows "used (step s c) t k \<le> cap t k"
proof (cases c)
  case (LReserve req)
  show ?thesis
  proof (cases "granted (snd (reserve s req)) \<and> t = rq_TenantID req \<and> k \<in> bw_Key ` set (rq_Windows req)")
    case True
    then obtain w where w: "w \<in> set (rq_Windows req)" "k = bw_Key w" by auto
    with True assms(2) reserve_granted [of s req w] show ?thesis
      by (auto simp: LReserve ledger_step_def call_within_def list_all_iff)
  next
    case False
    then show ?thesis using assms reserve_refused [of s req] reserve_others [of t req k s]
      by (auto simp: LReserve ledger_step_def)
  qed
next
  case (LReconcile t' rid a)
  show ?thesis
  proof (cases "held s t' rid")
    case None
    then show ?thesis using assms settle_unknown [OF None] by (simp add: LReconcile ledger_step_def)
  next
    case (Some e)
    with assms have "a \<le> e" by (simp add: LReconcile call_within_def)
    from reconcile_used [OF assms(1) Some this, of t k] assms(3) show ?thesis
      by (simp add: LReconcile ledger_step_def)
  qed
next
  case (LRelease t' rid)
  then show ?thesis using release_used [OF assms(1), of t' rid t k] assms(3) by (simp add: ledger_step_def)
next
  case (LSweep t' n)
  then show ?thesis using sweep_used [OF assms(1), of t' n t k] assms(3) by (simp add: ledger_step_def)
qed

lemma run_within:
  "calls_within step cap held s cs \<Longrightarrow> good s \<Longrightarrow> \<forall>t k. used s t k \<le> cap t k \<Longrightarrow>
   used (foldl step s cs) t k \<le> cap t k"
proof (induction cs arbitrary: s)
  case (Cons c cs)
  then have "good (step s c)" and "\<forall>t k. used (step s c) t k \<le> cap t k"
    by (auto intro: step_good step_used)
  with Cons show ?case by simp
qed simp

lemma step_settled: "held s t rid = None \<Longrightarrow> \<not> reserves t rid c \<Longrightarrow> held (step s c) t rid = None"
proof (cases c)
  case (LReserve req)
  assume "held s t rid = None" and "\<not> reserves t rid c"
  then show ?thesis using reserve_held [of t rid req s] by (auto simp: LReserve ledger_step_def reserves_def)
next
  case (LReconcile t' rid' a)
  assume "held s t rid = None"
  then show ?thesis using settle_others [of t rid t' rid' s a] settle_held [of s t' rid' a]
    by (cases "(t, rid) = (t', rid')") (auto simp: LReconcile ledger_step_def)
next
  case (LRelease t' rid')
  assume "held s t rid = None"
  then show ?thesis using settle_others [of t rid t' rid' s 0] settle_held [of s t' rid' 0]
    by (cases "(t, rid) = (t', rid')") (auto simp: LRelease ledger_step_def)
next
  case (LSweep t' n)
  assume "held s t rid = None"
  then show ?thesis using sweep_held [of s t' n t rid] by (auto simp: LSweep ledger_step_def)
qed

lemma run_settled:
  "held s t rid = None \<Longrightarrow> \<forall>c \<in> set cs. \<not> reserves t rid c \<Longrightarrow> held (foldl step s cs) t rid = None"
  by (induction cs arbitrary: s) (simp_all add: step_settled)

text \<open>Once settled, a reservation stays settled: later settlements fail and change nothing.\<close>

lemma settled_once:
  assumes "\<forall>c \<in> set cs. \<not> reserves t rid c"
    and "s' \<in> {foldl step (fst (reconcile s t rid a)) cs, foldl step (fst (release s t rid)) cs}"
  shows "fst (reconcile s' t rid b) = s' \<and> fst (release s' t rid) = s'
         \<and> snd (reconcile s' t rid b) \<noteq> Inr () \<and> snd (release s' t rid) \<noteq> Inr ()"
proof (rule settle_unknown)
  show "held s' t rid = None"
    using assms settle_held [of s t rid a] by (auto intro: run_settled)
qed

end

subsection \<open>The in-process ledger implements the contract\<close>

definition mem_held :: "memory_ledger \<Rightarrow> string \<Rightarrow> string \<Rightarrow> f64 option" where
  "mem_held m t rid =
     (case ml_reservations m t rid of None \<Rightarrow> None
      | Some r \<Rightarrow> if mr_final r then None else Some (mr_estimate r))"

definition mem_good :: "memory_ledger \<Rightarrow> bool" where
  "mem_good m \<longleftrightarrow> (\<forall>t k. is_f64 (ml_windows m t k))
     \<and> (\<forall>t rid r. ml_reservations m t rid = Some r \<longrightarrow> 0 \<le> mr_estimate r)"

lemma add_windows_Nil [simp]: "add_windows d [] f = f"
  by (simp add: add_windows_def)

lemma add_windows_Cons: "add_windows d (k # ks) f = add_windows d ks (f(k := fadd (f k) d))"
  by (simp add: add_windows_def)

lemma add_windows_other: "k \<notin> set ks \<Longrightarrow> add_windows d ks f k = f k"
  by (induction ks arbitrary: f) (auto simp: add_windows_Cons)

lemma add_windows_distinct: "distinct ks \<Longrightarrow> k \<in> set ks \<Longrightarrow> add_windows d ks f k = fadd (f k) d"
  by (induction ks arbitrary: f) (auto simp: add_windows_Cons add_windows_other)

lemma add_windows_f64: "\<forall>k. is_f64 (f k) \<Longrightarrow> is_f64 (add_windows d ks f k)"
  by (induction ks arbitrary: f) (auto simp: add_windows_Cons)

lemma fadd_nonpos: "is_f64 x \<Longrightarrow> d \<le> 0 \<Longrightarrow> fadd x d \<le> x"
  using f64.rnd_sub_le [of x "- d"] by (simp add: fadd_def is_f64_def)

lemma add_windows_nonpos:
  "\<forall>k. is_f64 (f k) \<Longrightarrow> d \<le> 0 \<Longrightarrow> add_windows d ks f k \<le> f k"
proof (induction ks arbitrary: f)
  case (Cons j ks)
  have "add_windows d ks (f(j := fadd (f j) d)) k \<le> (f(j := fadd (f j) d)) k"
    using Cons.prems by (intro Cons.IH) auto
  also have "\<dots> \<le> f k" using Cons.prems by (simp add: fadd_nonpos)
  finally show ?case by (simp add: add_windows_Cons)
qed simp

lemma check_windows_True:
  "check_windows f e ws = Inr True \<Longrightarrow> w \<in> set ws \<Longrightarrow> fadd (f (bw_Key w)) e \<le> bw_Limit w"
  by (induction ws) (auto split: if_splits)

lemma mem_Reserve_cases:
  obtains "mem_Reserve m req = (m, Inr reserve_zero)"
  | e where "mem_Reserve m req = (m, Inl e)"
  | "check_windows (ml_windows m (rq_TenantID req)) (rq_Estimate req) (rq_Windows req) = Inr True"
    "0 \<le> rq_Estimate req"
    "mem_Reserve m req =
       (m\<lparr>ml_windows := (ml_windows m)(rq_TenantID req :=
            add_windows (rq_Estimate req) (map bw_Key (rq_Windows req)) (ml_windows m (rq_TenantID req))),
          ml_reservations := (ml_reservations m)(rq_TenantID req :=
            (ml_reservations m (rq_TenantID req))(rq_ReservationID req \<mapsto>
              \<lparr>mr_estimate = rq_Estimate req, mr_windows = map bw_Key (rq_Windows req), mr_final = False\<rparr>))\<rparr>,
        Inr (reserve_zero\<lparr>rr_Reserved := True\<rparr>))"
proof (cases "rq_ReservationID req = '''' \<or> rq_Estimate req < 0")
  case True
  then show ?thesis using that(2) by (simp add: mem_Reserve_def)
next
  case False
  show ?thesis
  proof (cases "check_windows (ml_windows m (rq_TenantID req)) (rq_Estimate req) (rq_Windows req)")
    case (Inl e)
    then show ?thesis using False that(2) by (simp add: mem_Reserve_def)
  next
    case (Inr b)
    then show ?thesis using False that(1,3) by (cases b) (simp_all add: mem_Reserve_def Let_def)
  qed
qed

lemma mem_settle_good: "mem_good m \<Longrightarrow> mem_reservation m t rid = Inr r \<Longrightarrow> mem_good (mem_settle m t rid r d)"
  by (auto simp: mem_good_def mem_settle_def mem_reservation_def add_windows_f64 split: option.splits if_splits)

lemma mem_settle_used:
  "mem_good m \<Longrightarrow> d \<le> 0 \<Longrightarrow> ml_windows (mem_settle m t rid r d) t' k \<le> ml_windows m t' k"
  by (simp add: mem_settle_def mem_good_def add_windows_nonpos)

lemma mem_reservation_held: "mem_reservation m t rid = Inr r \<Longrightarrow> mem_held m t rid = Some (mr_estimate r)"
  by (auto simp: mem_reservation_def mem_held_def split: option.splits if_splits)

lemma mem_reservation_nonneg: "mem_good m \<Longrightarrow> mem_reservation m t rid = Inr r \<Longrightarrow> 0 \<le> mr_estimate r"
  by (auto simp: mem_reservation_def mem_good_def split: option.splits if_splits)

lemma mem_held_settle:
  "mem_held (mem_settle m t rid r d) t' rid' = (if (t', rid') = (t, rid) then None else mem_held m t' rid')"
  by (auto simp: mem_held_def mem_settle_def)

lemma fsub_nonpos: "a \<le> e \<Longrightarrow> fsub a e \<le> 0"
  by (simp add: fsub_def f64.rnd_nonpos)

lemmas mem_settle_defs = mem_Reconcile_def mem_Release_def

interpretation mem: budget_ledger mem_Reserve mem_Reconcile mem_Release mem_Sweep ml_windows mem_held mem_good
proof (unfold_locales, goal_cases)
  case (1 s req)
  then show ?case
    by (cases rule: mem_Reserve_cases [of s req]) (auto simp: mem_good_def add_windows_f64)
next
  case (2 s t rid a)
  then show ?case by (auto simp: mem_settle_defs mem_settle_good split: sum.splits)
next
  case (3 s t rid)
  then show ?case by (auto simp: mem_settle_defs mem_settle_good split: sum.splits)
next
  case (5 s req)
  then show ?case by (cases rule: mem_Reserve_cases [of s req]) (auto simp: granted_def)
next
  case (6 s req w)
  then show ?case
    by (cases rule: mem_Reserve_cases [of s req])
       (auto simp: granted_def add_windows_distinct dest: check_windows_True)
next
  case (7 s req)
  then show ?case by (cases rule: mem_Reserve_cases [of s req]) (auto simp: granted_def mem_held_def)
next
  case (8 t req k s)
  then show ?case
    by (cases rule: mem_Reserve_cases [of s req]) (auto simp: add_windows_other)
next
  case (9 t rid req s)
  then show ?case by (cases rule: mem_Reserve_cases [of s req]) (auto simp: mem_held_def)
next
  case (10 s t rid a)
  then show ?case by (auto simp: mem_settle_defs dest: mem_reservation_held split: sum.splits)
next
  case (11 t' rid' t rid s a)
  then show ?case by (auto simp: mem_settle_defs mem_held_settle split: sum.splits)
next
  case (12 s t rid a)
  have "mem_held s t rid = None" if "mem_reservation s t rid = Inl e" for e
    using that by (auto simp: mem_reservation_def mem_held_def split: option.splits if_splits)
  then show ?case by (auto simp: mem_settle_defs mem_held_settle split: sum.splits)
next
  case (13 s t rid e a t' k)
  then show ?case
    by (auto simp: mem_settle_defs split: sum.splits
          intro!: mem_settle_used fsub_nonpos dest: mem_reservation_held)
next
  case (14 s t rid t' k)
  then show ?case
    by (auto simp: mem_settle_defs split: sum.splits intro!: mem_settle_used dest: mem_reservation_nonneg)
qed (auto simp: mem_Sweep_def)

subsection \<open>Concurrency leases\<close>

type_synonym lease_state = "string \<Rightarrow> (string \<times> gotime) list"

definition NewMemoryLeaseCoordinator :: lease_state where
  "NewMemoryLeaseCoordinator = (\<lambda>_. [])"

definition prune :: "(string \<times> gotime) list \<Rightarrow> gotime \<Rightarrow> (string \<times> gotime) list" where
  "prune leases now = filter (\<lambda>(_, expiry). now < expiry) leases"

text \<open>\<open>fresh\<close> is what \<^verbatim>\<open>newLeaseID\<close> returns: a random identifier or the error of its source.\<close>

definition lease_Acquire ::
  "lease_state \<Rightarrow> string \<Rightarrow> int \<Rightarrow> duration \<Rightarrow> gotime \<Rightarrow> coord_error + string
     \<Rightarrow> lease_state \<times> (coord_error + bool \<times> string)" where
  "lease_Acquire m scope capacity ttl now fresh =
     (let leases = prune (m scope) now
      in if capacity \<le> int (length leases) then (m(scope := leases), Inr (False, ''''))
         else case fresh of Inl e \<Rightarrow> (m(scope := leases), Inl e)
              | Inr leaseID \<Rightarrow>
                  (m(scope := AList.update leaseID (now + ttl) leases), Inr (True, leaseID)))"

definition lease_Renew ::
  "lease_state \<Rightarrow> string \<Rightarrow> string \<Rightarrow> duration \<Rightarrow> gotime \<Rightarrow> lease_state \<times> (coord_error + bool)" where
  "lease_Renew m scope leaseID ttl now =
     (let leases = prune (m scope) now
      in case map_of leases leaseID of None \<Rightarrow> (m(scope := leases), Inr False)
         | Some _ \<Rightarrow> (m(scope := AList.update leaseID (now + ttl) leases), Inr True))"

definition lease_Release :: "lease_state \<Rightarrow> string \<Rightarrow> string \<Rightarrow> lease_state" where
  "lease_Release m scope leaseID = m(scope := AList.delete leaseID (m scope))"

definition lease_Cleanup :: "lease_state \<Rightarrow> string \<Rightarrow> gotime \<Rightarrow> lease_state" where
  "lease_Cleanup m scope now = m(scope := prune (m scope) now)"

text \<open>The gate in front of the leases; \<open>circuit\<close> is the breaker's \<^verbatim>\<open>Allow\<close>, if one is installed.\<close>

definition gate_Acquire ::
  "('c \<Rightarrow> string \<Rightarrow> string \<Rightarrow> 'c \<times> bool) option \<Rightarrow> 'c \<Rightarrow> lease_state \<Rightarrow> string \<Rightarrow> string \<Rightarrow> string
     \<Rightarrow> int \<Rightarrow> duration \<Rightarrow> gotime \<Rightarrow> coord_error + string
     \<Rightarrow> 'c \<times> lease_state \<times> (coord_error + bool \<times> string)" where
  "gate_Acquire circuit c m scope dep cred capacity ttl now fresh =
     (case circuit of
        None \<Rightarrow> (c, lease_Acquire m scope capacity ttl now fresh)
      | Some allow \<Rightarrow>
          let (c, ok) = allow c dep cred
          in if \<not> ok then (c, m, Inr (False, '''')) else (c, lease_Acquire m scope capacity ttl now fresh))"

definition gate_Renew ::
  "lease_state \<Rightarrow> string \<Rightarrow> string \<Rightarrow> duration \<Rightarrow> gotime \<Rightarrow> lease_state \<times> (coord_error + bool)" where
  "gate_Renew m scope leaseID ttl now = lease_Renew m scope leaseID ttl now"

definition gate_Release :: "lease_state \<Rightarrow> string \<Rightarrow> string \<Rightarrow> lease_state" where
  "gate_Release m scope leaseID = lease_Release m scope leaseID"

subsection \<open>Inflight counter\<close>

definition inflight_Incr :: "(string \<Rightarrow> int) \<Rightarrow> string \<Rightarrow> (string \<Rightarrow> int) \<times> int" where
  "inflight_Incr v scope = (v(scope := v scope + 1), v scope + 1)"

definition inflight_Decr :: "(string \<Rightarrow> int) \<Rightarrow> string \<Rightarrow> string \<Rightarrow> int" where
  "inflight_Decr v scope = (if 0 < v scope then v(scope := v scope - 1) else v)"

definition inflight_Get :: "(string \<Rightarrow> int) \<Rightarrow> string \<Rightarrow> int" where
  "inflight_Get v scope = v scope"

subsection \<open>Budget slices\<close>

datatype budget_consistency = BudgetRegional | BudgetGlobalSoft | BudgetGlobalHard | BudgetUnknown

datatype slice_error = ErrSliceOvershoot | SliceNotFound

record sliceCounter =
  sc_strict :: f64
  sc_used :: f64

record slice_authority =
  sa_window :: string
  sa_regional :: bool
  sa_slices :: "string \<rightharpoonup> sliceCounter"

record slice_state =
  ss_Region :: string
  ss_Used :: f64
  ss_Strict :: f64
  ss_Overshot :: bool

record reconcile_event =
  re_WindowKey :: string
  re_Region :: string
  re_Adjusted :: f64

definition NewSliceAuthority :: "string \<Rightarrow> bool \<Rightarrow> slice_authority" where
  "NewSliceAuthority window regional = \<lparr>sa_window = window, sa_regional = regional, sa_slices = Map.empty\<rparr>"

definition ForMode :: "string \<Rightarrow> budget_consistency \<Rightarrow> slice_authority" where
  "ForMode window mode = NewSliceAuthority window (mode \<noteq> BudgetGlobalSoft)"

definition slice_Admit ::
  "slice_authority \<Rightarrow> string \<Rightarrow> f64 \<Rightarrow> f64 \<Rightarrow> f64 \<Rightarrow> slice_authority \<times> slice_error option" where
  "slice_Admit a region amount strict overshoot =
     (let slice = (case sa_slices a region of None \<Rightarrow> \<lparr>sc_strict = strict, sc_used = 0\<rparr> | Some s \<Rightarrow> s);
          put = (\<lambda>s. a\<lparr>sa_slices := (sa_slices a)(region \<mapsto> s)\<rparr>);
          bound = (if sa_regional a then sc_strict slice else fadd (sc_strict slice) overshoot)
      in if bound < fadd (sc_used slice) amount then (put slice, Some ErrSliceOvershoot)
         else (put (slice\<lparr>sc_used := fadd (sc_used slice) amount\<rparr>), None))"

definition slice_Reconcile ::
  "slice_authority \<Rightarrow> string \<Rightarrow> f64 \<Rightarrow> slice_authority \<times> (slice_error + reconcile_event)" where
  "slice_Reconcile a region trueUsed =
     (case sa_slices a region of
        None \<Rightarrow> (a, Inl SliceNotFound)
      | Some s \<Rightarrow> (a\<lparr>sa_slices := (sa_slices a)(region \<mapsto> s\<lparr>sc_used := trueUsed\<rparr>)\<rparr>,
                  Inr \<lparr>re_WindowKey = sa_window a, re_Region = region, re_Adjusted = trueUsed\<rparr>))"

definition slice_State :: "slice_authority \<Rightarrow> string \<Rightarrow> slice_state option" where
  "slice_State a region =
     (case sa_slices a region of None \<Rightarrow> None
      | Some s \<Rightarrow> Some \<lparr>ss_Region = region, ss_Used = sc_used s, ss_Strict = sc_strict s,
                      ss_Overshot = sc_strict s < sc_used s\<rparr>)"

subsection \<open>Properties of the ledger\<close>


definition ledger_example :: "ledger_call list" where
  "ledger_example =
     (let req = (\<lambda>rid. \<lparr>rq_TenantID = ''t'', rq_ReservationID = rid, rq_Estimate = 60,
                  rq_Windows = [\<lparr>bw_Key = ''day'', bw_Limit = 100, bw_TTL = 0\<rparr>,
                                \<lparr>bw_Key = ''month'', bw_Limit = 100, bw_TTL = 0\<rparr>]\<rparr>)
      in [LReserve (req ''a''), LReserve (req ''b''), LReconcile ''t'' ''a'' 40, LReserve (req ''c''),
          LRelease ''t'' ''c''])"

lemma example_amounts: "is_f64 60" "fl 100 = 100" "fl 120 = 120" "fl (- 20) = - 20" "fl 40 = 40" "fl 60 = 60"
  using fl_of_int [of 60] fl_of_int [of 100] fl_of_int [of 120] fl_of_int [of "- 20"] fl_of_int [of 40]
  by (simp_all add: is_f64_def)

lemmas ledger_eval = ledger_step_def call_within_def mem_Reserve_def mem_Reconcile_def mem_Release_def
  mem_reservation_def mem_settle_def mem_held_def NewMemoryBudgetLedger_def add_windows_def fadd_def
  fsub_def Let_def


text \<open>C22: A reservation is settled exactly once. After a reconciliation or a release of a
  reservation, and until the same identifier is reserved again, every further reconciliation
  or release of it is rejected and leaves the ledger as it is, whatever else happens in
  between.\<close>

theorem ledger_settled_once:
  assumes "\<forall>c \<in> set cs. \<not> reserves t rid c"
    and "s' \<in> {foldl (ledger_step mem_Reserve mem_Reconcile mem_Release mem_Sweep) (fst (mem_Reconcile s t rid a)) cs,
               foldl (ledger_step mem_Reserve mem_Reconcile mem_Release mem_Sweep) (fst (mem_Release s t rid)) cs}"
  shows "fst (mem_Reconcile s' t rid b) = s' \<and> fst (mem_Release s' t rid) = s'
         \<and> snd (mem_Reconcile s' t rid b) \<noteq> Inr () \<and> snd (mem_Release s' t rid) \<noteq> Inr ()"
  using assms by (rule mem.settled_once)

definition settled_example :: memory_ledger where
  "settled_example = fst (mem_Reconcile
     (foldl (ledger_step mem_Reserve mem_Reconcile mem_Release mem_Sweep) NewMemoryBudgetLedger
        (take 1 ledger_example)) ''t'' ''a'' 40)"

theorem ledger_settled_once_witness:
  "fst (mem_Reconcile settled_example ''t'' ''a'' 70) = settled_example
   \<and> snd (mem_Reconcile settled_example ''t'' ''a'' 70) = Inl ErrAlreadyFinalized"
proof
  show "fst (mem_Reconcile settled_example ''t'' ''a'' 70) = settled_example"
    using ledger_settled_once [of "[]" "''t''" "''a''" settled_example
        "foldl (ledger_step mem_Reserve mem_Reconcile mem_Release mem_Sweep) NewMemoryBudgetLedger (take 1 ledger_example)" 40 70]
    by (simp add: settled_example_def)
  show "snd (mem_Reconcile settled_example ''t'' ''a'' 70) = Inl ErrAlreadyFinalized"
    by (simp add: settled_example_def ledger_example_def example_amounts ledger_eval)
qed

text \<open>
  A request that names a window twice is checked twice against the old value and added twice:
  the limit of the window is exceeded.
\<close>

lemma duplicate_window_exceeds:
  "let req = \<lparr>rq_TenantID = ''t'', rq_ReservationID = ''a'', rq_Estimate = 60,
         rq_Windows = replicate 2 \<lparr>bw_Key = ''day'', bw_Limit = 100, bw_TTL = 0\<rparr>\<rparr>;
       r = mem_Reserve NewMemoryBudgetLedger req
   in granted (snd r) \<and> ml_windows (fst r) ''t'' ''day'' = 120"
  by (simp add: numeral_2_eq_2 example_amounts granted_def ledger_eval)

subsection \<open>Leases hold until they expire\<close>

datatype lease_call =
    LeAcquire string int duration gotime "coord_error + string"
  | LeRenew string string duration gotime
  | LeRelease string string
  | LeCleanup string gotime

definition lease_step :: "lease_state \<Rightarrow> lease_call \<Rightarrow> lease_state" where
  "lease_step m c =
     (case c of LeAcquire scope capacity ttl now fresh \<Rightarrow> fst (lease_Acquire m scope capacity ttl now fresh)
      | LeRenew scope leaseID ttl now \<Rightarrow> fst (lease_Renew m scope leaseID ttl now)
      | LeRelease scope leaseID \<Rightarrow> lease_Release m scope leaseID
      | LeCleanup scope now \<Rightarrow> lease_Cleanup m scope now)"

text \<open>
  The calls that leave a lease of \<open>scope\<close> alone until \<open>expiry\<close>: all of its capacity, made
  before it expires, with other fresh identifiers, and not a release of it.
\<close>

definition lease_respects :: "string \<Rightarrow> string \<Rightarrow> gotime \<Rightarrow> int \<Rightarrow> lease_call \<Rightarrow> bool" where
  "lease_respects scope leaseID expiry capacity c \<longleftrightarrow>
     (case c of
        LeAcquire s cap ttl now fresh \<Rightarrow> s = scope \<longrightarrow> cap = capacity \<and> now < expiry \<and> fresh \<noteq> Inr leaseID
      | LeRenew s l ttl now \<Rightarrow> s = scope \<longrightarrow> now < expiry \<and> (l = leaseID \<longrightarrow> expiry \<le> now + ttl)
      | LeRelease s l \<Rightarrow> s = scope \<longrightarrow> l \<noteq> leaseID
      | LeCleanup s now \<Rightarrow> s = scope \<longrightarrow> now < expiry)"

definition lease_live :: "(string \<times> gotime) list \<Rightarrow> string \<Rightarrow> gotime \<Rightarrow> bool" where
  "lease_live leases leaseID expiry \<longleftrightarrow> (\<exists>e. map_of leases leaseID = Some e \<and> expiry \<le> e)"

definition leases_ok :: "lease_state \<Rightarrow> string \<Rightarrow> int \<Rightarrow> bool" where
  "leases_ok m scope capacity \<longleftrightarrow> keys_distinct (m scope) \<and> int (length (m scope)) \<le> max 0 capacity"

lemma prune_live:
  "keys_distinct leases \<Longrightarrow> lease_live leases l expiry \<Longrightarrow> now < expiry \<Longrightarrow> lease_live (prune leases now) l expiry"
  by (auto simp: lease_live_def prune_def map_of_filter_distinct)

lemma prune_length: "length (prune leases now) \<le> length leases"
  by (simp add: prune_def)

lemma update_live:
  "lease_live leases l expiry \<Longrightarrow> k \<noteq> l \<or> expiry \<le> e \<Longrightarrow> lease_live (AList.update k e leases) l expiry"
  by (auto simp: lease_live_def update_conv')

lemma lease_step_ok:
  assumes ok: "leases_ok m scope capacity" and live: "lease_live (m scope) l expiry"
    and c: "lease_respects scope l expiry capacity c"
  shows "leases_ok (lease_step m c) scope capacity \<and> lease_live (lease_step m c scope) l expiry"
proof -
  have d: "keys_distinct (m scope)" and n: "int (length (m scope)) \<le> max 0 capacity"
    using ok by (auto simp: leases_ok_def)
  have pd: "keys_distinct (prune (m scope) now)" for now
    using d by (simp add: prune_def)
  have pn: "int (length (prune (m scope) now)) \<le> max 0 capacity" for now
    using n prune_length [of "m scope" now] by linarith
  note pl = prune_live [OF d live]
  show ?thesis
  proof (cases c)
    case (LeAcquire s cap ttl now fresh)
    have len: "int (length (AList.update k e xs)) \<le> capacity" if "\<not> capacity \<le> int (length xs)"
      for k :: string and e :: gotime and xs
      using that by (simp add: length_update)
    show ?thesis
      using c pd pn [of now] pl [of now] d n live
      by (cases "s = scope")
         (auto simp: LeAcquire lease_step_def lease_respects_def lease_Acquire_def Let_def leases_ok_def
            intro!: update_live len split: sum.splits)
  next
    case (LeRenew s k ttl now)
    have "length (AList.update k e xs) = length xs" if "map_of xs k = Some v" for e v and xs :: "(string \<times> gotime) list"
      using that by (force simp: length_update dest: map_of_SomeD)
    then show ?thesis
      using c pd pn [of now] pl [of now] d n live
      by (cases "s = scope")
         (auto simp: LeRenew lease_step_def lease_respects_def lease_Renew_def Let_def leases_ok_def
            intro!: update_live split: option.splits)
  next
    case (LeRelease s k)
    have "int (length (AList.delete k (m scope))) \<le> max 0 capacity"
      using n length_delete_le [of k "m scope"] by linarith
    with c d n live show ?thesis
      by (cases "s = scope")
         (auto simp: LeRelease lease_step_def lease_respects_def lease_Release_def leases_ok_def lease_live_def
            AList.delete_conv')
  next
    case (LeCleanup s now)
    with c pd pn [of now] pl [of now] d n live show ?thesis
      by (cases "s = scope")
         (auto simp: lease_step_def lease_respects_def lease_Cleanup_def leases_ok_def)
  qed
qed

lemma lease_run_ok:
  "leases_ok m scope capacity \<Longrightarrow> lease_live (m scope) l expiry \<Longrightarrow>
   \<forall>c \<in> set cs. lease_respects scope l expiry capacity c \<Longrightarrow>
   leases_ok (foldl lease_step m cs) scope capacity \<and> lease_live (foldl lease_step m cs scope) l expiry"
  by (induction cs arbitrary: m) (auto dest: lease_step_ok)

text \<open>C6: Lease exclusion. A granted lease keeps its slot until it expires or is released: over
  any interleaving of acquisitions, renewals, releases and clean-ups of all scopes before the
  expiry, the lease stays registered and the scope never holds more leases than its capacity.\<close>

theorem lease_exclusion:
  assumes "leases_ok m scope capacity"
    and "snd (lease_Acquire m scope capacity ttl now (Inr l)) = Inr (True, l)"
    and "\<forall>c \<in> set cs. lease_respects scope l (now + ttl) capacity c"
  defines "m' \<equiv> foldl lease_step (fst (lease_Acquire m scope capacity ttl now (Inr l))) cs"
  shows "lease_live (m' scope) l (now + ttl) \<and> int (length (m' scope)) \<le> capacity"
proof -
  let ?m = "fst (lease_Acquire m scope capacity ttl now (Inr l))"
  have room: "\<not> capacity \<le> int (length (prune (m scope) now))"
    using assms(2) by (auto simp: lease_Acquire_def Let_def split: if_splits)
  then have eq: "?m = m(scope := AList.update l (now + ttl) (prune (m scope) now))"
    by (simp add: lease_Acquire_def Let_def)
  have "leases_ok ?m scope capacity" and "lease_live (?m scope) l (now + ttl)"
    using assms(1) room unfolding eq
    by (auto simp: leases_ok_def lease_live_def prune_def length_update update_conv')
  from lease_run_ok [OF this assms(3)] room show ?thesis
    by (auto simp: m'_def leases_ok_def)
qed

definition lease_example :: "lease_call list" where
  "lease_example = [LeAcquire ''s'' 1 minute second (Inr ''b''), LeCleanup ''s'' (30 * second)]"

theorem lease_exclusion_witness:
  "lease_live (foldl lease_step (fst (lease_Acquire NewMemoryLeaseCoordinator ''s'' 1 minute 0 (Inr ''a'')))
     lease_example ''s'') ''a'' minute"
proof -
  have "lease_live (foldl lease_step (fst (lease_Acquire NewMemoryLeaseCoordinator ''s'' 1 minute 0 (Inr ''a'')))
          lease_example ''s'') ''a'' (0 + minute)
        \<and> int (length (foldl lease_step (fst (lease_Acquire NewMemoryLeaseCoordinator ''s'' 1 minute 0 (Inr ''a'')))
          lease_example ''s'')) \<le> 1"
    by (rule lease_exclusion)
       (simp_all add: leases_ok_def NewMemoryLeaseCoordinator_def lease_Acquire_def prune_def
          lease_example_def lease_respects_def)
  then show ?thesis by simp
qed

subsection \<open>Slices and counters\<close>

text \<open>Admissions alone never take a slice beyond its bound.\<close>

definition slice_bound :: "slice_authority \<Rightarrow> sliceCounter \<Rightarrow> f64 \<Rightarrow> f64" where
  "slice_bound a s overshoot = (if sa_regional a then sc_strict s else fadd (sc_strict s) overshoot)"

lemma slice_Admit_bound:
  assumes "slice_Admit a region amount strict overshoot = (a', None)"
    and "sa_slices a' region = Some s"
  shows "sc_used s \<le> slice_bound a' s overshoot"
  using assms by (auto simp: slice_Admit_def slice_bound_def Let_def split: option.splits if_splits)

lemma slice_Admit_refused:
  assumes "slice_Admit a region amount strict overshoot = (a', Some e)" and "sa_slices a r = Some s"
  shows "sa_slices a' r = Some s"
  using assms by (auto simp: slice_Admit_def Let_def split: option.splits if_splits)

lemma inflight_nonneg:
  "\<forall>s. 0 \<le> v s \<Longrightarrow> 0 \<le> inflight_Decr v scope s \<and> 0 \<le> fst (inflight_Incr v scope) s"
  by (simp add: inflight_Decr_def inflight_Incr_def)

end
