(* ===== verification/Budget.thy ===== *)
theory Budget
  imports Coordination
begin

text \<open>
  Token budgets: the per-policy window ledger of \<^verbatim>\<open>internal/finops/budget/manager.go\<close>, the
  fail-mode wrapper around a distributed ledger (\<^verbatim>\<open>failmode.go\<close>), the user and unit windows
  (\<^verbatim>\<open>orgbudget.go\<close>), and the enforcer that layers a slice and a distributed ledger over the
  manager (\<^verbatim>\<open>internal/app/budgetenforcer.go\<close>). Token counts are 64-bit integers and the sums
  wrap as in the code.
\<close>

subsection \<open>Policies and ledgers\<close>

record budget_policy =
  bp_ID :: string
  bp_TenantID :: string
  bp_ProjectID :: string
  bp_KeyID :: string
  bp_Mode :: string
  bp_Consistency :: string
  bp_TokenLimit :: int
  bp_WindowStart :: gotime
  bp_WindowEnd :: gotime

record reservation =
  rv_ID :: string
  rv_PolicyID :: string
  rv_EstimatedTokens :: int
  rv_Warning :: bool

datatype budget_error =
    ErrExceeded | InvalidReservation | NegativeActual | ReservationNotFound
  | LedgerError coord_error | SliceError slice_error

record reservationState =
  rs_estimate :: int
  rs_final :: bool

record window =
  wn_start :: gotime
  wn_reserved :: int
  wn_consumed :: int
  wn_reservations :: "(string \<times> reservationState) list"

record retiredWindow =
  rw_state :: window
  rw_retiredAt :: gotime

abbreviation budgetSweepInterval :: duration where "budgetSweepInterval \<equiv> 60 * second"
abbreviation retireGrace :: duration where "retireGrace \<equiv> minute"

record manager =
  mg_windows :: "string \<rightharpoonup> window"
  mg_retired :: "string \<rightharpoonup> retiredWindow"
  mg_lastSweep :: gotime

definition manager_New :: "gotime \<Rightarrow> manager" where
  "manager_New now = \<lparr>mg_windows = Map.empty, mg_retired = Map.empty, mg_lastSweep = now\<rparr>"

definition drop_final :: "window \<Rightarrow> window" where
  "drop_final w = w\<lparr>wn_reservations := filter (\<lambda>(_, r). \<not> rs_final r) (wn_reservations w)\<rparr>"

definition budget_sweepLocked :: "manager \<Rightarrow> gotime \<Rightarrow> manager" where
  "budget_sweepLocked m now =
     (if t_sub now (mg_lastSweep m) < budgetSweepInterval then m
      else \<lparr>mg_windows = (\<lambda>p. map_option drop_final (mg_windows m p)),
            mg_retired = (\<lambda>p. case mg_retired m p of None \<Rightarrow> None
               | Some r \<Rightarrow> if retireGrace < t_sub now (rw_retiredAt r) then None else Some r),
            mg_lastSweep = now\<rparr>)"

definition new_window :: "gotime \<Rightarrow> window" where
  "new_window start = \<lparr>wn_start = start, wn_reserved = 0, wn_consumed = 0, wn_reservations = []\<rparr>"

definition roll_window :: "manager \<Rightarrow> budget_policy \<Rightarrow> gotime \<Rightarrow> manager \<times> window" where
  "roll_window m policy now =
     (case mg_windows m (bp_ID policy) of
        None \<Rightarrow> (m\<lparr>mg_windows := (mg_windows m)(bp_ID policy \<mapsto> new_window (bp_WindowStart policy))\<rparr>,
                 new_window (bp_WindowStart policy))
      | Some state \<Rightarrow>
          if wn_start state = bp_WindowStart policy then (m, state)
          else (m\<lparr>mg_retired := (mg_retired m)(bp_ID policy \<mapsto> \<lparr>rw_state = state, rw_retiredAt = now\<rparr>),
                  mg_windows := (mg_windows m)(bp_ID policy \<mapsto> new_window (bp_WindowStart policy))\<rparr>,
                new_window (bp_WindowStart policy)))"

definition valid_reservation :: "budget_policy \<Rightarrow> string \<Rightarrow> int \<Rightarrow> gotime \<Rightarrow> bool" where
  "valid_reservation policy rid estimate now \<longleftrightarrow>
     \<not> (rid = '''' \<or> estimate < 0 \<or> bp_TokenLimit policy < 0
        \<or> (bp_Mode policy \<noteq> ''hard'' \<and> bp_Mode policy \<noteq> ''soft'')
        \<or> \<not> now < bp_WindowEnd policy \<or> now < bp_WindowStart policy)"

definition manager_Reserve ::
  "manager \<Rightarrow> budget_policy \<Rightarrow> string \<Rightarrow> int \<Rightarrow> gotime \<Rightarrow> manager \<times> (budget_error + reservation)" where
  "manager_Reserve m policy rid estimate now =
     (if \<not> valid_reservation policy rid estimate now then (m, Inl InvalidReservation)
      else
        let (m, state) = roll_window (budget_sweepLocked m now) policy now;
            total = i64 (wn_reserved state + wn_consumed state)
        in case map_of (wn_reservations state) rid of
             Some existing \<Rightarrow>
               (m, Inr \<lparr>rv_ID = rid, rv_PolicyID = bp_ID policy, rv_EstimatedTokens = rs_estimate existing,
                        rv_Warning = (bp_Mode policy = ''soft'' \<and> bp_TokenLimit policy < total)\<rparr>)
           | None \<Rightarrow>
               let projected = i64 (total + estimate)
               in if bp_Mode policy = ''hard'' \<and> bp_TokenLimit policy < projected then (m, Inl ErrExceeded)
                  else
                    (m\<lparr>mg_windows := (mg_windows m)(bp_ID policy \<mapsto>
                         state\<lparr>wn_reserved := i64 (wn_reserved state + estimate),
                           wn_reservations := AList.update rid \<lparr>rs_estimate = estimate, rs_final = False\<rparr>
                                                (wn_reservations state)\<rparr>)\<rparr>,
                     Inr \<lparr>rv_ID = rid, rv_PolicyID = bp_ID policy, rv_EstimatedTokens = estimate,
                          rv_Warning = (bp_Mode policy = ''soft'' \<and> bp_TokenLimit policy < projected)\<rparr>))"

text \<open>
  \<^verbatim>\<open>ledgerFor\<close> returns a pointer to the ledger that holds the reservation: the current window
  (\<^const>\<open>True\<close>) or the retired one; \<open>put_ledger\<close> writes through it.
\<close>

definition ledgerFor :: "manager \<Rightarrow> string \<Rightarrow> string \<Rightarrow> (bool \<times> window) option" where
  "ledgerFor m policyID reservationID =
     (case mg_windows m policyID of
        Some state \<Rightarrow>
          if map_of (wn_reservations state) reservationID \<noteq> None then Some (True, state)
          else (case mg_retired m policyID of None \<Rightarrow> None
                | Some r \<Rightarrow> if map_of (wn_reservations (rw_state r)) reservationID \<noteq> None
                            then Some (False, rw_state r) else None)
      | None \<Rightarrow>
          (case mg_retired m policyID of None \<Rightarrow> None
           | Some r \<Rightarrow> if map_of (wn_reservations (rw_state r)) reservationID \<noteq> None
                       then Some (False, rw_state r) else None))"

definition put_ledger :: "manager \<Rightarrow> string \<Rightarrow> bool \<Rightarrow> window \<Rightarrow> manager" where
  "put_ledger m policyID current w =
     (if current then m\<lparr>mg_windows := (mg_windows m)(policyID \<mapsto> w)\<rparr>
      else m\<lparr>mg_retired := (mg_retired m)(policyID :=
               map_option (rw_state_update (\<lambda>_. w)) (mg_retired m policyID))\<rparr>)"

definition settle :: "window \<Rightarrow> string \<Rightarrow> reservationState \<Rightarrow> int \<Rightarrow> window" where
  "settle w rid r actual =
     w\<lparr>wn_reserved := i64 (wn_reserved w - rs_estimate r), wn_consumed := i64 (wn_consumed w + actual),
       wn_reservations := AList.update rid (r\<lparr>rs_final := True\<rparr>) (wn_reservations w)\<rparr>"

definition manager_Reconcile ::
  "manager \<Rightarrow> string \<Rightarrow> string \<Rightarrow> int \<Rightarrow> manager \<times> budget_error option" where
  "manager_Reconcile m policyID reservationID actual =
     (if actual < 0 then (m, Some NegativeActual)
      else case ledgerFor m policyID reservationID of
             None \<Rightarrow> (m, Some ReservationNotFound)
           | Some (current, state) \<Rightarrow>
               let r = the (map_of (wn_reservations state) reservationID)
               in if rs_final r then (m, None)
                  else (put_ledger m policyID current (settle state reservationID r actual), None))"

definition manager_Release :: "manager \<Rightarrow> string \<Rightarrow> string \<Rightarrow> manager" where
  "manager_Release m policyID reservationID =
     (case ledgerFor m policyID reservationID of
        None \<Rightarrow> m
      | Some (current, state) \<Rightarrow>
          let r = the (map_of (wn_reservations state) reservationID)
          in if rs_final r then m
             else put_ledger m policyID current
                    (state\<lparr>wn_reserved := i64 (wn_reserved state - rs_estimate r),
                       wn_reservations := AList.update reservationID (r\<lparr>rs_final := True\<rparr>)
                                            (wn_reservations state)\<rparr>))"

definition manager_Sweep :: "manager \<Rightarrow> gotime \<Rightarrow> manager" where
  "manager_Sweep m now = budget_sweepLocked (m\<lparr>mg_lastSweep := zero_time\<rparr>) now"

definition manager_Usage :: "manager \<Rightarrow> string \<Rightarrow> int \<times> int" where
  "manager_Usage m policyID =
     (case mg_windows m policyID of None \<Rightarrow> (0, 0) | Some w \<Rightarrow> (wn_reserved w, wn_consumed w))"

subsection \<open>Ledger invariant\<close>

definition open_total :: "(string \<times> reservationState) list \<Rightarrow> int" where
  "open_total xs = sum_list (map (\<lambda>(_, r). if rs_final r then 0 else rs_estimate r) xs)"

text \<open>
  A ledger is well formed up to \<open>n\<close> tokens: the reserved counter is the sum of the open
  reservations, and no counter has left the range in which sums do not wrap.
\<close>

definition window_ok :: "int \<Rightarrow> window \<Rightarrow> bool" where
  "window_ok n w \<longleftrightarrow> keys_distinct (wn_reservations w)
     \<and> list_all (\<lambda>(_, r). 0 \<le> rs_estimate r) (wn_reservations w)
     \<and> wn_reserved w = open_total (wn_reservations w) \<and> wn_reserved w \<le> n
     \<and> 0 \<le> wn_consumed w \<and> wn_consumed w \<le> n"

definition manager_ok :: "int \<Rightarrow> manager \<Rightarrow> bool" where
  "manager_ok n m \<longleftrightarrow> (\<forall>p w. mg_windows m p = Some w \<longrightarrow> window_ok n w)
     \<and> (\<forall>p r. mg_retired m p = Some r \<longrightarrow> window_ok n (rw_state r))"

lemma open_total_Cons [simp]:
  "open_total ((k, r) # xs) = (if rs_final r then 0 else rs_estimate r) + open_total xs"
  by (simp add: open_total_def)

lemma open_total_Nil [simp]: "open_total [] = 0"
  by (simp add: open_total_def)

lemma open_total_drop: "open_total (filter (\<lambda>(_, r). \<not> rs_final r) xs) = open_total xs"
  by (induction xs) auto

lemma open_total_nonneg: "list_all (\<lambda>(_, r). 0 \<le> rs_estimate r) xs \<Longrightarrow> 0 \<le> open_total xs"
  by (induction xs) auto

lemma open_total_new: "map_of xs k = None \<Longrightarrow>
    open_total (AList.update k r xs) = open_total xs + (if rs_final r then 0 else rs_estimate r)"
  by (induction xs) auto

lemma open_total_update: "keys_distinct xs \<Longrightarrow> map_of xs k = Some r \<Longrightarrow>
    open_total (AList.update k r' xs) = open_total xs - (if rs_final r then 0 else rs_estimate r)
      + (if rs_final r' then 0 else rs_estimate r')"
  by (induction xs) (auto simp: keys_distinct_def)

lemma list_all_update: "list_all P xs \<Longrightarrow> P (k, v) \<Longrightarrow> list_all P (AList.update k v xs)"
  by (induction xs) auto

lemma open_total_member:
  assumes "list_all (\<lambda>(_, r). 0 \<le> rs_estimate r) xs" and "map_of xs k = Some r" and "\<not> rs_final r"
  shows "0 \<le> rs_estimate r" and "rs_estimate r \<le> open_total xs"
proof -
  show "0 \<le> rs_estimate r"
    using assms(1,2) by (auto simp: list_all_iff dest: map_of_SomeD)
  show "rs_estimate r \<le> open_total xs" using assms
  proof (induction xs)
    case (Cons x xs)
    then show ?case using open_total_nonneg [of xs] by (cases x) (auto split: if_splits)
  qed simp
qed

lemma window_ok_mono: "window_ok n w \<Longrightarrow> n \<le> n' \<Longrightarrow> window_ok n' w"
  by (auto simp: window_ok_def)

lemma manager_ok_mono: "manager_ok n m \<Longrightarrow> n \<le> n' \<Longrightarrow> manager_ok n' m"
  unfolding manager_ok_def by (metis window_ok_mono)

lemma window_ok_new: "0 \<le> n \<Longrightarrow> window_ok n (new_window s)"
  by (simp add: window_ok_def new_window_def)

lemma window_ok_drop: "window_ok n w \<Longrightarrow> window_ok n (drop_final w)"
  by (auto simp: window_ok_def drop_final_def open_total_drop list_all_iff)

lemma window_ok_reserved: "window_ok n w \<Longrightarrow> 0 \<le> wn_reserved w"
  by (simp add: window_ok_def open_total_nonneg)

lemma manager_ok_sweep: "manager_ok n m \<Longrightarrow> manager_ok n (budget_sweepLocked m now)"
  by (auto simp: manager_ok_def budget_sweepLocked_def window_ok_drop split: option.splits if_splits)

lemma manager_ok_roll:
  assumes "manager_ok n m" and "0 \<le> n"
  shows "manager_ok n (fst (roll_window m policy now))" and "window_ok n (snd (roll_window m policy now))"
    and "mg_windows (fst (roll_window m policy now)) (bp_ID policy) = Some (snd (roll_window m policy now))"
  using assms window_ok_new [of n "bp_WindowStart policy"]
  by (auto simp: manager_ok_def roll_window_def split: option.splits)

text \<open>Adding a reservation and settling one keep a ledger well formed.\<close>

lemma window_ok_add:
  assumes "window_ok n w" and "map_of (wn_reservations w) rid = None" and "0 \<le> e" "e \<le> 2 ^ 31" "n + 2 ^ 31 < 2 ^ 62"
  shows "window_ok (n + 2 ^ 31) (w\<lparr>wn_reserved := i64 (wn_reserved w + e),
           wn_reservations := AList.update rid \<lparr>rs_estimate = e, rs_final = False\<rparr> (wn_reservations w)\<rparr>)"
proof -
  have "in_i64 (wn_reserved w + e)"
    using assms window_ok_reserved [OF assms(1)] by (auto simp: window_ok_def in_i64_def)
  then show ?thesis using assms
    by (auto simp: window_ok_def open_total_new intro!: list_all_update)
qed

lemma window_ok_settle:
  assumes "window_ok n w" and "map_of (wn_reservations w) rid = Some r" and "\<not> rs_final r"
    and "0 \<le> a" "a \<le> 2 ^ 31" "n + 2 ^ 31 < 2 ^ 62"
  shows "window_ok (n + 2 ^ 31) (settle w rid r a)"
    and "wn_reserved (settle w rid r a) = wn_reserved w - rs_estimate r"
    and "wn_consumed (settle w rid r a) = wn_consumed w + a"
proof -
  note e = open_total_member [of "wn_reservations w" rid r]
  have r: "0 \<le> rs_estimate r" "rs_estimate r \<le> wn_reserved w"
    using e assms by (auto simp: window_ok_def)
  have "in_i64 (wn_reserved w - rs_estimate r)" and "in_i64 (wn_consumed w + a)"
    using r assms by (auto simp: window_ok_def in_i64_def)
  then show "wn_reserved (settle w rid r a) = wn_reserved w - rs_estimate r"
    and "wn_consumed (settle w rid r a) = wn_consumed w + a"
    and "window_ok (n + 2 ^ 31) (settle w rid r a)"
    using assms r by (auto simp: settle_def window_ok_def open_total_update intro!: list_all_update)
qed

lemma ledgerFor_cases:
  assumes "ledgerFor m p rid = Some (current, w)"
  obtains r where "map_of (wn_reservations w) rid = Some r" and "current" and "mg_windows m p = Some w"
  | r rw where "map_of (wn_reservations w) rid = Some r" and "\<not> current"
      and "mg_retired m p = Some rw" and "rw_state rw = w"
      and "\<And>c. mg_windows m p = Some c \<Longrightarrow> map_of (wn_reservations c) rid = None"
  using assms by (auto simp: ledgerFor_def split: option.splits if_splits)

lemma ledgerFor_ok: "manager_ok n m \<Longrightarrow> ledgerFor m p rid = Some (current, w) \<Longrightarrow> window_ok n w"
  by (erule ledgerFor_cases) (auto simp: manager_ok_def)

lemma manager_ok_put:
  "manager_ok n m \<Longrightarrow> window_ok n w \<Longrightarrow> manager_ok n (put_ledger m p current w)"
  by (auto simp: manager_ok_def put_ledger_def)

text \<open>A release is a reconciliation to zero.\<close>

lemma manager_Release_Reconcile:
  assumes "manager_ok n m" and "n < 2 ^ 62"
  shows "manager_Release m p rid = fst (manager_Reconcile m p rid 0)"
proof (cases "ledgerFor m p rid")
  case (Some cw)
  obtain current w where cw: "cw = (current, w)" by (cases cw)
  have "window_ok n w" using assms(1) Some cw by (auto intro: ledgerFor_ok)
  then have "i64 (wn_consumed w) = wn_consumed w"
    using assms(2) by (intro i64_id) (auto simp: window_ok_def in_i64_def)
  then have "settle w rid r 0 = w\<lparr>wn_reserved := i64 (wn_reserved w - rs_estimate r),
      wn_reservations := AList.update rid (r\<lparr>rs_final := True\<rparr>) (wn_reservations w)\<rparr>" for r
    by (simp add: settle_def)
  then show ?thesis by (simp add: manager_Release_def manager_Reconcile_def Some cw Let_def)
qed (simp add: manager_Release_def manager_Reconcile_def)

datatype budget_call =
    BReserve budget_policy string int gotime
  | BReconcile string string int
  | BRelease string string
  | BSweep gotime

definition budget_step :: "manager \<Rightarrow> budget_call \<Rightarrow> manager" where
  "budget_step m c =
     (case c of BReserve policy rid estimate now \<Rightarrow> fst (manager_Reserve m policy rid estimate now)
      | BReconcile p rid actual \<Rightarrow> fst (manager_Reconcile m p rid actual)
      | BRelease p rid \<Rightarrow> manager_Release m p rid
      | BSweep now \<Rightarrow> manager_Sweep m now)"

definition small_budget_call :: "budget_call \<Rightarrow> bool" where
  "small_budget_call c \<longleftrightarrow>
     (case c of BReserve policy rid estimate now \<Rightarrow> estimate \<le> 2 ^ 31
      | BReconcile p rid actual \<Rightarrow> actual \<le> 2 ^ 31 | _ \<Rightarrow> True)"

lemma manager_ok_Reserve:
  assumes "manager_ok n m" and "0 \<le> n" "n + 2 ^ 31 < 2 ^ 62" "e \<le> 2 ^ 31"
  shows "manager_ok (n + 2 ^ 31) (fst (manager_Reserve m policy rid e now))"
proof (cases "valid_reservation policy rid e now")
  case True
  then have e: "0 \<le> e" by (simp add: valid_reservation_def)
  define m1 w where "m1 = fst (roll_window (budget_sweepLocked m now) policy now)"
    and "w = snd (roll_window (budget_sweepLocked m now) policy now)"
  have split: "roll_window (budget_sweepLocked m now) policy now = (m1, w)" by (simp add: m1_def w_def)
  note sw = manager_ok_sweep [OF assms(1), of now]
  have ok: "manager_ok n m1" "window_ok n w"
    using manager_ok_roll [OF sw assms(2), of policy now] by (simp_all add: m1_def w_def)
  have ok': "manager_ok (n + 2 ^ 31) m1" using ok(1) by (rule manager_ok_mono) simp
  show ?thesis
  proof (cases "map_of (wn_reservations w) rid")
    case None
    from window_ok_add [OF ok(2) None e assms(4,3)] ok' show ?thesis
      by (simp add: manager_Reserve_def True split None Let_def manager_ok_def)
  qed (use ok' in \<open>simp add: manager_Reserve_def True split Let_def\<close>)
next
  case False
  then show ?thesis using manager_ok_mono [OF assms(1), of "n + 2 ^ 31"] by (simp add: manager_Reserve_def)
qed

lemma manager_ok_Reconcile:
  assumes "manager_ok n m" and "n + 2 ^ 31 < 2 ^ 62" "a \<le> 2 ^ 31"
  shows "manager_ok (n + 2 ^ 31) (fst (manager_Reconcile m p rid a))"
proof -
  have ok': "manager_ok (n + 2 ^ 31) m" using assms(1) by (rule manager_ok_mono) simp
  show ?thesis
  proof (cases "0 \<le> a \<and> ledgerFor m p rid \<noteq> None")
    case True
    then obtain current w where w: "ledgerFor m p rid = Some (current, w)" by auto
    then obtain r where r: "map_of (wn_reservations w) rid = Some r" by (rule ledgerFor_cases)
    have "window_ok (n + 2 ^ 31) (settle w rid r a)" if "\<not> rs_final r"
      using ledgerFor_ok [OF assms(1) w] r that True assms by (intro window_ok_settle) auto
    then show ?thesis using ok' True r w
      by (simp add: manager_Reconcile_def Let_def manager_ok_put)
  qed (use ok' in \<open>auto simp: manager_Reconcile_def split: option.splits\<close>)
qed

lemma budget_step_ok:
  assumes "manager_ok n m" and "0 \<le> n" "n + 2 ^ 31 < 2 ^ 62" and "small_budget_call c"
  shows "manager_ok (n + 2 ^ 31) (budget_step m c)"
proof (cases c)
  case (BRelease p rid)
  have "manager_Release m p rid = fst (manager_Reconcile m p rid 0)"
    using assms by (intro manager_Release_Reconcile) auto
  then show ?thesis using manager_ok_Reconcile [OF assms(1,3), of 0 p rid] by (simp add: BRelease budget_step_def)
next
  case (BSweep now)
  have "manager_ok n (m\<lparr>mg_lastSweep := zero_time\<rparr>)" using assms(1) by (simp add: manager_ok_def)
  then have "manager_ok n (manager_Sweep m now)" by (simp add: manager_Sweep_def manager_ok_sweep)
  then show ?thesis by (simp add: BSweep budget_step_def manager_ok_mono)
qed (use assms manager_ok_Reserve manager_ok_Reconcile in \<open>auto simp: budget_step_def small_budget_call_def\<close>)

lemma budget_run_ok:
  "manager_ok n m \<Longrightarrow> 0 \<le> n \<Longrightarrow> n + 2 ^ 31 * int (length cs) < 2 ^ 62 \<Longrightarrow> list_all small_budget_call cs \<Longrightarrow>
   manager_ok (n + 2 ^ 31 * int (length cs)) (foldl budget_step m cs)"
proof (induction cs arbitrary: m n)
  case (Cons c cs)
  have "manager_ok (n + 2 ^ 31) (budget_step m c)"
    using Cons.prems by (intro budget_step_ok) auto
  from Cons.IH [OF this] Cons.prems show ?case by (simp add: algebra_simps)
qed simp

subsection \<open>The hard limit\<close>

definition budget_used :: "manager \<Rightarrow> string \<Rightarrow> int" where
  "budget_used m p = fst (manager_Usage m p) + snd (manager_Usage m p)"

text \<open>
  What a call spends beyond its estimate: only a reconciliation of an open reservation of the
  current window can.
\<close>

definition overrun :: "string \<Rightarrow> manager \<Rightarrow> budget_call \<Rightarrow> int" where
  "overrun p m c =
     (case c of
        BReconcile p' rid a \<Rightarrow>
          (case ledgerFor m p' rid of
             Some (True, w) \<Rightarrow>
               let r = the (map_of (wn_reservations w) rid)
               in if p' = p \<and> \<not> rs_final r then max 0 (a - rs_estimate r) else 0
           | _ \<Rightarrow> 0)
      | _ \<Rightarrow> 0)"

fun overruns :: "string \<Rightarrow> manager \<Rightarrow> budget_call list \<Rightarrow> int" where
  "overruns p m [] = 0"
| "overruns p m (c # cs) = overrun p m c + overruns p (budget_step m c) cs"

definition hard_policy :: "string \<Rightarrow> int \<Rightarrow> budget_call \<Rightarrow> bool" where
  "hard_policy p limit c \<longleftrightarrow>
     (case c of BReserve policy rid e now \<Rightarrow>
        bp_ID policy = p \<longrightarrow> bp_Mode policy = ''hard'' \<and> bp_TokenLimit policy = limit
      | _ \<Rightarrow> True)"

lemma used_eq:
  "budget_used m p = (case mg_windows m p of None \<Rightarrow> 0 | Some w \<Rightarrow> wn_reserved w + wn_consumed w)"
  by (simp add: budget_used_def manager_Usage_def split: option.splits)

lemma used_put:
  "budget_used (m\<lparr>mg_windows := (mg_windows m)(k \<mapsto> w)\<rparr>) p =
     (if p = k then wn_reserved w + wn_consumed w else budget_used m p)"
  by (simp add: used_eq)

lemma used_sweep [simp]: "budget_used (budget_sweepLocked m now) p = budget_used m p"
  by (simp add: used_eq budget_sweepLocked_def drop_final_def split: option.splits)

lemma used_Sweep [simp]: "budget_used (manager_Sweep m now) p = budget_used m p"
  by (simp add: manager_Sweep_def) (simp add: used_eq)

lemma used_roll:
  assumes "roll_window m policy now = (m1, w)"
  shows "p \<noteq> bp_ID policy \<Longrightarrow> budget_used m1 p = budget_used m p"
    and "wn_reserved w + wn_consumed w \<in> {0, budget_used m (bp_ID policy)}"
    and "budget_used m1 (bp_ID policy) = wn_reserved w + wn_consumed w"
  using assms by (auto simp: roll_window_def used_eq new_window_def split: option.splits if_splits)

lemma used_Reserve:
  fixes policy rid now
  assumes ok: "manager_ok n m" and n: "0 \<le> n" "n + 2 ^ 31 < 2 ^ 62" and e: "e \<le> 2 ^ 31"
  defines "r \<equiv> manager_Reserve m policy rid e now"
  shows "p \<noteq> bp_ID policy \<Longrightarrow> budget_used (fst r) p = budget_used m p"
    and "p = bp_ID policy \<Longrightarrow> bp_Mode policy = ''hard'' \<Longrightarrow>
           budget_used (fst r) p \<in> {0, budget_used m p} \<or> budget_used (fst r) p \<le> bp_TokenLimit policy"
proof -
  define m1 w where "m1 = fst (roll_window (budget_sweepLocked m now) policy now)"
    and "w = snd (roll_window (budget_sweepLocked m now) policy now)"
  have split: "roll_window (budget_sweepLocked m now) policy now = (m1, w)" by (simp add: m1_def w_def)
  have w: "window_ok n w"
    using manager_ok_roll [OF manager_ok_sweep [OF ok] n(1), of now policy now] by (simp add: w_def)
  note roll = used_roll [OF split, simplified]
  show "p \<noteq> bp_ID policy \<Longrightarrow> budget_used (fst r) p = budget_used m p"
    using roll(1) by (auto simp: r_def manager_Reserve_def split Let_def used_put split: option.splits)
  assume p: "p = bp_ID policy" and hard: "bp_Mode policy = ''hard''"
  have "in_i64 (wn_reserved w + wn_consumed w)" and "in_i64 (wn_reserved w + e)"
    and "in_i64 (wn_reserved w + wn_consumed w + e)" if "0 \<le> e"
    using w window_ok_reserved [OF w] n e that by (auto simp: window_ok_def in_i64_def)
  then show "budget_used (fst r) p \<in> {0, budget_used m p} \<or> budget_used (fst r) p \<le> bp_TokenLimit policy"
    using roll(2,3) p hard
    by (cases "map_of (wn_reservations w) rid")
       (auto simp: r_def manager_Reserve_def split Let_def valid_reservation_def used_put)
qed

lemma used_Reconcile:
  assumes ok: "manager_ok n m" and n: "n + 2 ^ 31 < 2 ^ 62" and a: "a \<le> 2 ^ 31"
  shows "budget_used (fst (manager_Reconcile m p' rid a)) p
           \<le> budget_used m p + overrun p m (BReconcile p' rid a)"
proof (cases "0 \<le> a \<and> ledgerFor m p' rid \<noteq> None")
  case True
  then obtain current w where w: "ledgerFor m p' rid = Some (current, w)" by auto
  note wok = ledgerFor_ok [OF ok w]
  from w show ?thesis
  proof (cases rule: ledgerFor_cases)
    case (1 r)
    have "budget_used (put_ledger m p' True (settle w rid r a)) p \<le>
        budget_used m p + (if p' = p then max 0 (a - rs_estimate r) else 0)" if "\<not> rs_final r"
      using window_ok_settle(2,3) [OF wok 1(1) that, of a] True n a 1(3)
      by (auto simp: put_ledger_def used_put) (simp add: used_eq)
    then show ?thesis using True w 1 by (auto simp: manager_Reconcile_def overrun_def Let_def)
  next
    case (2 r rw)
    have "budget_used (put_ledger m p' False v) p = budget_used m p" for v
      by (simp add: put_ledger_def used_eq)
    then show ?thesis using True w 2 by (auto simp: manager_Reconcile_def overrun_def Let_def)
  qed
next
  case False
  have "0 \<le> overrun p m (BReconcile p' rid a)"
    by (auto simp: overrun_def Let_def split: option.splits bool.splits)
  with False show ?thesis by (auto simp: manager_Reconcile_def split: option.splits)
qed

lemma used_Release:
  assumes ok: "manager_ok n m" and n: "n + 2 ^ 31 < 2 ^ 62"
  shows "budget_used (manager_Release m p' rid) p \<le> budget_used m p"
proof -
  have "manager_Release m p' rid = fst (manager_Reconcile m p' rid 0)"
    using assms by (intro manager_Release_Reconcile) auto
  moreover have "overrun p m (BReconcile p' rid 0) = 0"
  proof (cases "ledgerFor m p' rid")
    case (Some cw)
    obtain current w where cw: "cw = (current, w)" by (cases cw)
    obtain r where r: "map_of (wn_reservations w) rid = Some r"
      using Some unfolding cw by (rule ledgerFor_cases)
    have "0 \<le> rs_estimate r" if "\<not> rs_final r"
      using ledgerFor_ok [OF ok] Some cw r that by (intro open_total_member(1)) (auto simp: window_ok_def)
    then show ?thesis using Some cw r by (auto simp: overrun_def Let_def split: bool.splits)
  qed (simp add: overrun_def)
  ultimately show ?thesis using used_Reconcile [OF ok n, of 0 p' rid p] by simp
qed

lemma budget_step_used:
  assumes "manager_ok n m" "0 \<le> n" "n + 2 ^ 31 < 2 ^ 62" "small_budget_call c" "hard_policy p limit c"
    and "budget_used m p \<le> b" "limit \<le> b" "0 \<le> b"
  shows "budget_used (budget_step m c) p \<le> b + overrun p m c"
proof (cases c)
  case (BReserve policy rid e now)
  have "overrun p m c = 0" by (simp add: BReserve overrun_def)
  then show ?thesis
    using used_Reserve [OF assms(1,2,3), of e p policy rid now] assms(4-)
    by (cases "p = bp_ID policy")
       (auto simp: BReserve budget_step_def small_budget_call_def hard_policy_def)
next
  case (BReconcile p' rid a)
  then show ?thesis
    using used_Reconcile [OF assms(1,3), of a p' rid p] assms(4-) by (simp add: budget_step_def small_budget_call_def)
next
  case (BRelease p' rid)
  then show ?thesis
    using used_Release [OF assms(1,3), of p' rid p] assms(4-) by (simp add: budget_step_def overrun_def)
next
  case (BSweep now)
  then show ?thesis using assms by (simp add: budget_step_def overrun_def)
qed

lemma overrun_nonneg: "0 \<le> overrun p m c"
  by (auto simp: overrun_def Let_def split: budget_call.splits option.splits bool.splits)

lemma budget_run_used:
  "manager_ok n m \<Longrightarrow> 0 \<le> n \<Longrightarrow> n + 2 ^ 31 * int (length cs) < 2 ^ 62 \<Longrightarrow>
   list_all small_budget_call cs \<Longrightarrow> list_all (hard_policy p limit) cs \<Longrightarrow>
   budget_used m p \<le> b \<Longrightarrow> limit \<le> b \<Longrightarrow> 0 \<le> b \<Longrightarrow>
   budget_used (foldl budget_step m cs) p \<le> b + overruns p m cs"
proof (induction cs arbitrary: m n b)
  case (Cons c cs)
  have "budget_used (foldl budget_step (budget_step m c) cs) p
      \<le> (b + overrun p m c) + overruns p (budget_step m c) cs"
  proof (rule Cons.IH)
    show "manager_ok (n + 2 ^ 31) (budget_step m c)" using Cons.prems by (intro budget_step_ok) auto
    show "budget_used (budget_step m c) p \<le> b + overrun p m c"
      using Cons.prems by (intro budget_step_used [where n = n and limit = limit]) auto
  qed (use Cons.prems overrun_nonneg [of p m c] in \<open>auto simp: algebra_simps\<close>)
  then show ?case by simp
qed simp

lemma manager_New_ok: "manager_ok 0 (manager_New now)"
  by (simp add: manager_ok_def manager_New_def)

text \<open>C23: The budget ledger is consistent. After any sequence of up to a billion reservations,
  reconciliations, releases and sweeps of up to two billion tokens each, every current and
  retired ledger holds in its reserved counter exactly the sum of its open reservations, and
  no counter is negative or has wrapped.\<close>

theorem budget_ledger_invariant:
  assumes "list_all small_budget_call cs" and "length cs < 2 ^ 30"
  shows "manager_ok (2 ^ 31 * int (length cs)) (foldl budget_step (manager_New now) cs)"
proof -
  have "int (length cs) < 2 ^ 30" using assms(2) by simp
  then show ?thesis using budget_run_ok [OF manager_New_ok, of cs now] assms(1) by simp
qed

definition day_policy :: budget_policy where
  "day_policy = \<lparr>bp_ID = ''p'', bp_TenantID = ''t'', bp_ProjectID = '''', bp_KeyID = '''', bp_Mode = ''hard'',
     bp_Consistency = '''', bp_TokenLimit = 100, bp_WindowStart = 0, bp_WindowEnd = 24 * hour\<rparr>"

definition budget_example :: "budget_call list" where
  "budget_example = [BReserve day_policy ''a'' 60 second, BReserve day_policy ''b'' 60 second,
     BReconcile ''p'' ''a'' 70, BReserve day_policy ''c'' 30 second, BSweep (90 * second), BRelease ''p'' ''c'']"

theorem budget_ledger_invariant_witness:
  "manager_ok (2 ^ 31 * int (length budget_example)) (foldl budget_step (manager_New 0) budget_example)"
  by (rule budget_ledger_invariant) (simp_all add: budget_example_def small_budget_call_def)

text \<open>C3: A hard budget holds. Over any sequence of calls for any policies, in which the reservations
  of one policy are hard with a fixed limit, what the current window of that policy has
  reserved and consumed is at most the limit plus what reconciliations report beyond their
  estimates; window rollovers and sweeps are included.\<close>

theorem budget_hard_limit:
  assumes "list_all small_budget_call cs" and "length cs < 2 ^ 30"
    and "list_all (hard_policy p limit) cs" and "0 \<le> limit"
  shows "budget_used (foldl budget_step (manager_New now) cs) p \<le> limit + overruns p (manager_New now) cs"
proof -
  have "int (length cs) < 2 ^ 30" using assms(2) by simp
  then show ?thesis
    using assms by (intro budget_run_used [OF manager_New_ok, where limit = limit]) (auto simp: used_eq manager_New_def)
qed

theorem budget_hard_limit_witness:
  "budget_used (foldl budget_step (manager_New 0) budget_example) ''p'' = 70
   \<and> budget_used (foldl budget_step (manager_New 0) budget_example) ''p''
       \<le> 100 + overruns ''p'' (manager_New 0) budget_example"
proof (rule conjI)
  show "budget_used (foldl budget_step (manager_New 0) budget_example) ''p'' = 70" by code_simp
  show "budget_used (foldl budget_step (manager_New 0) budget_example) ''p''
       \<le> 100 + overruns ''p'' (manager_New 0) budget_example"
    by (rule budget_hard_limit)
       (simp_all add: budget_example_def small_budget_call_def hard_policy_def day_policy_def)
qed

subsection \<open>Settlement and rollover\<close>

text \<open>No ledger of the policy holds an open reservation of that identifier.\<close>

definition has_open :: "window \<Rightarrow> string \<Rightarrow> bool" where
  "has_open w rid \<longleftrightarrow> (case map_of (wn_reservations w) rid of None \<Rightarrow> False | Some r \<Rightarrow> \<not> rs_final r)"

definition budget_settled :: "manager \<Rightarrow> string \<Rightarrow> string \<Rightarrow> bool" where
  "budget_settled m p rid \<longleftrightarrow>
     (case mg_windows m p of None \<Rightarrow> True | Some w \<Rightarrow> \<not> has_open w rid)
     \<and> (case mg_retired m p of None \<Rightarrow> True | Some r \<Rightarrow> \<not> has_open (rw_state r) rid)"

definition budget_reserves :: "string \<Rightarrow> string \<Rightarrow> budget_call \<Rightarrow> bool" where
  "budget_reserves p rid c \<longleftrightarrow>
     (case c of BReserve policy rid' e now \<Rightarrow> bp_ID policy = p \<and> rid' = rid | _ \<Rightarrow> False)"

lemma settled_no_effect:
  assumes "budget_settled m p rid"
  shows "fst (manager_Reconcile m p rid a) = m" and "manager_Release m p rid = m"
  using assms
  by (auto simp: manager_Reconcile_def manager_Release_def ledgerFor_def budget_settled_def has_open_def Let_def
        split: option.splits)

lemma has_open_drop: "keys_distinct (wn_reservations w) \<Longrightarrow> has_open (drop_final w) rid = has_open w rid"
  by (auto simp: has_open_def drop_final_def map_of_filter_distinct split: option.splits)

lemma settled_sweep:
  "manager_ok n m \<Longrightarrow> budget_settled m p rid \<Longrightarrow> budget_settled (budget_sweepLocked m now) p rid"
  by (auto simp: budget_settled_def budget_sweepLocked_def manager_ok_def window_ok_def has_open_drop
        split: option.splits)

lemma settled_roll: "budget_settled m p rid \<Longrightarrow> budget_settled (fst (roll_window m policy now)) p rid"
  by (auto simp: budget_settled_def roll_window_def has_open_def new_window_def split: option.splits)

lemma settled_Reserve:
  assumes ok: "manager_ok n m" and n: "0 \<le> n" and s: "budget_settled m p rid"
    and other: "bp_ID policy \<noteq> p \<or> rid' \<noteq> rid"
  shows "budget_settled (fst (manager_Reserve m policy rid' e now)) p rid"
proof -
  define m1 w where "m1 = fst (roll_window (budget_sweepLocked m now) policy now)"
    and "w = snd (roll_window (budget_sweepLocked m now) policy now)"
  have split: "roll_window (budget_sweepLocked m now) policy now = (m1, w)" by (simp add: m1_def w_def)
  have s1: "budget_settled m1 p rid"
    using settled_roll [OF settled_sweep [OF ok s]] by (simp add: m1_def)
  have "mg_windows m1 (bp_ID policy) = Some w"
    using manager_ok_roll(3) [OF manager_ok_sweep [OF ok] n] by (simp add: m1_def w_def)
  with s1 other have "budget_settled (m1\<lparr>mg_windows := (mg_windows m1)(bp_ID policy \<mapsto>
      w\<lparr>wn_reserved := x, wn_reservations := AList.update rid' y (wn_reservations w)\<rparr>)\<rparr>) p rid" for x y
    by (auto simp: budget_settled_def has_open_def update_conv' split: option.splits)
  with s s1 show ?thesis by (auto simp: manager_Reserve_def split Let_def split: option.splits)
qed

lemma settled_put:
  assumes "budget_settled m p rid" and "ledgerFor m p' rid' = Some (current, w)"
  shows "budget_settled (put_ledger m p' current (w\<lparr>wn_reserved := x, wn_consumed := y,
    wn_reservations := AList.update rid' (r\<lparr>rs_final := True\<rparr>) (wn_reservations w)\<rparr>)) p rid"
  using assms(2)
  by (cases rule: ledgerFor_cases)
     (use assms(1) in \<open>auto simp: budget_settled_def has_open_def put_ledger_def update_conv' split: option.splits\<close>)

lemma settled_Reconcile:
  assumes "budget_settled m p rid"
  shows "budget_settled (fst (manager_Reconcile m p' rid' a)) p rid"
  using assms settled_put [OF assms]
  by (auto simp: manager_Reconcile_def settle_def Let_def split: option.splits)

lemma settled_step:
  assumes ok: "manager_ok n m" "0 \<le> n" "n < 2 ^ 62" and s: "budget_settled m p rid" and c: "\<not> budget_reserves p rid c"
  shows "budget_settled (budget_step m c) p rid"
proof (cases c)
  case (BReserve policy rid' e now)
  then show ?thesis using settled_Reserve [OF ok(1,2) s] c by (auto simp: budget_step_def budget_reserves_def)
next
  case (BRelease p' rid')
  then show ?thesis using manager_Release_Reconcile [OF ok(1,3)] settled_Reconcile [OF s]
    by (simp add: budget_step_def)
next
  case (BSweep now)
  have "manager_ok n (m\<lparr>mg_lastSweep := zero_time\<rparr>)" "budget_settled (m\<lparr>mg_lastSweep := zero_time\<rparr>) p rid"
    using ok(1) s by (simp_all add: manager_ok_def budget_settled_def)
  then show ?thesis by (simp add: BSweep budget_step_def manager_Sweep_def settled_sweep)
qed (simp add: budget_step_def settled_Reconcile [OF s])

lemma settled_run:
  "manager_ok n m \<Longrightarrow> 0 \<le> n \<Longrightarrow> n + 2 ^ 31 * int (length cs) < 2 ^ 62 \<Longrightarrow> list_all small_budget_call cs \<Longrightarrow>
   budget_settled m p rid \<Longrightarrow> list_all (\<lambda>c. \<not> budget_reserves p rid c) cs \<Longrightarrow>
   budget_settled (foldl budget_step m cs) p rid"
proof (induction cs arbitrary: m n)
  case (Cons c cs)
  have ok: "manager_ok (n + 2 ^ 31) (budget_step m c)" using Cons.prems by (intro budget_step_ok) auto
  have "budget_settled (budget_step m c) p rid"
    using Cons.prems by (intro settled_step [where n = n]) auto
  from Cons.IH [OF ok _ _ _ this] Cons.prems show ?case by simp
qed simp

text \<open>A settlement reaches the ledger that holds the reservation, so it leaves nothing open.\<close>

lemma settle_settles:
  assumes "0 \<le> a" and "case mg_windows m p of None \<Rightarrow> True
      | Some w \<Rightarrow> map_of (wn_reservations w) rid = None \<or> (case mg_retired m p of None \<Rightarrow> True
          | Some r \<Rightarrow> \<not> has_open (rw_state r) rid)"
  shows "budget_settled (fst (manager_Reconcile m p rid a)) p rid"
  using assms
  by (auto simp: manager_Reconcile_def ledgerFor_def settle_def put_ledger_def budget_settled_def has_open_def
        update_conv' Let_def split: option.splits)

text \<open>C24: A budget reservation is settled exactly once. After its reconciliation or release, and
  until the identifier is reserved again, further reconciliations and releases of it leave the
  manager exactly as it is, through any interleaving of other calls, rollovers and sweeps.\<close>

theorem budget_settles_once:
  assumes "manager_ok n m" and "0 \<le> n" and "n + 2 ^ 31 * (int (length cs) + 1) < 2 ^ 62"
    and "list_all small_budget_call cs" and "list_all (\<lambda>c. \<not> budget_reserves p rid c) cs"
    and "0 \<le> a" and "a \<le> 2 ^ 31"
    and "case mg_windows m p of None \<Rightarrow> True
         | Some w \<Rightarrow> map_of (wn_reservations w) rid = None \<or> (case mg_retired m p of None \<Rightarrow> True
             | Some r \<Rightarrow> \<not> has_open (rw_state r) rid)"
    and "m' \<in> {foldl budget_step (fst (manager_Reconcile m p rid a)) cs,
               foldl budget_step (manager_Release m p rid) cs}"
  shows "fst (manager_Reconcile m' p rid b) = m' \<and> manager_Release m' p rid = m'"
proof -
  have n: "n + 2 ^ 31 < 2 ^ 62" using assms(3) by simp
  have rel: "manager_Release m p rid = fst (manager_Reconcile m p rid 0)"
    using assms(1) n by (intro manager_Release_Reconcile) auto
  have "budget_settled (foldl budget_step (fst (manager_Reconcile m p rid x)) cs) p rid"
    if "0 \<le> x" "x \<le> 2 ^ 31" for x
  proof (rule settled_run)
    show "manager_ok (n + 2 ^ 31) (fst (manager_Reconcile m p rid x))"
      using assms(1) n that by (intro manager_ok_Reconcile) auto
    show "budget_settled (fst (manager_Reconcile m p rid x)) p rid"
      using that(1) assms(8) by (rule settle_settles)
  qed (use assms(2-5) in \<open>auto simp: algebra_simps\<close>)
  then have "budget_settled m' p rid" using assms(6,7,9) by (auto simp: rel)
  then show ?thesis using settled_no_effect by blast
qed

definition reserved_example :: manager where
  "reserved_example = budget_step (manager_New 0) (BReserve day_policy ''a'' 60 second)"

theorem budget_settles_once_witness:
  "fst (manager_Reconcile (foldl budget_step (fst (manager_Reconcile reserved_example ''p'' ''a'' 70)) [BSweep (90 * second)])
     ''p'' ''a'' 5)
   = foldl budget_step (fst (manager_Reconcile reserved_example ''p'' ''a'' 70)) [BSweep (90 * second)]"
proof -
  let ?m = "foldl budget_step (fst (manager_Reconcile reserved_example ''p'' ''a'' 70)) [BSweep (90 * second)]"
  have "manager_ok (2 ^ 31) reserved_example"
    unfolding reserved_example_def
    using budget_step_ok [OF manager_New_ok, of "BReserve day_policy ''a'' 60 second" 0]
    by (simp add: small_budget_call_def)
  moreover have "mg_retired reserved_example ''p'' = None"
    by (simp add: reserved_example_def budget_step_def manager_Reserve_def day_policy_def valid_reservation_def
        roll_window_def budget_sweepLocked_def manager_New_def t_sub_def new_window_def Let_def)
  ultimately have "fst (manager_Reconcile ?m ''p'' ''a'' 5) = ?m \<and> manager_Release ?m ''p'' ''a'' = ?m"
    by (intro budget_settles_once [where n = "2 ^ 31" and m = reserved_example and a = 70
          and cs = "[BSweep (90 * second)]"])
       (simp_all add: small_budget_call_def budget_reserves_def split: option.splits)
  then show ?thesis by blast
qed

lemma sweep_window:
  assumes "manager_ok n m" and "mg_windows m p = Some w" and "map_of (wn_reservations w) rid = Some r" "\<not> rs_final r"
  shows "\<exists>w0. mg_windows (budget_sweepLocked m now) p = Some w0 \<and> wn_start w0 = wn_start w
    \<and> wn_reserved w0 = wn_reserved w \<and> wn_consumed w0 = wn_consumed w
    \<and> map_of (wn_reservations w0) rid = Some r"
proof -
  have "mg_windows (budget_sweepLocked m now) p \<in> {Some w, Some (drop_final w)}"
    using assms(2) by (simp add: budget_sweepLocked_def)
  moreover have "map_of (wn_reservations (drop_final w)) rid = Some r"
    using assms by (simp add: drop_final_def manager_ok_def window_ok_def map_of_filter_distinct)
  ultimately show ?thesis using assms(3) by (auto simp: drop_final_def)
qed

lemma rollover_parts:
  assumes "manager_ok n m" and "0 \<le> n" and "n + 2 ^ 31 < 2 ^ 62"
    and "mg_windows m (bp_ID policy) = Some w" and "wn_start w \<noteq> bp_WindowStart policy"
    and "map_of (wn_reservations w) rid = Some r" and "\<not> rs_final r" and "rid \<noteq> rid'"
    and "valid_reservation policy rid' e now" and "e \<le> bp_TokenLimit policy" and "e \<le> 2 ^ 31"
    and "0 \<le> a" and "a \<le> 2 ^ 31"
  defines "m1 \<equiv> fst (manager_Reserve m policy rid' e now)"
  defines "m2 \<equiv> fst (manager_Reconcile m1 (bp_ID policy) rid a)"
  shows "manager_Usage m1 (bp_ID policy) = (e, 0)" and "manager_Usage m2 (bp_ID policy) = (e, 0)"
    and "\<exists>rw. mg_retired m2 (bp_ID policy) = Some rw
           \<and> wn_reserved (rw_state rw) = wn_reserved w - rs_estimate r
           \<and> wn_consumed (rw_state rw) = wn_consumed w + a"
proof -
  let ?p = "bp_ID policy"
  define m0 where "m0 = budget_sweepLocked m now"
  obtain w0 where w0: "mg_windows m0 ?p = Some w0" "wn_start w0 = wn_start w"
      "wn_reserved w0 = wn_reserved w" "wn_consumed w0 = wn_consumed w"
      "map_of (wn_reservations w0) rid = Some r"
    using sweep_window [OF assms(1,4,6,7), of now] by (auto simp: m0_def)
  have ok0: "window_ok n w0"
    using manager_ok_sweep [OF assms(1), of now] w0(1) by (simp add: m0_def manager_ok_def)
  have e: "0 \<le> e" "in_i64 e" using assms(9,11) by (auto simp: valid_reservation_def in_i64_def)
  have i0: "i64 0 = 0" by (simp add: in_i64_def)
  define w1 where "w1 = (new_window (bp_WindowStart policy))\<lparr>wn_reserved := e,
      wn_reservations := [(rid', \<lparr>rs_estimate = e, rs_final = False\<rparr>)]\<rparr>"
  have m1: "mg_windows m1 ?p = Some w1" "mg_retired m1 ?p = Some \<lparr>rw_state = w0, rw_retiredAt = now\<rparr>"
    using assms(5,9,10) w0(1,2) e i0
    by (simp_all add: m1_def w1_def manager_Reserve_def roll_window_def new_window_def Let_def flip: m0_def)
  show "manager_Usage m1 ?p = (e, 0)" using m1 by (simp add: manager_Usage_def w1_def new_window_def)
  have "ledgerFor m1 ?p rid = Some (False, w0)"
    using m1 w0(5) assms(8) by (simp add: ledgerFor_def w1_def)
  then have m2: "m2 = put_ledger m1 ?p False (settle w0 rid r a)"
    using assms(7,12) w0(5) by (simp add: m2_def manager_Reconcile_def)
  show "manager_Usage m2 ?p = (e, 0)"
    using m1 by (simp add: m2 put_ledger_def manager_Usage_def w1_def new_window_def)
  show "\<exists>rw. mg_retired m2 ?p = Some rw \<and> wn_reserved (rw_state rw) = wn_reserved w - rs_estimate r
           \<and> wn_consumed (rw_state rw) = wn_consumed w + a"
    using m1(2) window_ok_settle(2,3) [OF ok0 w0(5) assms(7), of a] assms(3,12,13) w0
    by (simp add: m2 put_ledger_def)
qed

text \<open>C25: A rolled-over window starts empty and late settlements stay with the old one. A first
  reservation in a new window opens a ledger that holds only that reservation; reconciling a
  reservation that is still open in the old window is charged to the retired ledger and leaves
  the usage of the new window as it is.\<close>

theorem budget_rollover:
  assumes "manager_ok n m" and "0 \<le> n" and "n + 2 ^ 31 < 2 ^ 62"
    and "mg_windows m (bp_ID policy) = Some w" and "wn_start w \<noteq> bp_WindowStart policy"
    and "map_of (wn_reservations w) rid = Some r" and "\<not> rs_final r" and "rid \<noteq> rid'"
    and "valid_reservation policy rid' e now" and "e \<le> bp_TokenLimit policy" and "e \<le> 2 ^ 31"
    and "0 \<le> a" and "a \<le> 2 ^ 31"
  defines "m1 \<equiv> fst (manager_Reserve m policy rid' e now)"
  defines "m2 \<equiv> fst (manager_Reconcile m1 (bp_ID policy) rid a)"
  shows "manager_Usage m1 (bp_ID policy) = (e, 0) \<and> manager_Usage m2 (bp_ID policy) = (e, 0)
    \<and> (\<exists>rw. mg_retired m2 (bp_ID policy) = Some rw
           \<and> wn_reserved (rw_state rw) = wn_reserved w - rs_estimate r
           \<and> wn_consumed (rw_state rw) = wn_consumed w + a)"
  unfolding m1_def m2_def
  using rollover_parts [OF assms(1-13)] by blast

definition next_day_policy :: budget_policy where
  "next_day_policy = day_policy\<lparr>bp_WindowStart := 24 * hour, bp_WindowEnd := 48 * hour\<rparr>"

theorem budget_rollover_witness:
  "manager_Usage (fst (manager_Reconcile
      (fst (manager_Reserve reserved_example next_day_policy ''b'' 90 (24 * hour))) ''p'' ''a'' 70)) ''p'' = (90, 0)"
proof -
  have w: "\<exists>w. mg_windows reserved_example ''p'' = Some w \<and> wn_start w = 0
      \<and> map_of (wn_reservations w) ''a'' = Some \<lparr>rs_estimate = 60, rs_final = False\<rparr>"
    by (simp add: reserved_example_def budget_step_def manager_Reserve_def day_policy_def valid_reservation_def
        roll_window_def budget_sweepLocked_def manager_New_def t_sub_def new_window_def Let_def in_i64_def)
  have ok: "manager_ok (2 ^ 31) reserved_example"
    unfolding reserved_example_def
    using budget_step_ok [OF manager_New_ok, of "BReserve day_policy ''a'' 60 second" 0]
    by (simp add: small_budget_call_def)
  obtain w where "mg_windows reserved_example ''p'' = Some w" and "wn_start w = 0"
      and "map_of (wn_reservations w) ''a'' = Some \<lparr>rs_estimate = 60, rs_final = False\<rparr>"
    using w by blast
  then have "manager_Usage (fst (manager_Reconcile
      (fst (manager_Reserve reserved_example next_day_policy ''b'' 90 (24 * hour))) (bp_ID next_day_policy) ''a'' 70))
      (bp_ID next_day_policy) = (90, 0)"
    by (intro budget_rollover [OF ok, where w = w and r = "\<lparr>rs_estimate = 60, rs_final = False\<rparr>",
          THEN conjunct2, THEN conjunct1])
       (simp_all add: next_day_policy_def day_policy_def valid_reservation_def)
  then show ?thesis by (simp add: next_day_policy_def day_policy_def)
qed

text \<open>C26: A hard budget can be passed by wrap-around. Once a window has used any token, a reservation
  of the largest 64-bit estimate is granted under every limit, and it leaves the counters of
  the window negative, so that further reservations are granted too.\<close>

theorem budget_limit_wraps:
  assumes "mg_windows m (bp_ID policy) = Some w" and "wn_start w = bp_WindowStart policy"
    and "t_sub now (mg_lastSweep m) < budgetSweepInterval"
    and "wn_reserved w = 0" and "0 < wn_consumed w" and "wn_consumed w < 2 ^ 62"
    and "map_of (wn_reservations w) rid = None" and "valid_reservation policy rid (2 ^ 63 - 1) now"
  shows "(\<exists>rv. snd (manager_Reserve m policy rid (2 ^ 63 - 1) now) = Inr rv)
    \<and> i64 (budget_used (fst (manager_Reserve m policy rid (2 ^ 63 - 1) now)) (bp_ID policy)) < 0"
proof -
  let ?c = "wn_consumed w"
  have "?c + (2 ^ 63 - 1) + 2 ^ 63 = (?c - 1) + 2 ^ 64" by simp
  then have "(?c + (2 ^ 63 - 1) + 2 ^ 63) mod 2 ^ 64 = (?c - 1) mod 2 ^ 64"
    by (simp only: mod_add_self2)
  also have "\<dots> = ?c - 1" using assms by (intro mod_pos_pos_trivial) auto
  finally have wrap: "i64 (?c + (2 ^ 63 - 1)) = ?c - 1 - 2 ^ 63" unfolding i64_def by simp
  have id: "i64 ?c = ?c" "i64 (2 ^ 63 - 1) = 2 ^ 63 - 1" using assms(5,6) by (simp_all add: in_i64_def)
  have lim: "0 \<le> bp_TokenLimit policy" using assms(8) by (simp add: valid_reservation_def)
  have roll: "roll_window (budget_sweepLocked m now) policy now = (m, w)"
    using assms(1-3) by (simp add: roll_window_def budget_sweepLocked_def)
  have "\<exists>rv. snd (manager_Reserve m policy rid (2 ^ 63 - 1) now) = Inr rv"
    using wrap id lim roll assms(4-8) by (simp add: manager_Reserve_def Let_def)
  moreover have "i64 (budget_used (fst (manager_Reserve m policy rid (2 ^ 63 - 1) now)) (bp_ID policy)) < 0"
    using wrap id lim roll assms(4-8) by (simp add: manager_Reserve_def Let_def used_put add.commute)
  ultimately show ?thesis by blast
qed

definition consumed_example :: manager where
  "consumed_example = fst (manager_Reconcile reserved_example ''p'' ''a'' 1)"

theorem budget_limit_wraps_witness:
  "\<exists>rv. snd (manager_Reserve consumed_example day_policy ''b'' (2 ^ 63 - 1) second) = Inr rv"
proof -
  have "\<exists>w. mg_windows consumed_example ''p'' = Some w \<and> wn_start w = 0 \<and> wn_reserved w = 0
      \<and> wn_consumed w = 1 \<and> map_of (wn_reservations w) ''b'' = None \<and> mg_lastSweep consumed_example = 0"
    by (simp add: consumed_example_def reserved_example_def budget_step_def manager_Reserve_def manager_Reconcile_def
        ledgerFor_def settle_def put_ledger_def day_policy_def valid_reservation_def roll_window_def
        budget_sweepLocked_def manager_New_def t_sub_def new_window_def Let_def in_i64_def)
  then obtain w where "mg_windows consumed_example ''p'' = Some w" "wn_start w = 0" "wn_reserved w = 0"
      "wn_consumed w = 1" "map_of (wn_reservations w) ''b'' = None" "mg_lastSweep consumed_example = 0"
    by blast
  then show ?thesis
    by (intro budget_limit_wraps [where w = w, THEN conjunct1])
       (simp_all add: day_policy_def valid_reservation_def t_sub_def)
qed

end
