(* ===== verification/Budget_Enforcer.thy ===== *)
theory Budget_Enforcer
  imports Budget
begin

text \<open>
  The layers over the budget manager: the fail mode of a distributed ledger
  (\<^verbatim>\<open>internal/finops/budget/failmode.go\<close>), the windows of users and units
  (\<^verbatim>\<open>orgbudget.go\<close>, \<^verbatim>\<open>internal/identity/principal.go\<close>), and the enforcer of
  \<^verbatim>\<open>internal/app/budgetenforcer.go\<close>. The distributed ledger is a parameter: any
  implementation of the operations of \<^verbatim>\<open>BudgetLedger\<close>.
\<close>

subsection \<open>Fail modes\<close>

datatype fail_mode = FailClosed | FailOpen

type_synonym alert_log = "(string \<times> string) list option"

definition failmode_alert :: "alert_log \<Rightarrow> string \<Rightarrow> string \<Rightarrow> alert_log" where
  "failmode_alert alerts kind message = map_option (\<lambda>l. l @ [(kind, message)]) alerts"

definition failmode_Reserve ::
  "('s \<Rightarrow> reserve_request \<Rightarrow> 's \<times> (coord_error + reserve_result)) \<Rightarrow> fail_mode \<Rightarrow> 's \<times> alert_log
     \<Rightarrow> reserve_request \<Rightarrow> ('s \<times> alert_log) \<times> (coord_error + reserve_result)" where
  "failmode_Reserve inner mode st req =
     (let (s, result) = inner (fst st) req
      in if result = Inl ErrLedgerUnavailable then
           (case mode of
              FailClosed \<Rightarrow>
                ((s, failmode_alert (snd st) ''budget.fail_closed'' ''hard budget ledger unavailable''), result)
            | FailOpen \<Rightarrow>
                ((s, failmode_alert (snd st) ''budget.fail_open''
                       ''soft budget ledger unavailable; proceeding without enforcement''),
                 Inr (reserve_zero\<lparr>rr_Reserved := True, rr_Degraded := True\<rparr>)))
         else ((s, snd st), result))"

definition failmode_Reconcile where
  "failmode_Reconcile inner st t rid a = (let (s, r) = inner (fst st) t rid a in ((s, snd st), r))"

definition failmode_Release where
  "failmode_Release inner st t rid = (let (s, r) = inner (fst st) t rid in ((s, snd st), r))"

definition failmode_Sweep where
  "failmode_Sweep inner st t n = (let (s, r) = inner (fst st) t n in ((s, snd st), r))"

text \<open>The wrapper keeps the ledger contract, whatever the fail mode.\<close>

locale fail_mode_ledger = budget_ledger reserve reconcile release sweep used held good
  for reserve :: "'s \<Rightarrow> reserve_request \<Rightarrow> 's \<times> (coord_error + reserve_result)"
    and reconcile release sweep used held good +
  fixes mode :: fail_mode
begin

lemma failmode_state:
  "fst (fst (failmode_Reserve reserve mode st req)) = fst (reserve (fst st) req)"
  "fst (fst (failmode_Reconcile reconcile st t rid a)) = fst (reconcile (fst st) t rid a)"
  "fst (fst (failmode_Release release st t rid)) = fst (release (fst st) t rid)"
  "fst (fst (failmode_Sweep sweep st t n)) = fst (sweep (fst st) t n)"
  by (simp_all add: failmode_Reserve_def failmode_Reconcile_def failmode_Release_def failmode_Sweep_def
        Let_def split: prod.splits fail_mode.splits)

lemma failmode_result:
  "granted (snd (failmode_Reserve reserve mode st req)) = granted (snd (reserve (fst st) req))"
  "snd (failmode_Reconcile reconcile st t rid a) = snd (reconcile (fst st) t rid a)"
  "snd (failmode_Release release st t rid) = snd (release (fst st) t rid)"
  by (simp_all add: failmode_Reserve_def failmode_Reconcile_def failmode_Release_def granted_def
        Let_def split: prod.splits fail_mode.splits)

lemma failmode_log:
  "snd (fst (failmode_Reconcile reconcile st t rid a)) = snd st"
  "snd (fst (failmode_Release release st t rid)) = snd st"
  by (simp_all add: failmode_Reconcile_def failmode_Release_def Let_def split: prod.splits)

end

sublocale fail_mode_ledger \<subseteq> fm: budget_ledger
  "failmode_Reserve reserve mode" "failmode_Reconcile reconcile" "failmode_Release release"
  "failmode_Sweep sweep" "\<lambda>st. used (fst st)" "\<lambda>st. held (fst st)" "\<lambda>st. good (fst st)"
proof (unfold_locales, goal_cases)
  case (10 s t rid a)
  then show ?case
    using settle_unknown [of "fst s" t rid a]
    by (auto simp: failmode_state failmode_result failmode_log prod_eq_iff)
next
  case (12 s t rid a)
  then show ?case using settle_held [of "fst s" t rid a] by (simp add: failmode_state)
next
  case (16 s t n t' rid)
  then show ?case using sweep_held [of "fst s" t n t' rid] by (simp add: failmode_state)
qed (auto simp: failmode_state failmode_result good_reserve good_reconcile good_release good_sweep
       reserve_refused reserve_granted reserve_holds reserve_others reserve_held settle_others
       reconcile_used release_used sweep_used)

interpretation memfm: fail_mode_ledger mem_Reserve mem_Reconcile mem_Release mem_Sweep ml_windows mem_held mem_good mode
  for mode
  by unfold_locales

subsection \<open>User and unit windows\<close>

definition TrustedAttribution :: "string \<Rightarrow> bool" where
  "TrustedAttribution trust \<longleftrightarrow> trust = ''verified'' \<or> trust = ''delegated''"

record principal_attribution =
  pa_UserID :: string
  pa_OrgUnitID :: string
  pa_AttributionTrust :: string

definition UserOrgWindowKeys ::
  "string \<Rightarrow> principal_attribution \<Rightarrow> int \<Rightarrow> budget_window list \<times> bool" where
  "UserOrgWindowKeys tenantTag attribution windowHours =
     (if \<not> TrustedAttribution (pa_AttributionTrust attribution) then ([], False)
      else
        let ttl = (if 0 < windowHours then i64 (windowHours * hour) else 0);
            w = (\<lambda>kind ident. \<lparr>bw_Key = ''budget:'' @ tenantTag @ kind @ ident @ '':1d'', bw_Limit = 0, bw_TTL = ttl\<rparr>);
            windows = (if pa_UserID attribution \<noteq> '''' then [w '':user:'' (pa_UserID attribution)] else [])
                      @ (if pa_OrgUnitID attribution \<noteq> '''' then [w '':org:'' (pa_OrgUnitID attribution)] else [])
        in (windows, windows \<noteq> []))"

definition OrgBudget_Apply :: "string \<Rightarrow> reserve_request \<Rightarrow> principal_attribution \<Rightarrow> int \<Rightarrow> reserve_request" where
  "OrgBudget_Apply tenantTag request attribution windowHours =
     (let (windows, ok) = UserOrgWindowKeys tenantTag attribution windowHours
      in if \<not> ok then request else request\<lparr>rq_Windows := rq_Windows request @ windows\<rparr>)"

text \<open>
  The added windows carry no limit, so a trusted user's request with a positive estimate is
  refused by the in-process ledger whatever was spent.
\<close>

lemma check_windows_zero:
  assumes "w \<in> set ws" and "bw_Limit w = 0" and "1 \<le> e" and "\<forall>k. 0 \<le> tenant k"
  shows "check_windows tenant e ws \<noteq> Inr True"
  using assms
proof (induction ws)
  case (Cons v ws)
  have "1 \<le> fadd (tenant (bw_Key w)) e"
    unfolding fadd_def using assms(3,4) f64.rnd_ge_int [of 1 "tenant (bw_Key w) + e"]
    by (simp add: add_increasing)
  then show ?case using Cons by auto
qed simp

lemma org_windows_refuse:
  assumes "TrustedAttribution (pa_AttributionTrust attribution)" and "pa_UserID attribution \<noteq> ''''"
    and "1 \<le> rq_Estimate req" and "\<forall>t k. 0 \<le> ml_windows m t k"
  shows "\<not> granted (snd (mem_Reserve m (OrgBudget_Apply tag req attribution windowHours)))"
proof -
  define req' where "req' = OrgBudget_Apply tag req attribution windowHours"
  have "\<exists>w \<in> set (rq_Windows req'). bw_Limit w = 0" and e: "rq_Estimate req' = rq_Estimate req"
    using assms(1,2) by (auto simp: req'_def OrgBudget_Apply_def UserOrgWindowKeys_def Let_def)
  then have "check_windows (ml_windows m t) (rq_Estimate req') (rq_Windows req') \<noteq> Inr True" for t
    using check_windows_zero [of _ "rq_Windows req'" "rq_Estimate req'" "ml_windows m t"] assms(3,4) by auto
  then show ?thesis unfolding req'_def [symmetric]
    by (auto simp: mem_Reserve_def granted_def Let_def split: sum.splits bool.splits)
qed

subsection \<open>Window names\<close>

text \<open>\<^verbatim>\<open>Format("20060102150405")\<close> of an instant in UTC, for the years 0 to 9999.\<close>

definition civil_from_days :: "int \<Rightarrow> int \<times> int \<times> int" where
  "civil_from_days z0 =
     (let z = z0 + 719468; era = z div 146097; doe = z mod 146097;
          yoe = (doe - doe div 1460 + doe div 36524 - doe div 146096) div 365;
          doy = doe - (365 * yoe + yoe div 4 - yoe div 100);
          mp = (5 * doy + 2) div 153;
          d = doy - (153 * mp + 2) div 5 + 1;
          m = (if mp < 10 then mp + 3 else mp - 9);
          y = yoe + era * 400 + (if m \<le> 2 then 1 else 0)
      in (y, m, d))"

fun pad :: "nat \<Rightarrow> nat \<Rightarrow> string" where
  "pad 0 n = []"
| "pad (Suc w) n = pad w (n div 10) @ [char_of (48 + n mod 10)]"

definition format_compact :: "gotime \<Rightarrow> string" where
  "format_compact t =
     (let secs = t div second; days = secs div 86400; sod = secs mod 86400;
          (y, m, d) = civil_from_days days
      in pad 4 (nat y) @ pad 2 (nat m) @ pad 2 (nat d)
         @ pad 2 (nat (sod div 3600)) @ pad 2 (nat (sod mod 3600 div 60)) @ pad 2 (nat (sod mod 60)))"

lemma format_examples:
  "format_compact 0 = ''19700101000000''"
  "format_compact (1709251199 * second) = ''20240229235959''"
  by code_simp+

subsection \<open>The enforcer\<close>

record 's ledger_ops =
  lo_Reserve :: "'s \<Rightarrow> reserve_request \<Rightarrow> 's \<times> (coord_error + reserve_result)"
  lo_Reconcile :: "'s \<Rightarrow> string \<Rightarrow> string \<Rightarrow> f64 \<Rightarrow> 's \<times> (coord_error + unit)"
  lo_Release :: "'s \<Rightarrow> string \<Rightarrow> string \<Rightarrow> 's \<times> (coord_error + unit)"
  lo_Sweep :: "'s \<Rightarrow> string \<Rightarrow> int \<Rightarrow> 's \<times> (coord_error + int)"

abbreviation sliceRegion :: string where "sliceRegion \<equiv> ''global''"
abbreviation budgetSweepLimit :: int where "budgetSweepLimit \<equiv> 500"

definition defaultSliceOvershootRatio :: f64 where
  "defaultSliceOvershootRatio = fl (1 / 10)"

record 's enforcer =
  en_manager :: manager
  en_distributed :: "'s option"
  en_alerts :: alert_log
  en_slices :: "string \<rightharpoonup> slice_authority \<times> gotime"
  en_tenantByPolicy :: "(string \<times> string) list"

definition newBudgetEnforcer :: "manager \<Rightarrow> 's enforcer" where
  "newBudgetEnforcer m = \<lparr>en_manager = m, en_distributed = None, en_alerts = None, en_slices = Map.empty,
     en_tenantByPolicy = []\<rparr>"

definition withDistributedLedger :: "'s enforcer \<Rightarrow> 's \<Rightarrow> alert_log \<Rightarrow> 's enforcer" where
  "withDistributedLedger e ledger alerts = e\<lparr>en_distributed := Some ledger, en_alerts := alerts\<rparr>"

definition consistencyMode :: "string \<Rightarrow> budget_consistency" where
  "consistencyMode consistency =
     (if consistency = ''regional'' then BudgetRegional
      else if consistency = ''global_soft'' then BudgetGlobalSoft
      else if consistency = ''global_hard'' then BudgetGlobalHard else BudgetUnknown)"

definition recordTenant :: "'s enforcer \<Rightarrow> string \<Rightarrow> string \<Rightarrow> 's enforcer" where
  "recordTenant e policyID tenantID =
     (if policyID = '''' \<or> tenantID = '''' then e
      else e\<lparr>en_tenantByPolicy := AList.update policyID tenantID (en_tenantByPolicy e)\<rparr>)"

definition tenantFor :: "'s enforcer \<Rightarrow> string \<Rightarrow> string" where
  "tenantFor e policyID = (case map_of (en_tenantByPolicy e) policyID of None \<Rightarrow> '''' | Some t \<Rightarrow> t)"

text \<open>The order in which the code visits the tenants is the iteration order of a map.\<close>

definition enforcer_tenants :: "'s enforcer \<Rightarrow> string list" where
  "enforcer_tenants e = remdups (map snd (en_tenantByPolicy e))"

definition distributedWindows :: "budget_policy \<Rightarrow> budget_window list" where
  "distributedWindows policy =
     (let ttl = t_sub (bp_WindowEnd policy) (bp_WindowStart policy);
          ttl = (if ttl < second then hour else ttl)
      in [\<lparr>bw_Key = ''{tenant:'' @ bp_TenantID policy @ ''}:budget:'' @ bp_ID policy @ '':''
                    @ format_compact (bp_WindowStart policy),
           bw_Limit = f_of_int (bp_TokenLimit policy), bw_TTL = ttl\<rparr>])"

definition authorityFor :: "'s enforcer \<Rightarrow> budget_policy \<Rightarrow> 's enforcer \<times> slice_authority" where
  "authorityFor e policy =
     (let fresh = ForMode (bp_ID policy) (consistencyMode (bp_Consistency policy));
          create = (e\<lparr>en_slices := (en_slices e)(bp_ID policy \<mapsto> (fresh, bp_WindowStart policy))\<rparr>, fresh)
      in case en_slices e (bp_ID policy) of
           None \<Rightarrow> create
         | Some (authority, start) \<Rightarrow> if start \<noteq> bp_WindowStart policy then create else (e, authority))"

definition syncSlice :: "'s enforcer \<Rightarrow> string \<Rightarrow> 's enforcer" where
  "syncSlice e policyID =
     (case en_slices e policyID of None \<Rightarrow> e
      | Some (authority, start) \<Rightarrow>
          let (reserved, consumed) = manager_Usage (en_manager e) policyID;
              authority = fst (slice_Reconcile authority sliceRegion (f_of_int (i64 (reserved + consumed))))
          in e\<lparr>en_slices := (en_slices e)(policyID \<mapsto> (authority, start))\<rparr>)"

definition release_manager :: "'s enforcer \<Rightarrow> string \<Rightarrow> string \<Rightarrow> 's enforcer" where
  "release_manager e policyID rid = e\<lparr>en_manager := manager_Release (en_manager e) policyID rid\<rparr>"

definition reserve_distributed ::
  "'s ledger_ops \<Rightarrow> 's enforcer \<Rightarrow> budget_policy \<Rightarrow> string \<Rightarrow> int \<Rightarrow> 's enforcer \<times> budget_error option" where
  "reserve_distributed ops e policy rid estimate =
     (case en_distributed e of None \<Rightarrow> (e, None)
      | Some s \<Rightarrow>
          let mode = (if bp_Mode policy = ''soft'' then FailOpen else FailClosed);
              ((s, alerts), result) = failmode_Reserve (lo_Reserve ops) mode (s, en_alerts e)
                \<lparr>rq_TenantID = bp_TenantID policy, rq_ReservationID = rid, rq_Estimate = f_of_int estimate,
                 rq_Windows = distributedWindows policy\<rparr>;
              e = e\<lparr>en_distributed := Some s, en_alerts := alerts\<rparr>
          in case result of
               Inl err \<Rightarrow> (release_manager e (bp_ID policy) rid, Some (LedgerError err))
             | Inr res \<Rightarrow> if \<not> rr_Reserved res then (release_manager e (bp_ID policy) rid, Some ErrExceeded)
                          else (e, None))"

definition reserve_slice ::
  "'s enforcer \<Rightarrow> budget_policy \<Rightarrow> string \<Rightarrow> int \<Rightarrow> 's enforcer \<times> budget_error option" where
  "reserve_slice e policy rid estimate =
     (if bp_Consistency policy = '''' then (e, None)
      else
        let (e, authority) = authorityFor e policy;
            strict = f_of_int (bp_TokenLimit policy);
            overshoot = (if consistencyMode (bp_Consistency policy) = BudgetGlobalSoft
                         then fmul strict defaultSliceOvershootRatio else 0);
            (authority, err) = slice_Admit authority sliceRegion (f_of_int estimate) strict overshoot;
            e = e\<lparr>en_slices := (en_slices e)(bp_ID policy \<mapsto> (authority, bp_WindowStart policy))\<rparr>
        in case err of None \<Rightarrow> (e, None)
           | Some x \<Rightarrow> (release_manager e (bp_ID policy) rid, Some (SliceError x)))"

definition enforcer_Reserve ::
  "'s ledger_ops \<Rightarrow> 's enforcer \<Rightarrow> budget_policy \<Rightarrow> string \<Rightarrow> int \<Rightarrow> gotime
     \<Rightarrow> 's enforcer \<times> (budget_error + reservation)" where
  "enforcer_Reserve ops e policy rid estimate now =
     (let e = recordTenant e (bp_ID policy) (bp_TenantID policy);
          (m, result) = manager_Reserve (en_manager e) policy rid estimate now;
          e = e\<lparr>en_manager := m\<rparr>
      in case result of
           Inl err \<Rightarrow> (e, Inl err)
         | Inr reserved \<Rightarrow>
             let (e, err) = reserve_distributed ops e policy rid estimate
             in case err of
                  Some x \<Rightarrow> (e, Inl x)
                | None \<Rightarrow>
                    let (e, err) = reserve_slice e policy rid estimate
                    in case err of Some x \<Rightarrow> (e, Inl x) | None \<Rightarrow> (e, Inr reserved))"

definition enforcer_Reconcile ::
  "'s ledger_ops \<Rightarrow> 's enforcer \<Rightarrow> string \<Rightarrow> string \<Rightarrow> int \<Rightarrow> 's enforcer \<times> budget_error option" where
  "enforcer_Reconcile ops e policyID rid actual =
     (let (m, err) = manager_Reconcile (en_manager e) policyID rid actual;
          e = e\<lparr>en_manager := m\<rparr>
      in case err of Some x \<Rightarrow> (e, Some x)
         | None \<Rightarrow>
             let e = (case en_distributed e of None \<Rightarrow> e
                      | Some s \<Rightarrow> if tenantFor e policyID = '''' then e
                          else e\<lparr>en_distributed :=
                                 Some (fst (lo_Reconcile ops s (tenantFor e policyID) rid (f_of_int actual)))\<rparr>)
             in (syncSlice e policyID, None))"

definition enforcer_Release :: "'s ledger_ops \<Rightarrow> 's enforcer \<Rightarrow> string \<Rightarrow> string \<Rightarrow> 's enforcer" where
  "enforcer_Release ops e policyID rid =
     (let e = release_manager e policyID rid;
          e = (case en_distributed e of None \<Rightarrow> e
               | Some s \<Rightarrow> if tenantFor e policyID = '''' then e
                   else e\<lparr>en_distributed := Some (fst (lo_Release ops s (tenantFor e policyID) rid))\<rparr>)
      in syncSlice e policyID)"

definition enforcer_Usage :: "'s enforcer \<Rightarrow> string \<Rightarrow> int \<times> int" where
  "enforcer_Usage e policyID = manager_Usage (en_manager e) policyID"

definition enforcer_Sweep :: "'s ledger_ops \<Rightarrow> 's enforcer \<Rightarrow> gotime \<Rightarrow> 's enforcer" where
  "enforcer_Sweep ops e now =
     (let e = e\<lparr>en_manager := manager_Sweep (en_manager e) now\<rparr>
      in case en_distributed e of None \<Rightarrow> e
         | Some s \<Rightarrow> e\<lparr>en_distributed :=
             Some (foldl (\<lambda>s t. fst (lo_Sweep ops s t budgetSweepLimit)) s (enforcer_tenants e))\<rparr>)"

subsection \<open>The slice mirrors the manager\<close>

text \<open>
  For one policy: when the slice belongs to the current window its counter is the usage of
  that window; otherwise the window has no usage yet.
\<close>

definition slice_matches :: "gotime option \<Rightarrow> int \<Rightarrow> (slice_authority \<times> gotime) option \<Rightarrow> bool" where
  "slice_matches window used entry \<longleftrightarrow>
     (case window of
        None \<Rightarrow> entry = None
      | Some start \<Rightarrow>
          (case entry of
             None \<Rightarrow> used = 0
           | Some (a, start') \<Rightarrow>
               (case sa_slices a sliceRegion of
                  None \<Rightarrow> False
                | Some s \<Rightarrow> start' \<le> start \<and> (if start' = start then sc_used s = of_int used else used = 0))))"

abbreviation window_start :: "manager \<Rightarrow> string \<Rightarrow> gotime option" where
  "window_start m p \<equiv> map_option wn_start (mg_windows m p)"

definition mirrors :: "manager \<Rightarrow> (string \<rightharpoonup> slice_authority \<times> gotime) \<Rightarrow> string \<Rightarrow> bool" where
  "mirrors m slices p \<longleftrightarrow> slice_matches (window_start m p) (budget_used m p) (slices p)"

text \<open>What a granted first reservation of an identifier does to the current window.\<close>

lemma Reserve_fresh:
  assumes ok: "manager_ok n m" "0 \<le> n" "n + 2 ^ 31 < 2 ^ 62" "e \<le> 2 ^ 31"
    and res: "manager_Reserve m policy rid e now = (m', Inr rv)"
    and fresh: "\<And>w. mg_windows m (bp_ID policy) = Some w \<Longrightarrow> map_of (wn_reservations w) rid = None"
  obtains w where "mg_windows m' (bp_ID policy) = Some (w\<lparr>wn_reserved := wn_reserved w + e,
        wn_reservations := AList.update rid \<lparr>rs_estimate = e, rs_final = False\<rparr> (wn_reservations w)\<rparr>)"
    and "window_ok n w" and "map_of (wn_reservations w) rid = None" and "wn_start w = bp_WindowStart policy" and "0 \<le> e"
    and "wn_reserved w + wn_consumed w \<noteq> 0 \<longrightarrow> wn_reserved w + wn_consumed w = budget_used m (bp_ID policy)
           \<and> (\<exists>v. mg_windows m (bp_ID policy) = Some v \<and> wn_start v = bp_WindowStart policy)"
    and "(\<exists>v. mg_windows m (bp_ID policy) = Some v \<and> wn_start v = bp_WindowStart policy)
           \<longrightarrow> wn_reserved w + wn_consumed w = budget_used m (bp_ID policy)"
proof -
  let ?p = "bp_ID policy"
  define m0 where "m0 = budget_sweepLocked m now"
  define m1 w where "m1 = fst (roll_window m0 policy now)" and "w = snd (roll_window m0 policy now)"
  have split: "roll_window m0 policy now = (m1, w)" by (simp add: m1_def w_def)
  have ok1: "manager_ok n m0" using manager_ok_sweep [OF ok(1)] by (simp add: m0_def)
  have wok: "window_ok n w" using manager_ok_roll [OF ok1 ok(2)] by (simp add: w_def)
  have valid: "valid_reservation policy rid e now" using res by (auto simp: manager_Reserve_def split: if_splits)
  have e: "0 \<le> e" using valid by (simp add: valid_reservation_def)
  have old: "mg_windows m0 ?p = Some v \<Longrightarrow> \<exists>u. mg_windows m ?p = Some u \<and> v \<in> {u, drop_final u}" for v
    by (auto simp: m0_def budget_sweepLocked_def split: if_splits)
  have none: "map_of (wn_reservations v) rid = None" if "mg_windows m0 ?p = Some v" for v
  proof -
    obtain u where u: "mg_windows m ?p = Some u" "v \<in> {u, drop_final u}" using old [OF \<open>mg_windows m0 ?p = Some v\<close>] by auto
    have "keys_distinct (wn_reservations u)" using ok(1) u(1) by (simp add: manager_ok_def window_ok_def)
    then show ?thesis using u fresh [OF u(1)] by (auto simp: drop_final_def map_of_filter_distinct)
  qed
  have wnone: "map_of (wn_reservations w) rid = None" and wstart: "wn_start w = bp_WindowStart policy"
    using none split by (auto simp: roll_window_def new_window_def split: option.split_asm if_split_asm)
  have "in_i64 (wn_reserved w + e)"
    using wok window_ok_reserved [OF wok] ok(3,4) e by (auto simp: window_ok_def in_i64_def)
  then have m': "mg_windows m' ?p = Some (w\<lparr>wn_reserved := wn_reserved w + e,
        wn_reservations := AList.update rid \<lparr>rs_estimate = e, rs_final = False\<rparr> (wn_reservations w)\<rparr>)"
    using res valid split wnone
    by (auto simp: manager_Reserve_def m0_def [symmetric] Let_def split: if_split_asm)
  have used: "budget_used m0 ?p = budget_used m ?p" by (simp add: m0_def)
  have same: "(\<exists>v. mg_windows m0 ?p = Some v \<and> wn_start v = bp_WindowStart policy) \<longleftrightarrow>
      (\<exists>v. mg_windows m ?p = Some v \<and> wn_start v = bp_WindowStart policy)"
    by (auto simp: m0_def budget_sweepLocked_def drop_final_def)
  have roll: "if \<exists>v. mg_windows m0 ?p = Some v \<and> wn_start v = bp_WindowStart policy
      then wn_reserved w + wn_consumed w = budget_used m0 ?p else wn_reserved w + wn_consumed w = 0"
  proof (cases "mg_windows m0 ?p")
    case None
    then have "w = new_window (bp_WindowStart policy)" using split by (simp add: roll_window_def)
    then show ?thesis by (simp add: None new_window_def)
  next
    case (Some v)
    show ?thesis
    proof (cases "wn_start v = bp_WindowStart policy")
      case True
      then have "w = v" using split Some by (simp add: roll_window_def)
      then show ?thesis by (simp add: Some True used_eq)
    next
      case False
      then have "w = new_window (bp_WindowStart policy)" using split Some by (simp add: roll_window_def)
      then show ?thesis by (simp add: Some False new_window_def)
    qed
  qed
  show ?thesis
  proof (rule that [OF m' wok wnone wstart e])
    show "wn_reserved w + wn_consumed w \<noteq> 0 \<longrightarrow> wn_reserved w + wn_consumed w = budget_used m ?p
        \<and> (\<exists>v. mg_windows m ?p = Some v \<and> wn_start v = bp_WindowStart policy)"
      using roll unfolding same used by (cases "\<exists>v. mg_windows m ?p = Some v \<and> wn_start v = bp_WindowStart policy") simp_all
    show "(\<exists>v. mg_windows m ?p = Some v \<and> wn_start v = bp_WindowStart policy)
        \<longrightarrow> wn_reserved w + wn_consumed w = budget_used m ?p"
      using roll unfolding same used by (cases "\<exists>v. mg_windows m ?p = Some v \<and> wn_start v = bp_WindowStart policy") auto
  qed
qed

lemma Reserve_refused_used:
  assumes ok: "manager_ok n m" "0 \<le> n"
    and res: "manager_Reserve m policy rid e now = (m', Inl err)"
    and forward: "\<And>start. window_start m (bp_ID policy) = Some start \<Longrightarrow> start \<le> bp_WindowStart policy"
  shows "mirrors m slices p \<Longrightarrow> mirrors m' slices p"
proof (cases "valid_reservation policy rid e now")
  case True
  define m0 where "m0 = budget_sweepLocked m now"
  have m': "m' = fst (roll_window m0 policy now)"
    using res True by (auto simp: manager_Reserve_def m0_def Let_def split: prod.splits option.splits if_split_asm)
  have m0: "window_start m0 p = window_start m p" "budget_used m0 p = budget_used m p"
    by (simp_all add: m0_def) (simp add: budget_sweepLocked_def drop_final_def option.map_comp comp_def)
  have "(window_start m' p = window_start m p \<and> budget_used m' p = budget_used m p)
      \<or> (budget_used m' p = 0 \<and> window_start m' p = Some (bp_WindowStart policy)
         \<and> (\<forall>start. window_start m p = Some start \<longrightarrow> start < bp_WindowStart policy))"
  proof (cases "p = bp_ID policy \<and> window_start m0 p \<noteq> Some (bp_WindowStart policy)")
    case True
    then have "mg_windows m' p = Some (new_window (bp_WindowStart policy))"
      by (auto simp: m' roll_window_def split: option.splits)
    then have "budget_used m' p = 0" and "window_start m' p = Some (bp_WindowStart policy)"
      by (simp_all add: used_eq new_window_def)
    moreover have "start < bp_WindowStart policy" if "window_start m p = Some start" for start
      using True that forward [of start] m0(1) by auto
    ultimately show ?thesis by blast
  next
    case False
    then have "mg_windows m' p = mg_windows m0 p"
      by (auto simp: m' roll_window_def split: option.splits)
    then show ?thesis using m0 by (simp add: used_eq)
  qed
  moreover assume "mirrors m slices p"
  ultimately show "mirrors m' slices p"
    by (auto simp: mirrors_def slice_matches_def split: option.splits)
next
  case False
  assume "mirrors m slices p"
  with False res show "mirrors m' slices p" by (simp add: manager_Reserve_def)
qed

text \<open>Releasing a reservation that was just granted restores the usage of its window.\<close>

lemma Release_back:
  assumes w: "mg_windows m p = Some (w\<lparr>wn_reserved := wn_reserved w + e,
        wn_reservations := AList.update rid \<lparr>rs_estimate = e, rs_final = False\<rparr> (wn_reservations w)\<rparr>)"
    and ok: "window_ok n w" "n < 2 ^ 62"
  shows "window_start (manager_Release m p rid) p = Some (wn_start w)"
    and "budget_used (manager_Release m p rid) p = wn_reserved w + wn_consumed w"
    and "p' \<noteq> p \<Longrightarrow> mg_windows (manager_Release m p rid) p' = mg_windows m p'"
proof -
  have "in_i64 (wn_reserved w)" using ok window_ok_reserved [OF ok(1)] by (auto simp: window_ok_def in_i64_def)
  then show "window_start (manager_Release m p rid) p = Some (wn_start w)"
    and "budget_used (manager_Release m p rid) p = wn_reserved w + wn_consumed w"
    and "p' \<noteq> p \<Longrightarrow> mg_windows (manager_Release m p rid) p' = mg_windows m p'"
    using w by (simp_all add: manager_Release_def ledgerFor_def put_ledger_def used_eq update_conv' Let_def)
qed

text \<open>The slice a reservation is admitted to, and its counter.\<close>

definition slice_before :: "(slice_authority \<times> gotime) option \<Rightarrow> gotime \<Rightarrow> f64" where
  "slice_before entry start =
     (case entry of None \<Rightarrow> 0
      | Some (a, start') \<Rightarrow>
          if start' \<noteq> start then 0 else case sa_slices a sliceRegion of None \<Rightarrow> 0 | Some s \<Rightarrow> sc_used s)"

lemma reserve_slice_cases:
  assumes "bp_Consistency policy \<noteq> ''''" and "reserve_slice e policy rid est = (e', r)"
  defines "u \<equiv> slice_before (en_slices e (bp_ID policy)) (bp_WindowStart policy)"
  shows "\<exists>a s. en_slices e' = (en_slices e)(bp_ID policy \<mapsto> (a, bp_WindowStart policy)) \<and> sa_slices a sliceRegion = Some s
    \<and> (case r of None \<Rightarrow> sc_used s = fadd u (f_of_int est) \<and> en_manager e' = en_manager e
       | Some _ \<Rightarrow> sc_used s = u \<and> en_manager e' = manager_Release (en_manager e) (bp_ID policy) rid)"
proof -
  obtain e1 a where au: "authorityFor e policy = (e1, a)" by (cases "authorityFor e policy")
  have e1: "en_manager e1 = en_manager e" "(en_slices e1)(bp_ID policy := x) = (en_slices e)(bp_ID policy := x)" for x
    using au by (auto simp: authorityFor_def Let_def split: option.splits prod.splits if_split_asm)
  have u: "u = (case sa_slices a sliceRegion of None \<Rightarrow> 0 | Some s \<Rightarrow> sc_used s)"
    using au by (auto simp: u_def slice_before_def authorityFor_def ForMode_def NewSliceAuthority_def Let_def
        split: option.splits prod.splits if_split_asm)
  show ?thesis
    using assms(1,2)
    by (auto simp: reserve_slice_def au Let_def release_manager_def e1 slice_Admit_def u
          split: option.splits prod.splits if_split_asm)
qed

lemma slice_before_used:
  assumes m: "mirrors m slices p"
    and forward: "\<forall>st. window_start m p = Some st \<longrightarrow> st \<le> start"
    and u: "u \<noteq> 0 \<longrightarrow> u = budget_used m p \<and> window_start m p = Some start"
      "window_start m p = Some start \<longrightarrow> u = budget_used m p"
  shows "slice_before (slices p) start = of_int u" and "slice_matches (Some start) u (slices p)"
proof -
  have "slice_before (slices p) start = of_int u \<and> slice_matches (Some start) u (slices p)"
  proof (cases "window_start m p")
    case None
    then show ?thesis using m u(1) by (auto simp: mirrors_def slice_matches_def slice_before_def)
  next
    case (Some st)
    then have "st \<le> start" using forward by simp
    with Some m u show ?thesis
      by (auto simp: mirrors_def slice_matches_def slice_before_def split: option.splits if_split_asm)
  qed
  then show "slice_before (slices p) start = of_int u" and "slice_matches (Some start) u (slices p)" by auto
qed

lemma reserve_distributed_view:
  assumes "reserve_distributed ops e policy rid est = (e', r)"
  shows "en_slices e' = en_slices e"
    and "en_manager e' = (case r of None \<Rightarrow> en_manager e
           | Some _ \<Rightarrow> manager_Release (en_manager e) (bp_ID policy) rid)"
  using assms
  by (auto simp: reserve_distributed_def release_manager_def Let_def
        split: option.splits prod.splits sum.splits if_split_asm)

lemma recordTenant_view [simp]:
  "en_manager (recordTenant e p t) = en_manager e" "en_slices (recordTenant e p t) = en_slices e"
  by (simp_all add: recordTenant_def)

definition small_exact :: "int \<Rightarrow> bool" where
  "small_exact n \<longleftrightarrow> 0 \<le> n \<and> n \<le> 2 ^ 51"

lemma enforcer_Reserve_mirrors:
  fixes ops now
  assumes ok: "manager_ok n (en_manager e)" and n: "small_exact (n + 2 ^ 31)" "0 \<le> n" and est: "est \<le> 2 ^ 31"
    and m: "mirrors (en_manager e) (en_slices e) (bp_ID policy)"
    and fresh: "\<And>w. mg_windows (en_manager e) (bp_ID policy) = Some w \<Longrightarrow> map_of (wn_reservations w) rid = None"
    and forward: "\<And>st. window_start (en_manager e) (bp_ID policy) = Some st \<Longrightarrow> st \<le> bp_WindowStart policy"
    and slice: "bp_Consistency policy \<noteq> ''''"
  defines "e' \<equiv> fst (enforcer_Reserve ops e policy rid est now)"
  shows "mirrors (en_manager e') (en_slices e') (bp_ID policy)"
proof -
  let ?p = "bp_ID policy" and ?S = "bp_WindowStart policy" and ?m = "en_manager e"
  have n62: "n + 2 ^ 31 < 2 ^ 62" using n by (simp add: small_exact_def)
  obtain m1 r where mr: "manager_Reserve ?m policy rid est now = (m1, r)" by (cases "manager_Reserve ?m policy rid est now")
  show ?thesis
  proof (cases r)
    case (Inl err)
    have "mirrors m1 (en_slices e) ?p"
      using Reserve_refused_used [OF ok n(2) mr [unfolded Inl] forward] m by blast
    then show ?thesis by (simp add: e'_def enforcer_Reserve_def mr Inl Let_def)
  next
    case (Inr rv)
    obtain w where w: "mg_windows m1 ?p = Some (w\<lparr>wn_reserved := wn_reserved w + est,
          wn_reservations := AList.update rid \<lparr>rs_estimate = est, rs_final = False\<rparr> (wn_reservations w)\<rparr>)"
      "window_ok n w" "map_of (wn_reservations w) rid = None" "wn_start w = ?S" "0 \<le> est"
      and u: "wn_reserved w + wn_consumed w \<noteq> 0 \<longrightarrow> wn_reserved w + wn_consumed w = budget_used ?m ?p
           \<and> (\<exists>v. mg_windows ?m ?p = Some v \<and> wn_start v = ?S)"
        "(\<exists>v. mg_windows ?m ?p = Some v \<and> wn_start v = ?S) \<longrightarrow> wn_reserved w + wn_consumed w = budget_used ?m ?p"
      by (rule Reserve_fresh [OF ok n(2) n62 est mr [unfolded Inr] fresh])
    let ?u = "wn_reserved w + wn_consumed w"
    have fw: "\<forall>st. window_start ?m ?p = Some st \<longrightarrow> st \<le> ?S" using forward by blast
    have u1: "?u \<noteq> 0 \<longrightarrow> ?u = budget_used ?m ?p \<and> window_start ?m ?p = Some ?S" using u(1) by fastforce
    have u2: "window_start ?m ?p = Some ?S \<longrightarrow> ?u = budget_used ?m ?p" using u(2) by fastforce
    note before = slice_before_used(1) [OF m fw u1 u2]
    note keep = slice_before_used(2) [OF m fw u1 u2]
    have range: "0 \<le> ?u" "?u \<le> 2 * n"
      using w(2) window_ok_reserved [OF w(2)] by (auto simp: window_ok_def)
    then have exact: "fadd (of_int ?u) (f_of_int est) = of_int (?u + est)"
      using n est w(5) fl_of_int [of "?u + est"] by (simp add: fadd_def small_exact_def)
    have n62': "n < 2 ^ 62" using n62 by simp
    note rel = Release_back [OF w(1,2) n62']
    have used1: "budget_used m1 ?p = ?u + est" "window_start m1 ?p = Some ?S" using w by (simp_all add: used_eq)
    obtain e1 d where d: "reserve_distributed ops ((recordTenant e ?p (bp_TenantID policy))\<lparr>en_manager := m1\<rparr>) policy rid est = (e1, d)"
      by (cases "reserve_distributed ops ((recordTenant e ?p (bp_TenantID policy))\<lparr>en_manager := m1\<rparr>) policy rid est")
    note dv = reserve_distributed_view [OF d]
    show ?thesis
    proof (cases d)
      case (Some x)
      then have e': "e' = e1" using mr Inr d by (simp add: e'_def enforcer_Reserve_def Let_def)
      have "en_manager e1 = manager_Release m1 ?p rid" "en_slices e1 = en_slices e" using dv Some by simp_all
      then show ?thesis unfolding e' mirrors_def using keep by (simp only: rel(1,2) w(4))
    next
      case None
      obtain e2 r2 where r2: "reserve_slice e1 policy rid est = (e2, r2)" by (cases "reserve_slice e1 policy rid est")
      have e': "e' = e2" using mr Inr d None r2
        by (simp add: e'_def enforcer_Reserve_def Let_def split: option.splits)
      have sl: "en_slices e1 = en_slices e" "en_manager e1 = m1" using dv None by simp_all
      obtain c s where c: "en_slices e2 = (en_slices e)(?p \<mapsto> (c, ?S))" "sa_slices c sliceRegion = Some s"
        "case r2 of None \<Rightarrow> sc_used s = fadd (of_int ?u) (f_of_int est) \<and> en_manager e2 = m1
         | Some _ \<Rightarrow> sc_used s = of_int ?u \<and> en_manager e2 = manager_Release m1 ?p rid"
        using reserve_slice_cases [OF slice r2, unfolded sl before] by blast
      show ?thesis
      proof (cases r2)
        case None
        then have "sc_used s = of_int (?u + est)" and "en_manager e2 = m1" using c(3) exact by simp_all
        then show ?thesis unfolding e' mirrors_def
          by (simp only: used1 c(1) fun_upd_same) (simp add: slice_matches_def c(2))
      next
        case (Some x)
        then have "sc_used s = of_int ?u" and "en_manager e2 = manager_Release m1 ?p rid" using c(3) by simp_all
        then show ?thesis unfolding e' mirrors_def
          by (simp only: rel(1,2) w(4) c(1) fun_upd_same) (simp add: slice_matches_def c(2))
      qed
    qed
  qed
qed

text \<open>Reservations of the current window estimate at least one token.\<close>

definition all_pos :: "manager \<Rightarrow> string \<Rightarrow> bool" where
  "all_pos m p \<longleftrightarrow> (case mg_windows m p of None \<Rightarrow> True
     | Some w \<Rightarrow> list_all (\<lambda>(_, r). 1 \<le> rs_estimate r) (wn_reservations w))"

lemma all_pos_sweep: "all_pos m p \<Longrightarrow> all_pos (budget_sweepLocked m now) p"
  by (auto simp: all_pos_def budget_sweepLocked_def drop_final_def list_all_iff split: option.splits)

lemma all_pos_roll:
  "all_pos m p \<Longrightarrow> all_pos (fst (roll_window m policy now)) p"
  by (auto simp: all_pos_def roll_window_def new_window_def split: option.splits)

lemma all_pos_put:
  "all_pos m p \<Longrightarrow> list_all (\<lambda>(_, r). 1 \<le> rs_estimate r) (wn_reservations w) \<Longrightarrow>
   all_pos (m\<lparr>mg_windows := (mg_windows m)(k \<mapsto> w)\<rparr>) p"
  by (simp add: all_pos_def)

lemma roll_window_current: "mg_windows (fst (roll_window m policy now)) (bp_ID policy) = Some (snd (roll_window m policy now))"
  by (auto simp: roll_window_def split: option.splits)

lemma all_pos_Reserve:
  assumes "all_pos m p" and "all_pos m (bp_ID policy)" and "1 \<le> est"
  shows "all_pos (fst (manager_Reserve m policy rid est now)) p"
proof -
  define m1 w where "m1 = fst (roll_window (budget_sweepLocked m now) policy now)"
    and "w = snd (roll_window (budget_sweepLocked m now) policy now)"
  have split: "roll_window (budget_sweepLocked m now) policy now = (m1, w)" by (simp add: m1_def w_def)
  have pos: "all_pos m1 p" "all_pos m1 (bp_ID policy)"
    using assms(1,2) by (simp_all add: m1_def all_pos_roll all_pos_sweep)
  have "list_all (\<lambda>(_, r). 1 \<le> rs_estimate r) (wn_reservations w)"
    using pos(2) roll_window_current [of "budget_sweepLocked m now" policy now] by (simp add: m1_def w_def all_pos_def)
  then have "list_all (\<lambda>(_, r). 1 \<le> rs_estimate r)
      (AList.update rid \<lparr>rs_estimate = est, rs_final = False\<rparr> (wn_reservations w))"
    using assms(3) by (simp add: list_all_update)
  then show ?thesis using assms(1) pos(1)
    by (auto simp: manager_Reserve_def split Let_def intro!: all_pos_put split: option.splits)
qed

lemma all_pos_settle:
  assumes "all_pos m p" and l: "ledgerFor m p' rid = Some (current, w)"
    and "wn_reservations v = AList.update rid ((the (map_of (wn_reservations w) rid))\<lparr>rs_final := True\<rparr>) (wn_reservations w)"
  shows "all_pos (put_ledger m p' current v) p"
  using l
proof (cases rule: ledgerFor_cases)
  case (1 r)
  have "list_all (\<lambda>(_, r). 1 \<le> rs_estimate r) (wn_reservations v)" if "p = p'"
  proof -
    have all: "list_all (\<lambda>(_, r). 1 \<le> rs_estimate r) (wn_reservations w)"
      using assms(1) 1 that by (simp add: all_pos_def)
    moreover from all have "1 \<le> rs_estimate r" using 1(1) by (auto simp: list_all_iff dest: map_of_SomeD)
    ultimately show ?thesis using assms(3) 1(1) by (simp add: list_all_update)
  qed
  then show ?thesis using assms(1) 1 by (simp add: put_ledger_def all_pos_def)
next
  case (2 r rw)
  then show ?thesis using assms(1) by (simp add: put_ledger_def all_pos_def)
qed

lemma all_pos_Reconcile: "all_pos m p \<Longrightarrow> all_pos (fst (manager_Reconcile m p' rid a)) p"
  by (auto simp: manager_Reconcile_def Let_def intro!: all_pos_settle split: option.splits)
     (simp_all add: settle_def)

lemma settle_start [simp]: "wn_start (settle w rid r a) = wn_start w"
  by (simp add: settle_def)

text \<open>A settlement keeps the window, and can change its usage only when there was some.\<close>

lemma Reconcile_view:
  fixes p' rid a
  assumes ok: "manager_ok n m" and pos: "all_pos m p"
  defines "m' \<equiv> fst (manager_Reconcile m p' rid a)"
  shows "window_start m' p = window_start m p" and "budget_used m' p = budget_used m p \<or> (p' = p \<and> budget_used m p \<noteq> 0)"
proof -
  have "window_start m' p = window_start m p \<and> (budget_used m' p = budget_used m p \<or> (p' = p \<and> budget_used m p \<noteq> 0))"
  proof (cases "ledgerFor m p' rid")
    case None
    then show ?thesis by (simp add: m'_def manager_Reconcile_def)
  next
    case (Some cw)
    obtain current w where cw: "cw = (current, w)" by (cases cw)
    define r where "r = the (map_of (wn_reservations w) rid)"
    have m': "m' = m \<or> (\<not> rs_final r \<and> m' = put_ledger m p' current (settle w rid r a))"
      by (simp add: m'_def manager_Reconcile_def Some cw r_def Let_def)
    from Some [unfolded cw] show ?thesis
    proof (cases rule: ledgerFor_cases)
      case (1 r')
      show ?thesis
      proof (cases "m' = m \<or> p' \<noteq> p")
        case True
        then show ?thesis using m' 1 by (auto simp: put_ledger_def used_put)
      next
        case False
        then have open_r: "\<not> rs_final r" "m' = put_ledger m p True (settle w rid r a)" "p' = p" using m' 1 by auto
        have wok: "window_ok n w" using ok 1 by (simp add: manager_ok_def)
        have "1 \<le> rs_estimate r"
          using pos 1 open_r(3) by (auto simp: r_def all_pos_def list_all_iff dest: map_of_SomeD)
        moreover have "rs_estimate r \<le> wn_reserved w"
          using open_total_member(2) [of "wn_reservations w" rid r] wok 1(1) open_r(1) by (simp add: window_ok_def r_def)
        ultimately have "budget_used m p \<noteq> 0" using wok 1(3) open_r(3) by (simp add: used_eq window_ok_def)
        then show ?thesis using open_r 1(3) by (simp add: put_ledger_def)
      qed
    next
      case (2 r' rw)
      then show ?thesis using m' by (auto simp: put_ledger_def used_eq)
    qed
  qed
  then show "window_start m' p = window_start m p"
    and "budget_used m' p = budget_used m p \<or> (p' = p \<and> budget_used m p \<noteq> 0)" by auto
qed

lemma used_range:
  assumes "manager_ok n m" and "0 \<le> n"
  shows "0 \<le> budget_used m p \<and> budget_used m p \<le> 2 * n"
proof (cases "mg_windows m p")
  case (Some w)
  then have w: "window_ok n w" using assms(1) by (simp add: manager_ok_def)
  with window_ok_reserved [OF w] show ?thesis by (simp add: used_eq Some window_ok_def)
qed (simp add: used_eq assms)

lemma syncSlice_mirrors:
  assumes m: "mirrors m (en_slices e) p"
    and start: "window_start (en_manager e) p = window_start m p"
    and used: "budget_used (en_manager e) p = budget_used m p \<or> (p' = p \<and> budget_used m p \<noteq> 0)"
    and ok: "manager_ok n (en_manager e)" "small_exact n"
  shows "mirrors (en_manager (syncSlice e p')) (en_slices (syncSlice e p')) p"
proof (cases "p' = p")
  case False
  then have "en_slices (syncSlice e p') p = en_slices e p" and "en_manager (syncSlice e p') = en_manager e"
    by (simp_all add: syncSlice_def Let_def split: option.splits prod.splits)
  then show ?thesis using m start used False by (simp add: mirrors_def)
next
  case True
  let ?u = "budget_used (en_manager e) p"
  have "0 \<le> ?u \<and> ?u \<le> 2 * n"
    using ok by (intro used_range) (simp_all add: small_exact_def)
  then have exact: "f_of_int (i64 ?u) = of_int ?u" using ok(2) by (simp add: small_exact_def in_i64_def)
  have sync: "syncSlice e p = (case en_slices e p of None \<Rightarrow> e
      | Some (a, st) \<Rightarrow> e\<lparr>en_slices := (en_slices e)(p \<mapsto> (fst (slice_Reconcile a sliceRegion (of_int ?u)), st))\<rparr>)"
    unfolding exact [symmetric] by (simp only: syncSlice_def budget_used_def Let_def case_prod_beta)
  show ?thesis
  proof (cases "en_slices e p")
    case None
    then have "budget_used m p = 0 \<or> window_start m p = None"
      using m by (cases "window_start m p") (simp_all add: mirrors_def slice_matches_def)
    then have "?u = 0 \<or> window_start m p = None" using used by auto
    then show ?thesis unfolding True sync mirrors_def None option.case start
      by (cases "mg_windows m p") (simp_all add: slice_matches_def None)
  next
    case (Some x)
    obtain a st where x: "x = (a, st)" by (cases x)
    obtain s st' where s: "sa_slices a sliceRegion = Some s" "window_start m p = Some st'" "st \<le> st'"
        "st \<noteq> st' \<longrightarrow> budget_used m p = 0"
      using m Some x by (auto simp: mirrors_def slice_matches_def split: option.splits if_split_asm)
    then have "st \<noteq> st' \<longrightarrow> ?u = 0" using used by auto
    moreover have "window_start (en_manager e) p = Some st'" using s start by simp
    ultimately have "slice_matches (window_start (en_manager e) p) ?u
        (Some (fst (slice_Reconcile a sliceRegion (of_int ?u)), st))"
      using s(1,3) by (simp only: slice_matches_def option.case prod.case) (simp add: slice_Reconcile_def)
    then show ?thesis unfolding True sync mirrors_def Some x by simp
  qed
qed

subsection \<open>Runs of the enforcer\<close>

datatype enforcer_call =
    EReserve budget_policy string int gotime
  | EReconcile string string int
  | ERelease string string
  | ESweep gotime

definition enforcer_step :: "'s ledger_ops \<Rightarrow> 's enforcer \<Rightarrow> enforcer_call \<Rightarrow> 's enforcer" where
  "enforcer_step ops e c =
     (case c of EReserve policy rid est now \<Rightarrow> fst (enforcer_Reserve ops e policy rid est now)
      | EReconcile p rid a \<Rightarrow> fst (enforcer_Reconcile ops e p rid a)
      | ERelease p rid \<Rightarrow> enforcer_Release ops e p rid
      | ESweep now \<Rightarrow> enforcer_Sweep ops e now)"

text \<open>
  How the gateway uses the enforcer: a new identifier per reservation, windows that move
  forward, estimates of at least one token, and a policy that declares its consistency.
\<close>

definition enforcer_call_ok :: "string \<Rightarrow> 's enforcer \<Rightarrow> enforcer_call \<Rightarrow> bool" where
  "enforcer_call_ok p e c \<longleftrightarrow>
     (case c of
        EReserve policy rid est now \<Rightarrow> 1 \<le> est \<and> est \<le> 2 ^ 31
          \<and> (bp_ID policy = p \<longrightarrow> bp_Consistency policy \<noteq> ''''
             \<and> (case mg_windows (en_manager e) p of None \<Rightarrow> True
                | Some w \<Rightarrow> map_of (wn_reservations w) rid = None \<and> wn_start w \<le> bp_WindowStart policy))
      | EReconcile p' rid a \<Rightarrow> a \<le> 2 ^ 31
      | _ \<Rightarrow> True)"

fun enforcer_run_ok :: "'s ledger_ops \<Rightarrow> string \<Rightarrow> 's enforcer \<Rightarrow> enforcer_call list \<Rightarrow> bool" where
  "enforcer_run_ok ops p e [] \<longleftrightarrow> True"
| "enforcer_run_ok ops p e (c # cs) \<longleftrightarrow>
     enforcer_call_ok p e c \<and> enforcer_run_ok ops p (enforcer_step ops e c) cs"

lemma syncSlice_manager [simp]: "en_manager (syncSlice e p) = en_manager e"
  by (simp add: syncSlice_def Let_def split: option.splits prod.splits)

lemma reserve_slice_other:
  assumes "reserve_slice e policy rid est = (e', r)"
  shows "p \<noteq> bp_ID policy \<Longrightarrow> en_slices e' p = en_slices e p"
    and "en_manager e' \<in> {en_manager e, manager_Release (en_manager e) (bp_ID policy) rid}"
  using assms
  by (auto simp: reserve_slice_def authorityFor_def release_manager_def Let_def
        split: option.splits prod.splits if_split_asm)

text \<open>Whatever path a reservation takes, the manager is the reserved one, or that one released.\<close>

lemma enforcer_Reserve_view:
  fixes ops :: "'s ledger_ops" and e policy rid est now
  defines "m1 \<equiv> fst (manager_Reserve (en_manager e) policy rid est now)"
  defines "e' \<equiv> fst (enforcer_Reserve ops e policy rid est now)"
  shows "en_manager e' \<in> {m1, manager_Release m1 (bp_ID policy) rid}"
    and "p \<noteq> bp_ID policy \<Longrightarrow> en_slices e' p = en_slices e p"
proof -
  obtain m2 r where mr: "manager_Reserve (en_manager e) policy rid est now = (m2, r)"
    by (cases "manager_Reserve (en_manager e) policy rid est now")
  have m2: "m2 = m1" by (simp add: m1_def mr)
  let ?e = "(recordTenant e (bp_ID policy) (bp_TenantID policy))\<lparr>en_manager := m1\<rparr>"
  obtain e1 d where d: "reserve_distributed ops ?e policy rid est = (e1, d)" by (cases "reserve_distributed ops ?e policy rid est")
  obtain e2 s where s: "reserve_slice e1 policy rid est = (e2, s)" by (cases "reserve_slice e1 policy rid est")
  note dv = reserve_distributed_view [OF d] and sv = reserve_slice_other [OF s]
  have cases: "e' = ?e \<or> (d \<noteq> None \<and> e' = e1) \<or> (d = None \<and> e' = e2)"
    by (cases r) (simp_all add: e'_def enforcer_Reserve_def mr m2 d s Let_def split: option.splits)
  have sl1: "en_slices e1 = en_slices e" using dv(1) by simp
  show "en_manager e' \<in> {m1, manager_Release m1 (bp_ID policy) rid}"
  proof (cases d)
    case None
    then have "en_manager e1 = m1" using dv(2) by simp
    then show ?thesis using cases sv(2) None by auto
  next
    case (Some x)
    then have "en_manager e1 = manager_Release m1 (bp_ID policy) rid" using dv(2) by simp
    then show ?thesis using cases Some by auto
  qed
  show "p \<noteq> bp_ID policy \<Longrightarrow> en_slices e' p = en_slices e p"
    using cases sv(1) sl1 by auto
qed

lemma Reserve_other:
  assumes "p \<noteq> bp_ID policy"
  shows "window_start (fst (manager_Reserve m policy rid est now)) p = window_start m p"
proof -
  have "window_start (budget_sweepLocked m now) p = window_start m p"
    by (simp add: budget_sweepLocked_def drop_final_def option.map_comp comp_def)
  moreover have "mg_windows (fst (roll_window m' policy now)) p = mg_windows m' p" for m'
    using assms by (auto simp: roll_window_def split: option.splits)
  ultimately show ?thesis using assms
    by (auto simp: manager_Reserve_def Let_def split: prod.splits option.splits) (metis fst_conv option.simps(9))+
qed

definition enforcer_inv :: "int \<Rightarrow> 's enforcer \<Rightarrow> string \<Rightarrow> bool" where
  "enforcer_inv n e p \<longleftrightarrow> manager_ok n (en_manager e) \<and> (\<forall>q. all_pos (en_manager e) q)
     \<and> mirrors (en_manager e) (en_slices e) p"

lemma enforcer_settle_inv:
  assumes inv: "enforcer_inv n e p" and n: "0 \<le> n" "small_exact (n + 2 ^ 31)" and a: "a \<le> 2 ^ 31"
    and e': "en_manager e' = fst (manager_Reconcile (en_manager e) p' rid a)" "en_slices e' = en_slices e"
  shows "enforcer_inv (n + 2 ^ 31) (syncSlice e' p') p"
proof -
  have n62: "n + 2 ^ 31 < 2 ^ 62" using n by (simp add: small_exact_def)
  have ok: "manager_ok (n + 2 ^ 31) (en_manager e')"
    unfolding e' by (rule manager_ok_Reconcile [OF _ n62 a]) (use inv in \<open>simp add: enforcer_inv_def\<close>)
  have pos: "all_pos (en_manager e) q" for q using inv by (simp add: enforcer_inv_def)
  have "manager_ok n (en_manager e)" using inv by (simp add: enforcer_inv_def)
  note view = Reconcile_view [OF this pos, of p' rid a p]
  have "mirrors (en_manager e) (en_slices e') p" using inv by (simp add: enforcer_inv_def e')
  then have "mirrors (en_manager (syncSlice e' p')) (en_slices (syncSlice e' p')) p"
    using view ok n by (intro syncSlice_mirrors [where m = "en_manager e" and n = "n + 2 ^ 31"]) (simp_all add: e')
  then show ?thesis using ok pos by (simp add: enforcer_inv_def e' all_pos_Reconcile)
qed

lemma enforcer_Reserve_inv:
  assumes inv: "enforcer_inv n e p" and n: "0 \<le> n" "small_exact (n + 2 * 2 ^ 31)"
    and c: "enforcer_call_ok p e (EReserve policy rid est now)"
  shows "enforcer_inv (n + 2 * 2 ^ 31) (fst (enforcer_Reserve ops e policy rid est now)) p"
proof -
  define m1 where "m1 = fst (manager_Reserve (en_manager e) policy rid est now)"
  define e' where "e' = fst (enforcer_Reserve ops e policy rid est now)"
  have est: "1 \<le> est" "est \<le> 2 ^ 31" using c by (simp_all add: enforcer_call_ok_def)
  have ok0: "manager_ok n (en_manager e)" and pos0: "\<And>q. all_pos (en_manager e) q"
    and mir: "mirrors (en_manager e) (en_slices e) p" using inv by (auto simp: enforcer_inv_def)
  have n62: "n + 2 ^ 31 < 2 ^ 62" "n + 2 ^ 31 + 2 ^ 31 < 2 ^ 62" using n by (simp_all add: small_exact_def)
  have ok1: "manager_ok (n + 2 ^ 31) m1" using manager_ok_Reserve [OF ok0 n(1) n62(1) est(2)] by (simp add: m1_def)
  have pos1: "all_pos m1 q" for q using all_pos_Reserve [OF pos0 pos0 est(1)] by (simp add: m1_def)
  have rel: "manager_Release m1 (bp_ID policy) rid = fst (manager_Reconcile m1 (bp_ID policy) rid 0)"
    using ok1 n62 by (intro manager_Release_Reconcile) auto
  have okr: "manager_ok (n + 2 * 2 ^ 31) (manager_Release m1 (bp_ID policy) rid)"
    using manager_ok_Reconcile [OF ok1 n62(2), of 0 "bp_ID policy" rid] unfolding rel by (simp add: add.commute)
  have ok2: "manager_ok (n + 2 * 2 ^ 31) m1" by (rule manager_ok_mono [OF ok1]) simp
  note view = enforcer_Reserve_view [where ops = ops and e = e and policy = policy and rid = rid and est = est and now = now,
      folded m1_def e'_def]
  have ok': "manager_ok (n + 2 * 2 ^ 31) (en_manager e')" using view(1) ok2 okr by auto
  have pos': "all_pos (en_manager e') q" for q
    using view(1) pos1 all_pos_Reconcile [OF pos1] unfolding rel by auto
  have "mirrors (en_manager e') (en_slices e') p"
  proof (cases "bp_ID policy = p")
    case True
    have n31: "small_exact (n + 2 ^ 31)" using n by (simp add: small_exact_def)
    show ?thesis unfolding e'_def True [symmetric]
    proof (rule enforcer_Reserve_mirrors [OF ok0 n31 n(1) est(2)])
      show "mirrors (en_manager e) (en_slices e) (bp_ID policy)" using mir True by simp
      show "map_of (wn_reservations w) rid = None" if "mg_windows (en_manager e) (bp_ID policy) = Some w" for w
        using c True that by (simp add: enforcer_call_ok_def)
      show "st \<le> bp_WindowStart policy" if "window_start (en_manager e) (bp_ID policy) = Some st" for st
        using c True that by (auto simp: enforcer_call_ok_def)
      show "bp_Consistency policy \<noteq> ''''" using c True by (simp add: enforcer_call_ok_def)
    qed
  next
    case False
    have "budget_used m1 p = budget_used (en_manager e) p" "window_start m1 p = window_start (en_manager e) p"
      using used_Reserve(1) [OF ok0 n(1) n62(1) est(2)] Reserve_other False by (simp_all add: m1_def)
    moreover have "budget_used (en_manager e') p = budget_used m1 p" "window_start (en_manager e') p = window_start m1 p"
      using view(1) Reconcile_view [OF ok1 pos1, of "bp_ID policy" rid 0 p] False unfolding rel by auto
    ultimately show ?thesis using mir view(2) False by (simp add: mirrors_def)
  qed
  then show ?thesis using ok' pos' by (simp add: enforcer_inv_def e'_def)
qed

lemma enforcer_step_inv:
  assumes inv: "enforcer_inv n e p" and n: "0 \<le> n" "small_exact (n + 2 ^ 32)" and c: "enforcer_call_ok p e c"
  shows "enforcer_inv (n + 2 ^ 32) (enforcer_step ops e c) p"
proof -
  have weaken: "enforcer_inv (n + 2 ^ 32) x p" if "enforcer_inv (n + 2 ^ 31) x p" for x :: "'a enforcer"
    using that manager_ok_mono [of "n + 2 ^ 31" "en_manager x" "n + 2 ^ 32"] by (simp add: enforcer_inv_def)
  have n': "small_exact (n + 2 ^ 31)" using n by (simp add: small_exact_def)
  have ok: "manager_ok n (en_manager e)" using inv by (simp add: enforcer_inv_def)
  show ?thesis
  proof (cases c)
    case (EReserve policy rid est now)
    then show ?thesis
      using enforcer_Reserve_inv [OF inv n(1), of policy rid est now ops] n(2) c by (simp add: enforcer_step_def)
  next
    case (EReconcile p' rid a)
    have a: "a \<le> 2 ^ 31" using c EReconcile by (simp add: enforcer_call_ok_def)
    show ?thesis
    proof (cases "snd (manager_Reconcile (en_manager e) p' rid a)")
      case None
      then have "\<exists>e'. enforcer_step ops e c = syncSlice e' p' \<and> en_slices e' = en_slices e
          \<and> en_manager e' = fst (manager_Reconcile (en_manager e) p' rid a)"
        by (auto simp: EReconcile enforcer_step_def enforcer_Reconcile_def Let_def split: prod.splits option.splits)
      then show ?thesis using weaken enforcer_settle_inv [OF inv n(1) n' a] by metis
    next
      case (Some x)
      then have "fst (manager_Reconcile (en_manager e) p' rid a) = en_manager e"
        by (auto simp: manager_Reconcile_def Let_def split: option.splits if_split_asm)
      with Some have "manager_Reconcile (en_manager e) p' rid a = (en_manager e, Some x)"
        by (simp add: prod_eq_iff)
      then have "enforcer_step ops e c = e"
        by (simp add: EReconcile enforcer_step_def enforcer_Reconcile_def)
      then show ?thesis using inv manager_ok_mono [OF ok, of "n + 2 ^ 32"] by (simp add: enforcer_inv_def)
    qed
  next
    case (ERelease p' rid)
    have "manager_Release (en_manager e) p' rid = fst (manager_Reconcile (en_manager e) p' rid 0)"
      using ok n by (intro manager_Release_Reconcile) (auto simp: small_exact_def)
    then have "\<exists>e'. enforcer_step ops e c = syncSlice e' p' \<and> en_slices e' = en_slices e
        \<and> en_manager e' = fst (manager_Reconcile (en_manager e) p' rid 0)"
      by (auto simp: ERelease enforcer_step_def enforcer_Release_def release_manager_def Let_def split: option.splits)
    moreover have "(0 :: int) \<le> 2 ^ 31" by simp
    ultimately show ?thesis using weaken enforcer_settle_inv [OF inv n(1) n'] by metis
  next
    case (ESweep now)
    let ?m = "manager_Sweep (en_manager e) now"
    have "manager_ok n ((en_manager e)\<lparr>mg_lastSweep := zero_time\<rparr>)"
      "\<And>q. all_pos ((en_manager e)\<lparr>mg_lastSweep := zero_time\<rparr>) q"
      using inv by (simp_all add: enforcer_inv_def manager_ok_def all_pos_def)
    then have "manager_ok n ?m" "\<And>q. all_pos ?m q"
      by (simp_all add: manager_Sweep_def manager_ok_sweep all_pos_sweep)
    moreover have "window_start ?m p = window_start (en_manager e) p"
      by (simp add: manager_Sweep_def budget_sweepLocked_def drop_final_def option.map_comp comp_def)
    ultimately have "enforcer_inv n (enforcer_Sweep ops e now) p"
      using inv by (simp add: enforcer_inv_def enforcer_Sweep_def mirrors_def Let_def split: option.splits)
    then show ?thesis using manager_ok_mono [of n _ "n + 2 ^ 32"] by (simp add: ESweep enforcer_step_def enforcer_inv_def)
  qed
qed

lemma enforcer_run_inv:
  "enforcer_inv n e p \<Longrightarrow> 0 \<le> n \<Longrightarrow> n + 2 ^ 32 * int (length cs) \<le> 2 ^ 51 \<Longrightarrow> enforcer_run_ok ops p e cs \<Longrightarrow>
   enforcer_inv (n + 2 ^ 32 * int (length cs)) (foldl (enforcer_step ops) e cs) p"
proof (induction cs arbitrary: e n)
  case (Cons c cs)
  have n: "small_exact (n + 2 ^ 32)" using Cons.prems by (simp add: small_exact_def)
  have "enforcer_inv (n + 2 ^ 32) (enforcer_step ops e c) p"
    by (rule enforcer_step_inv [OF Cons.prems(1,2) n]) (use Cons.prems(4) in simp)
  from Cons.IH [OF this] Cons.prems(2-4) show ?case by (simp add: algebra_simps)
qed simp

subsection \<open>Properties of the enforcer\<close>


definition memory_ops :: "memory_ledger ledger_ops" where
  "memory_ops = \<lparr>lo_Reserve = mem_Reserve, lo_Reconcile = mem_Reconcile, lo_Release = mem_Release,
     lo_Sweep = mem_Sweep\<rparr>"

definition regional_policy :: budget_policy where
  "regional_policy = day_policy\<lparr>bp_Mode := ''soft'', bp_Consistency := ''regional''\<rparr>"

definition enforcer_example :: "enforcer_call list" where
  "enforcer_example = [EReserve regional_policy ''a'' 60 second, EReconcile ''p'' ''a'' 40]"

lemmas enforcer_eval = enforcer_step_def enforcer_Reserve_def enforcer_Reconcile_def newBudgetEnforcer_def recordTenant_def
  reserve_distributed_def reserve_slice_def authorityFor_def ForMode_def NewSliceAuthority_def slice_Admit_def
  consistencyMode_def syncSlice_def slice_Reconcile_def manager_Reserve_def manager_Reconcile_def ledgerFor_def
  settle_def put_ledger_def valid_reservation_def roll_window_def budget_sweepLocked_def manager_New_def t_sub_def
  new_window_def manager_Usage_def regional_policy_def day_policy_def fadd_def in_i64_def Let_def


text \<open>
  A slice keeps the limit it was opened with. When the limit of a policy is raised within a
  window, a reservation the manager and the shared ledger admit under the new limit is
  rejected by the slice under the old one; the manager is rolled back, the shared ledger is
  not.
\<close>

definition raised_policy :: budget_policy where
  "raised_policy = regional_policy\<lparr>bp_TokenLimit := 1000\<rparr>"

definition before_raise :: "memory_ledger enforcer" where
  "before_raise = enforcer_step memory_ops
     (withDistributedLedger (newBudgetEnforcer (manager_New 0)) NewMemoryBudgetLedger None)
     (EReserve regional_policy ''a'' 60 second)"

lemma raised_limit_leaks:
  defines "r \<equiv> enforcer_Reserve memory_ops before_raise raised_policy ''b'' 200 second"
  shows "snd r = Inl (SliceError ErrSliceOvershoot)"
    and "enforcer_Usage (fst r) ''p'' = (60, 0)"
    and "map_option (\<lambda>s. ml_windows s ''t'' (bw_Key (hd (distributedWindows raised_policy)))) (en_distributed (fst r))
           = Some 260"
  unfolding r_def before_raise_def
  by (simp_all add: raised_policy_def enforcer_eval withDistributedLedger_def memory_ops_def failmode_Reserve_def
        distributedWindows_def mem_Reserve_def NewMemoryBudgetLedger_def add_windows_def enforcer_Usage_def
        release_manager_def manager_Release_def)

text \<open>
  Reserving the same identifier twice is idempotent for the manager and not for the slice.
\<close>

lemma reserve_twice_diverges:
  defines "e \<equiv> foldl (enforcer_step memory_ops) (newBudgetEnforcer (manager_New 0))
      [EReserve regional_policy ''a'' 40 second, EReserve regional_policy ''a'' 40 second]"
  shows "enforcer_Usage e ''p'' = (40, 0)"
    and "map_option (\<lambda>(a, _). map_option sc_used (sa_slices a sliceRegion)) (en_slices e ''p'') = Some (Some 80)"
  unfolding e_def by (simp_all add: enforcer_eval enforcer_Usage_def)



end
