(* ===== verification/Snapshot.thy ===== *)
theory Snapshot
  imports Go_Float "HOL-Library.List_Lexorder" "HOL-Library.Char_ord"
begin

text \<open>
  The immutable tenant snapshot of \<^verbatim>\<open>internal/kernel/runtime/snapshot.go\<close>: the compiled
  records, the indexes built from the published data, the look-ups the data plane uses, and
  the registry that swaps snapshots per tenant. Values are immutable here, so the copies the
  getters make are the values themselves. A Go map is an association list with distinct
  keys; where the code ranges over one, the order of the list stands for the unspecified
  iteration order. Strings are ordered byte by byte, as in Go.
\<close>

subsection \<open>Records\<close>

record drain_config =
  dc_DrainTimeoutMS :: int
  dc_StreamDrainTimeoutMS :: int
  dc_ForceShutdownTimeoutMS :: int

record secret_cache_config =
  sk_TTLMS :: int
  sk_StaleGraceMS :: int
  sk_RotationOverlapMS :: int

record global_runtime =
  gr_Version :: int
  gr_PublishedAt :: gotime
  gr_pepperRefs :: "(int \<times> string) list"
  gr_drain :: drain_config
  gr_secretCache :: secret_cache_config

record project =
  pj_ID :: string
  pj_Status :: string
  pj_AllowedDataRegions :: "string list"
  pj_ResidencyEnforcement :: string

record provider =
  pv_ID :: string
  pv_OwnerScope :: string
  pv_Type :: string
  pv_Endpoint :: string
  pv_Status :: string

record credential =
  cr_ID :: string
  cr_ProviderID :: string
  cr_OwnerScope :: string
  cr_SecretRef :: string
  cr_Status :: string

record deployment =
  dp_ID :: string
  dp_ProviderID :: string
  dp_CredentialID :: string
  dp_UpstreamModel :: string
  dp_DataRegion :: string
  dp_Status :: string
  dp_PoolID :: string
  dp_Capabilities :: "string list"
  dp_ContextWindow :: int
  dp_Priority :: int

record route_policy =
  rp_ID :: string
  rp_ProjectID :: string
  rp_Strategy :: string
  rp_DeploymentIDs :: "string list"
  rp_Weights :: "(string \<times> int) list"
  rp_ScoreWeights :: "(string \<times> f64) list"
  rp_Version :: int

record logical_model =
  lm_ID :: string
  lm_Alias :: string
  lm_RoutePolicyID :: string

record api_key =
  ak_ID :: string
  ak_PublicID :: string
  ak_ProjectID :: string
  ak_ApplicationID :: string
  ak_AgentID :: string
  ak_ServiceAccountID :: string
  ak_Status :: string
  ak_HMACDigest :: string
  ak_PepperVersion :: int
  ak_ExpiresAt :: "gotime option"
  ak_ModelAllowlist :: "string list"
  ak_IPAllowlist :: "string list"

record rt_budget_policy =
  rb_ID :: string
  rb_TenantID :: string
  rb_ProjectID :: string
  rb_KeyID :: string
  rb_WindowHours :: int
  rb_TokenLimit :: f64
  rb_Mode :: string
  rb_Consistency :: string

record spool_policy =
  sp_Mode :: string
  sp_WarnThreshold :: f64
  sp_CriticalThreshold :: f64
  sp_HardThreshold :: f64
  sp_QuotaBytes :: int

record semantic_cache_policy =
  sm_Enabled :: bool
  sm_Model :: string
  sm_Threshold :: f64

record cache_policy =
  cp_Enabled :: bool
  cp_TTLSeconds :: int
  cp_NamespaceVersion :: int
  cp_AllowedKinds :: "string list"
  cp_MaxTemperature :: f64
  cp_Semantic :: semantic_cache_policy

record mcp_server =
  ms_ID :: string
  ms_URL :: string
  ms_Status :: string

record tool =
  tl_ID :: string
  tl_ServerID :: string
  tl_Name :: string
  tl_DataClassification :: string
  tl_Endpoint :: string
  tl_Status :: string
  tl_Schema :: string
  tl_CapabilityTags :: "string list"

record tool_policy =
  tp_ToolID :: string
  tp_ProjectID :: string
  tp_AllowedAgentIDs :: "string list"
  tp_Allowed :: bool
  tp_RequireApproval :: bool

record agent =
  ag_ID :: string
  ag_ProjectID :: string
  ag_Name :: string
  ag_Status :: string
  ag_CurrentVersion :: string
  ag_Capabilities :: "string list"
  ag_RequireApproval :: bool

record agent_endpoint =
  ae_ID :: string
  ae_AgentID :: string
  ae_Version :: string
  ae_URL :: string
  ae_Protocol :: string
  ae_AuthScheme :: string
  ae_SecretRef :: string
  ae_Headers :: "(string \<times> string) list"
  ae_DataClassification :: string
  ae_Capabilities :: "string list"

record federated_agent =
  fa_ID :: string
  fa_Name :: string
  fa_ExternalSubject :: string
  fa_Status :: string
  fa_TrustBoundary :: string

record federation_relationship =
  fr_ID :: string
  fr_ExternalAgentID :: string
  fr_Status :: string
  fr_AssuranceLevel :: string
  fr_HasVerifiedAnchor :: bool
  fr_Direction :: string
  fr_ProjectGrants :: "string list"
  fr_CapabilityGrants :: "string list"
  fr_BoundaryStatus :: string
  fr_ProcessingRegions :: "string list"
  fr_ApprovedVersion :: string

record guardrail_rule =
  gl_ID :: string
  gl_Kind :: string
  gl_Pattern :: string
  gl_Action :: string
  gl_Replacement :: string

record guardrail_judge =
  gj_Enabled :: bool
  gj_Model :: string
  gj_Action :: string

record guardrail_groundedness =
  gg_Enabled :: bool
  gg_MinOverlap :: f64

record guardrail_policy =
  gp_Mode :: string
  gp_SecurityEpoch :: int
  gp_Rules :: "guardrail_rule list"
  gp_Judge :: guardrail_judge
  gp_Groundedness :: guardrail_groundedness

record pool_member =
  pm_CredentialID :: string
  pm_Weight :: int

record credential_pool =
  cq_ID :: string
  cq_ProviderID :: string
  cq_TenantID :: string
  cq_Strategy :: string
  cq_Members :: "pool_member list"

record lease_config =
  lc_DeploymentID :: string
  lc_Capacity :: int
  lc_TTLSeconds :: int

record rt_circuit_config =
  rc_MinSamples :: int
  rc_ErrorRate :: f64
  rc_InitialCooldownMS :: int
  rc_MaxCooldownMS :: int
  rc_CooldownFactor :: f64

record drift_metadata =
  dm_Version :: int
  dm_GraceMS :: int
  dm_Strict :: bool
  dm_SecurityEpoch :: int

record tenant_data =
  td_TenantID :: string
  td_TenantRef :: string
  td_Status :: string
  td_Version :: int
  td_SecurityEpoch :: int
  td_PublishedAt :: gotime
  td_Projects :: "project list"
  td_Providers :: "provider list"
  td_Credentials :: "credential list"
  td_Deployments :: "deployment list"
  td_RoutePolicies :: "route_policy list"
  td_LogicalModels :: "logical_model list"
  td_APIKeys :: "api_key list"
  td_BudgetPolicies :: "rt_budget_policy list"
  td_CredentialPools :: "credential_pool list"
  td_Leases :: "lease_config list"
  td_Circuit :: rt_circuit_config
  td_Drift :: drift_metadata
  td_Spool :: spool_policy
  td_Cache :: cache_policy
  td_MCPServers :: "mcp_server list"
  td_Tools :: "tool list"
  td_ToolPolicies :: "tool_policy list"
  td_Agents :: "agent list"
  td_AgentEndpoints :: "agent_endpoint list"
  td_FederatedAgents :: "federated_agent list"
  td_FederationRelationships :: "federation_relationship list"
  td_Guardrail :: guardrail_policy

record tenant_snapshot =
  ts_TenantID :: string
  ts_TenantRef :: string
  ts_Status :: string
  ts_Version :: int
  ts_SecurityEpoch :: int
  ts_PublishedAt :: gotime
  ts_projects :: "(string \<times> project) list"
  ts_providers :: "(string \<times> provider) list"
  ts_credentials :: "(string \<times> credential) list"
  ts_deployments :: "(string \<times> deployment) list"
  ts_routePolicies :: "(string \<times> route_policy) list"
  ts_logicalModels :: "(string \<times> logical_model) list"
  ts_apiKeys :: "(string \<times> api_key) list"
  ts_budgetPolicies :: "(string \<times> rt_budget_policy) list"
  ts_credentialPools :: "(string \<times> credential_pool) list"
  ts_leases :: "(string \<times> lease_config) list"
  ts_circuit :: rt_circuit_config
  ts_drift :: drift_metadata
  ts_spool :: spool_policy
  ts_cache :: cache_policy
  ts_mcpServers :: "(string \<times> mcp_server) list"
  ts_tools :: "(string \<times> tool) list"
  ts_toolPolicies :: "(string \<times> tool_policy) list"
  ts_agents :: "(string \<times> agent) list"
  ts_agentEndpoints :: "(string \<times> agent_endpoint) list"
  ts_capabilityIndex :: "(string \<times> string list) list"
  ts_federatedAgents :: "(string \<times> federated_agent) list"
  ts_federatedRels :: "(string \<times> federation_relationship) list"
  ts_guardrail :: guardrail_policy
  ts_sourceData :: tenant_data

subsection \<open>Compiling the indexes\<close>

text \<open>\<^verbatim>\<open>for _, item := range xs { m[key(item)] = item }\<close>.\<close>

definition index_by :: "('a \<Rightarrow> string) \<Rightarrow> 'a list \<Rightarrow> (string \<times> 'a) list" where
  "index_by key xs = fold (\<lambda>x m. AList.update (key x) x m) xs []"

text \<open>Reading a map of lists gives the empty list for a missing key.\<close>

definition lookup_list :: "(string \<times> 'a list) list \<Rightarrow> string \<Rightarrow> 'a list" where
  "lookup_list m k = (case map_of m k of None \<Rightarrow> [] | Some xs \<Rightarrow> xs)"

definition indexCapabilities ::
  "string \<Rightarrow> string list \<Rightarrow> (string \<times> string list) list \<Rightarrow> (string \<times> string list) list" where
  "indexCapabilities agentID capabilities index =
     fold (\<lambda>capability index.
             let existing = lookup_list index capability
             in if agentID \<in> set existing then index
                else AList.update capability (existing @ [agentID]) index) capabilities index"

definition NewTenantSnapshot :: "tenant_data \<Rightarrow> tenant_snapshot" where
  "NewTenantSnapshot data =
     \<lparr>ts_TenantID = td_TenantID data, ts_TenantRef = td_TenantRef data, ts_Status = td_Status data,
      ts_Version = td_Version data, ts_SecurityEpoch = td_SecurityEpoch data,
      ts_PublishedAt = td_PublishedAt data,
      ts_projects = index_by pj_ID (td_Projects data),
      ts_providers = index_by pv_ID (td_Providers data),
      ts_credentials = index_by cr_ID (td_Credentials data),
      ts_deployments = index_by dp_ID (td_Deployments data),
      ts_routePolicies = index_by rp_ID (td_RoutePolicies data),
      ts_logicalModels = index_by lm_Alias (td_LogicalModels data),
      ts_apiKeys = index_by ak_PublicID (td_APIKeys data),
      ts_budgetPolicies = index_by rb_ID (td_BudgetPolicies data),
      ts_credentialPools = index_by cq_ID (td_CredentialPools data),
      ts_leases = index_by lc_DeploymentID (td_Leases data),
      ts_circuit = td_Circuit data, ts_drift = td_Drift data, ts_spool = td_Spool data, ts_cache = td_Cache data,
      ts_mcpServers = index_by ms_ID (td_MCPServers data),
      ts_tools = index_by tl_ID (td_Tools data),
      ts_toolPolicies = index_by (\<lambda>item. join_colon (tp_ProjectID item) (tp_ToolID item)) (td_ToolPolicies data),
      ts_agents = index_by ag_ID (td_Agents data),
      ts_agentEndpoints = index_by ae_ID (td_AgentEndpoints data),
      ts_capabilityIndex =
        fold (\<lambda>item. indexCapabilities (ae_AgentID item) (ae_Capabilities item)) (td_AgentEndpoints data)
          (fold (\<lambda>item. indexCapabilities (ag_ID item) (ag_Capabilities item)) (td_Agents data) []),
      ts_federatedAgents = index_by fa_ID (td_FederatedAgents data),
      ts_federatedRels = index_by fr_ID (td_FederationRelationships data),
      ts_guardrail = td_Guardrail data,
      ts_sourceData = data\<rparr>"

subsection \<open>Look-ups\<close>

definition snapshotCollect :: "(string \<times> 'a) list \<Rightarrow> 'a list" where
  "snapshotCollect stored = map snd stored"

definition snapshotCollectSorted :: "('a \<Rightarrow> string) \<Rightarrow> (string \<times> 'a) list \<Rightarrow> 'a list" where
  "snapshotCollectSorted key stored = sort_key key (snapshotCollect stored)"

definition snap_Project :: "tenant_snapshot \<Rightarrow> string \<Rightarrow> project option" where
  "snap_Project s k = map_of (ts_projects s) k"
definition snap_Provider :: "tenant_snapshot \<Rightarrow> string \<Rightarrow> provider option" where
  "snap_Provider s k = map_of (ts_providers s) k"
definition snap_Credential :: "tenant_snapshot \<Rightarrow> string \<Rightarrow> credential option" where
  "snap_Credential s k = map_of (ts_credentials s) k"
definition snap_Deployment :: "tenant_snapshot \<Rightarrow> string \<Rightarrow> deployment option" where
  "snap_Deployment s k = map_of (ts_deployments s) k"
definition snap_RoutePolicy :: "tenant_snapshot \<Rightarrow> string \<Rightarrow> route_policy option" where
  "snap_RoutePolicy s k = map_of (ts_routePolicies s) k"
definition snap_LogicalModel :: "tenant_snapshot \<Rightarrow> string \<Rightarrow> logical_model option" where
  "snap_LogicalModel s k = map_of (ts_logicalModels s) k"
definition snap_APIKey :: "tenant_snapshot \<Rightarrow> string \<Rightarrow> api_key option" where
  "snap_APIKey s k = map_of (ts_apiKeys s) k"
definition snap_BudgetPolicy :: "tenant_snapshot \<Rightarrow> string \<Rightarrow> rt_budget_policy option" where
  "snap_BudgetPolicy s k = map_of (ts_budgetPolicies s) k"
definition snap_CredentialPool :: "tenant_snapshot \<Rightarrow> string \<Rightarrow> credential_pool option" where
  "snap_CredentialPool s k = map_of (ts_credentialPools s) k"
definition snap_Lease :: "tenant_snapshot \<Rightarrow> string \<Rightarrow> lease_config option" where
  "snap_Lease s k = map_of (ts_leases s) k"
definition snap_Tool :: "tenant_snapshot \<Rightarrow> string \<Rightarrow> tool option" where
  "snap_Tool s k = map_of (ts_tools s) k"
definition snap_ToolPolicy :: "tenant_snapshot \<Rightarrow> string \<Rightarrow> string \<Rightarrow> tool_policy option" where
  "snap_ToolPolicy s projectID toolID = map_of (ts_toolPolicies s) (join_colon projectID toolID)"
definition snap_Agent :: "tenant_snapshot \<Rightarrow> string \<Rightarrow> agent option" where
  "snap_Agent s k = map_of (ts_agents s) k"
definition snap_AgentEndpoint :: "tenant_snapshot \<Rightarrow> string \<Rightarrow> agent_endpoint option" where
  "snap_AgentEndpoint s k = map_of (ts_agentEndpoints s) k"
definition snap_FederatedAgent :: "tenant_snapshot \<Rightarrow> string \<Rightarrow> federated_agent option" where
  "snap_FederatedAgent s k = map_of (ts_federatedAgents s) k"
definition snap_FederationRelationship :: "tenant_snapshot \<Rightarrow> string \<Rightarrow> federation_relationship option" where
  "snap_FederationRelationship s k = map_of (ts_federatedRels s) k"

definition AgentsByCapability :: "tenant_snapshot \<Rightarrow> string \<Rightarrow> string list" where
  "AgentsByCapability s capability = lookup_list (ts_capabilityIndex s) capability"

definition snap_LogicalModels :: "tenant_snapshot \<Rightarrow> logical_model list" where
  "snap_LogicalModels s = snapshotCollectSorted lm_Alias (ts_logicalModels s)"
definition snap_BudgetPolicies :: "tenant_snapshot \<Rightarrow> rt_budget_policy list" where
  "snap_BudgetPolicies s = snapshotCollectSorted rb_ID (ts_budgetPolicies s)"
definition snap_AgentEndpoints :: "tenant_snapshot \<Rightarrow> agent_endpoint list" where
  "snap_AgentEndpoints s = snapshotCollect (ts_agentEndpoints s)"
definition snap_FederatedAgents :: "tenant_snapshot \<Rightarrow> federated_agent list" where
  "snap_FederatedAgents s = snapshotCollect (ts_federatedAgents s)"
definition snap_FederationRelationships :: "tenant_snapshot \<Rightarrow> federation_relationship list" where
  "snap_FederationRelationships s = snapshotCollect (ts_federatedRels s)"
definition snap_Tools :: "tenant_snapshot \<Rightarrow> tool list" where
  "snap_Tools s = snapshotCollect (ts_tools s)"
definition snap_MCPServers :: "tenant_snapshot \<Rightarrow> mcp_server list" where
  "snap_MCPServers s = snapshotCollect (ts_mcpServers s)"
definition snap_Agents :: "tenant_snapshot \<Rightarrow> agent list" where
  "snap_Agents s = snapshotCollect (ts_agents s)"

definition snap_Providers :: "tenant_snapshot \<Rightarrow> provider list" where
  "snap_Providers s = snapshotCollect (ts_providers s)"
definition snap_Deployments :: "tenant_snapshot \<Rightarrow> deployment list" where
  "snap_Deployments s = snapshotCollect (ts_deployments s)"
definition snap_Credentials :: "tenant_snapshot \<Rightarrow> credential list" where
  "snap_Credentials s = snapshotCollect (ts_credentials s)"
definition snap_Routes :: "tenant_snapshot \<Rightarrow> route_policy list" where
  "snap_Routes s = snapshotCollect (ts_routePolicies s)"

subsection \<open>The registry\<close>

record global_runtime_data =
  gd_Version :: int
  gd_PublishedAt :: gotime
  gd_PepperRefs :: "(int \<times> string) list"
  gd_Drain :: drain_config
  gd_SecretCache :: secret_cache_config

definition NewGlobalRuntime :: "global_runtime_data \<Rightarrow> global_runtime" where
  "NewGlobalRuntime data = \<lparr>gr_Version = gd_Version data, gr_PublishedAt = gd_PublishedAt data,
     gr_pepperRefs = gd_PepperRefs data, gr_drain = gd_Drain data, gr_secretCache = gd_SecretCache data\<rparr>"

record active_registry =
  ar_global :: "global_runtime option"
  ar_tenants :: "(string \<times> tenant_snapshot option) list"

definition PepperRef :: "global_runtime \<Rightarrow> int \<Rightarrow> string option" where
  "PepperRef g version = map_of (gr_pepperRefs g) version"

definition ActivateGlobal :: "active_registry \<Rightarrow> global_runtime option \<Rightarrow> active_registry" where
  "ActivateGlobal r g = r\<lparr>ar_global := g\<rparr>"

definition reg_Tenant :: "active_registry \<Rightarrow> string \<Rightarrow> tenant_snapshot option" where
  "reg_Tenant r ref = (case map_of (ar_tenants r) ref of None \<Rightarrow> None | Some s \<Rightarrow> s)"

definition ActivateTenant :: "active_registry \<Rightarrow> string \<Rightarrow> tenant_snapshot option \<Rightarrow> active_registry" where
  "ActivateTenant r ref s = r\<lparr>ar_tenants := AList.update ref s (ar_tenants r)\<rparr>"

definition HasAnyTenant :: "active_registry \<Rightarrow> bool" where
  "HasAnyTenant r \<longleftrightarrow> (\<exists>(_, s) \<in> set (ar_tenants r). s \<noteq> None)"

definition TenantByID :: "active_registry \<Rightarrow> string \<Rightarrow> tenant_snapshot option" where
  "TenantByID r tenantID =
     (case find (\<lambda>(_, s). case s of None \<Rightarrow> False | Some s \<Rightarrow> ts_TenantID s = tenantID) (ar_tenants r) of
        None \<Rightarrow> None | Some (_, s) \<Rightarrow> s)"

subsection \<open>What the indexes hold\<close>

text \<open>The record a look-up finds: the last one published under the key.\<close>

definition last_with :: "('a \<Rightarrow> string) \<Rightarrow> 'a list \<Rightarrow> string \<Rightarrow> 'a option" where
  "last_with key xs k = find (\<lambda>x. key x = k) (rev xs)"

lemma index_by_Nil [simp]: "index_by key [] = []"
  by (simp add: index_by_def)

lemma index_by_snoc [simp]: "index_by key (xs @ [x]) = AList.update (key x) x (index_by key xs)"
  by (simp add: index_by_def)

lemma index_by_lookup [simp]: "map_of (index_by key xs) k = last_with key xs k"
  by (induction xs rule: rev_induct) (auto simp: last_with_def update_conv')

lemma index_by_distinct [simp]: "keys_distinct (index_by key xs)"
  by (induction xs rule: rev_induct) auto

lemma last_with_Some: "last_with key xs k = Some x \<Longrightarrow> x \<in> set xs \<and> key x = k"
  by (auto simp: last_with_def find_Some_iff) (metis nth_mem set_rev length_rev)

lemma map_of_member: "keys_distinct m \<Longrightarrow> map_of m k = Some v \<longleftrightarrow> (k, v) \<in> set m"
  by (auto simp: keys_distinct_def dest: map_of_SomeD)

lemma set_snapshotCollect: "keys_distinct m \<Longrightarrow> set (snapshotCollect m) = {v. \<exists>k. map_of m k = Some v}"
  by (force simp: snapshotCollect_def map_of_member)

lemma index_by_keys: "(k, x) \<in> set (index_by key xs) \<Longrightarrow> key x = k \<and> x \<in> set xs"
  using last_with_Some [of key xs k x] map_of_member [OF index_by_distinct, of key xs k x] by simp

lemma last_with_exists: "x \<in> set xs \<Longrightarrow> last_with key xs (key x) \<noteq> None"
  by (auto simp: last_with_def find_None_iff)

lemma index_by_collect:
  "map key (snapshotCollect (index_by key xs)) = map fst (index_by key xs)"
  by (auto simp: snapshotCollect_def comp_def dest!: index_by_keys intro!: map_cong)

lemma lookup_list_update: "lookup_list (AList.update k v m) k' = (if k' = k then v else lookup_list m k')"
  by (simp add: lookup_list_def update_conv')

lemma indexCapabilities_lookup:
  "distinct (lookup_list m c) \<Longrightarrow>
   distinct (lookup_list (indexCapabilities a cs m) c)
   \<and> set (lookup_list (indexCapabilities a cs m) c) = set (lookup_list m c) \<union> (if c \<in> set cs then {a} else {})"
proof (induction cs arbitrary: m)
  case (Cons d cs)
  let ?m = "if a \<in> set (lookup_list m d) then m else AList.update d (lookup_list m d @ [a]) m"
  have step: "indexCapabilities a (d # cs) m = indexCapabilities a cs ?m"
    by (simp add: indexCapabilities_def Let_def)
  have "distinct (lookup_list ?m c)"
    and set: "set (lookup_list ?m c) = set (lookup_list m c) \<union> (if c = d then {a} else {})"
    using Cons.prems by (auto simp: lookup_list_update)
  with Cons.IH [of ?m] show ?case unfolding step by auto
qed (simp add: indexCapabilities_def)

lemma fold_indexCapabilities_lookup:
  "distinct (lookup_list m c) \<Longrightarrow>
   distinct (lookup_list (fold (\<lambda>x. indexCapabilities (ident x) (caps x)) xs m) c)
   \<and> set (lookup_list (fold (\<lambda>x. indexCapabilities (ident x) (caps x)) xs m) c)
       = set (lookup_list m c) \<union> {ident x | x. x \<in> set xs \<and> c \<in> set (caps x)}"
proof (induction xs arbitrary: m)
  case (Cons y ys)
  note i = indexCapabilities_lookup [OF Cons.prems, of "ident y" "caps y"]
  from Cons.IH [OF i [THEN conjunct1]] i show ?case by auto
qed simp

lemma AgentsByCapability_agents:
  "distinct (AgentsByCapability (NewTenantSnapshot d) c)
   \<and> set (AgentsByCapability (NewTenantSnapshot d) c) =
       {ag_ID a | a. a \<in> set (td_Agents d) \<and> c \<in> set (ag_Capabilities a)}
       \<union> {ae_AgentID e | e. e \<in> set (td_AgentEndpoints d) \<and> c \<in> set (ae_Capabilities e)}"
proof -
  have e: "distinct (lookup_list [] c)" "lookup_list [] c = []" by (simp_all add: lookup_list_def)
  note a = fold_indexCapabilities_lookup [OF e(1), of ag_ID ag_Capabilities "td_Agents d"]
  note b = fold_indexCapabilities_lookup [OF a [THEN conjunct1], of ae_AgentID ae_Capabilities "td_AgentEndpoints d"]
  from a b show ?thesis by (auto simp: AgentsByCapability_def NewTenantSnapshot_def e(2))
qed

text \<open>C29: The capability index is exact. For every capability it lists, each once, exactly the agents
  that declare the capability themselves or through one of their endpoints.\<close>

theorem capability_index_exact:
  "distinct (AgentsByCapability (NewTenantSnapshot d) c)
   \<and> set (AgentsByCapability (NewTenantSnapshot d) c) =
       {ag_ID a | a. a \<in> set (td_Agents d) \<and> c \<in> set (ag_Capabilities a)}
       \<union> {ae_AgentID e | e. e \<in> set (td_AgentEndpoints d) \<and> c \<in> set (ae_Capabilities e)}"
  by (rule AgentsByCapability_agents)

lemma snap_BudgetPolicies_listing:
  "sorted_wrt (<) (map rb_ID (snap_BudgetPolicies (NewTenantSnapshot d)))"
  "set (snap_BudgetPolicies (NewTenantSnapshot d)) = {p. \<exists>k. last_with rb_ID (td_BudgetPolicies d) k = Some p}"
proof -
  let ?ix = "index_by rb_ID (td_BudgetPolicies d)"
  have "distinct (map rb_ID (snapshotCollect ?ix))"
    using index_by_distinct [of rb_ID "td_BudgetPolicies d"] by (simp add: index_by_collect keys_distinct_def)
  then have "distinct (map rb_ID (sort_key rb_ID (snapshotCollect ?ix)))"
    by (metis distinct_map distinct_sort set_sort)
  moreover have "sorted (map rb_ID (sort_key rb_ID (snapshotCollect ?ix)))" by (rule sorted_sort_key)
  ultimately have sorted: "sorted_wrt (<) (map rb_ID (sort_key rb_ID (snapshotCollect ?ix)))"
    by (simp add: strict_sorted_iff)
  have "set (snapshotCollect ?ix) = {p. \<exists>k. map_of ?ix k = Some p}"
    by (rule set_snapshotCollect) simp
  with sorted show "sorted_wrt (<) (map rb_ID (snap_BudgetPolicies (NewTenantSnapshot d)))"
    and "set (snap_BudgetPolicies (NewTenantSnapshot d)) = {p. \<exists>k. last_with rb_ID (td_BudgetPolicies d) k = Some p}"
    by (simp_all add: NewTenantSnapshot_def snap_BudgetPolicies_def snapshotCollectSorted_def)
qed


subsection \<open>The registry swaps one tenant\<close>

lemma reg_Tenant_Activate:
  "reg_Tenant (ActivateTenant r ref s) ref' = (if ref' = ref then s else reg_Tenant r ref')"
  by (simp add: reg_Tenant_def ActivateTenant_def update_conv')

lemma HasAnyTenant_iff:
  "keys_distinct (ar_tenants r) \<Longrightarrow> HasAnyTenant r \<longleftrightarrow> (\<exists>ref. reg_Tenant r ref \<noteq> None)"
proof
  assume d: "keys_distinct (ar_tenants r)" and "HasAnyTenant r"
  then obtain ref s where "(ref, Some s) \<in> set (ar_tenants r)" by (auto simp: HasAnyTenant_def)
  then have "reg_Tenant r ref = Some s" using map_of_member [OF d, of ref "Some s"] by (simp add: reg_Tenant_def)
  then show "\<exists>ref. reg_Tenant r ref \<noteq> None" by auto
next
  assume "\<exists>ref. reg_Tenant r ref \<noteq> None"
  then obtain ref s where "map_of (ar_tenants r) ref = Some (Some s)"
    by (auto simp: reg_Tenant_def split: option.splits)
  then show "HasAnyTenant r" by (auto simp: HasAnyTenant_def dest: map_of_SomeD)
qed

end
