(* ===== verification/Credential_Pool.thy ===== *)
theory Credential_Pool
  imports Snapshot "HOL-Library.Product_Lexorder"
begin

text \<open>
  Credential pools, \<^verbatim>\<open>internal/resilience/credentialpool\<close>: the eligibility of a credential
  over a snapshot, the four selection orders, and the picker that walks an order once. The
  digest (SHA-256) and the natural logarithm are parameters, \<open>sha\<close> and \<open>mlog\<close>: only the bytes
  and the value they return matter here.
\<close>

subsection \<open>Orders\<close>

text \<open>
  What every selection order promises: it rearranges the candidates, it neither loses nor
  invents one.
\<close>

locale selection_order =
  fixes order :: "'a list \<Rightarrow> 'a list"
  assumes order_perm: "mset (order xs) = mset xs"
begin

lemma order_set [simp]: "set (order xs) = set xs"
  by (metis order_perm set_mset_mset)

lemma order_length [simp]: "length (order xs) = length xs"
  by (metis order_perm size_mset)

lemma order_Nil_iff [simp]: "order xs = [] \<longleftrightarrow> xs = []"
  by (metis length_0_conv order_length)

lemma order_hd: "xs \<noteq> [] \<Longrightarrow> hd (order xs) \<in> set xs"
  by (metis hd_in_set order_Nil_iff order_set)

lemma order_distinct: "distinct (order xs) \<longleftrightarrow> distinct xs"
  by (metis order_perm mset_eq_imp_distinct_iff)

end

text \<open>\<^verbatim>\<open>append(xs[start:], xs[:start]...)\<close>.\<close>

definition rotate_from :: "nat \<Rightarrow> 'a list \<Rightarrow> 'a list" where
  "rotate_from start xs = drop start xs @ take start xs"

interpretation rot: selection_order "rotate_from start" for start
  by unfold_locales (metis append_take_drop_id mset_append rotate_from_def union_commute)

interpretation keyed: selection_order "sort_key f" for f :: "'a \<Rightarrow> 'b :: linorder"
  by unfold_locales simp

subsection \<open>Hashing\<close>

definition be_uint64 :: "string \<Rightarrow> nat" where
  "be_uint64 bytes = foldl (\<lambda>a c. a * 256 + of_char c) 0 (take 8 bytes)"

definition hashKey :: "(string \<Rightarrow> string) \<Rightarrow> string \<Rightarrow> nat" where
  "hashKey sha key = be_uint64 (sha key)"

definition weightedScore ::
  "(string \<Rightarrow> string) \<Rightarrow> (f64 \<Rightarrow> f64) \<Rightarrow> string \<Rightarrow> string \<Rightarrow> int \<Rightarrow> f64" where
  "weightedScore sha mlog key ident weight =
     (let value = be_uint64 (sha (key @ [CHR 0x00] @ ident));
          unit = fdiv (fadd (f_of_int (int value)) 1) (fadd (f_of_int (2 ^ 64 - 1)) 1)
      in fdiv (- mlog unit) (f_of_int weight))"

subsection \<open>Pools\<close>

datatype pool_error =
    ErrNoEligibleCredential | ErrExhausted | NoMembers | UnsupportedStrategy | PoolNotFound | NoCredential
  | NilState \<comment> \<open>a strategy that reads the state when there is none: the call panics\<close>

record pool_state =
  ps_Eligible :: "string \<Rightarrow> bool"
  ps_Inflight :: "string \<Rightarrow> int"
  ps_Cost :: "string \<Rightarrow> f64"
  ps_Quota :: "string \<Rightarrow> f64 \<times> f64"

record pool =
  po_strategy :: string
  po_members :: "pool_member list"
  po_state :: "pool_state option"

definition pool_New :: "string \<Rightarrow> pool_member list \<Rightarrow> pool_state option \<Rightarrow> pool_error + pool" where
  "pool_New strategy members state =
     (if members = [] then Inl NoMembers
      else if strategy \<in> {''round_robin'', ''weighted'', ''least_inflight'', ''quota_aware''}
      then Inr \<lparr>po_strategy = strategy, po_members = members, po_state = state\<rparr>
      else Inl UnsupportedStrategy)"

definition max_float64 :: f64 where
  "max_float64 = (2 ^ 53 - 1) * 2 ^ 971"

definition quotaRatio :: "pool_state \<Rightarrow> string \<Rightarrow> f64" where
  "quotaRatio state ident =
     (let (used, limit) = ps_Quota state ident
      in if limit \<le> 0 then max_float64 else fdiv used limit)"

type_synonym candidate = "string \<times> int"

definition eligible_members :: "pool \<Rightarrow> candidate list" where
  "eligible_members p =
     map (\<lambda>m. (pm_CredentialID m, if pm_Weight m \<le> 0 then 1 else pm_Weight m))
       (filter (\<lambda>m. case po_state p of None \<Rightarrow> True | Some s \<Rightarrow> ps_Eligible s (pm_CredentialID m)) (po_members p))"

definition pool_Order ::
  "(string \<Rightarrow> string) \<Rightarrow> (f64 \<Rightarrow> f64) \<Rightarrow> pool \<Rightarrow> string \<Rightarrow> pool_error + string list" where
  "pool_Order sha mlog p key =
     (let eligible = eligible_members p
      in if eligible = [] then Inl ErrNoEligibleCredential
         else if po_strategy p = ''weighted'' then
           let scores = map_of (rev (map (\<lambda>(ident, weight). (ident, weightedScore sha mlog key ident weight)) eligible))
           in Inr (map fst (sort_key (\<lambda>(ident, _). case scores ident of None \<Rightarrow> 0 | Some x \<Rightarrow> x) eligible))
         else if po_strategy p = ''least_inflight'' then
           (case po_state p of None \<Rightarrow> (if length eligible < 2 then Inr (map fst eligible) else Inl NilState)
            | Some s \<Rightarrow> Inr (map fst (sort_key (\<lambda>(ident, _). (ps_Inflight s ident, ident)) eligible)))
         else if po_strategy p = ''quota_aware'' then
           (case po_state p of None \<Rightarrow> (if length eligible < 2 then Inr (map fst eligible) else Inl NilState)
            | Some s \<Rightarrow> Inr (map fst (sort_key (\<lambda>(ident, _). (quotaRatio s ident, ident)) eligible)))
         else
           let start = (if key \<noteq> '''' then hashKey sha key mod length eligible else 0)
           in Inr (map fst (rotate_from start eligible)))"

definition pool_Select ::
  "(string \<Rightarrow> string) \<Rightarrow> (f64 \<Rightarrow> f64) \<Rightarrow> pool \<Rightarrow> string \<Rightarrow> pool_error + string" where
  "pool_Select sha mlog p key = (case pool_Order sha mlog p key of Inl e \<Rightarrow> Inl e | Inr order \<Rightarrow> Inr (order ! 0))"

record picker =
  pk_order :: "string list"
  pk_index :: nat

definition NewPicker ::
  "(string \<Rightarrow> string) \<Rightarrow> (f64 \<Rightarrow> f64) \<Rightarrow> pool \<Rightarrow> string \<Rightarrow> pool_error + picker" where
  "NewPicker sha mlog p key =
     (case pool_Order sha mlog p key of Inl e \<Rightarrow> Inl e | Inr order \<Rightarrow> Inr \<lparr>pk_order = order, pk_index = 0\<rparr>)"

definition picker_Next :: "picker \<Rightarrow> picker \<times> (pool_error + string)" where
  "picker_Next p =
     (if length (pk_order p) \<le> pk_index p then (p, Inl ErrExhausted)
      else (p\<lparr>pk_index := pk_index p + 1\<rparr>, Inr (pk_order p ! pk_index p)))"

subsection \<open>Eligibility over a snapshot\<close>

record snapshot_state =
  st_snapshot :: tenant_snapshot
  st_inflight :: "(string \<Rightarrow> int) option"
  st_cost :: "(string \<Rightarrow> f64) option"
  st_quota :: "(string \<Rightarrow> f64 \<times> f64) option"
  st_circuitOpen :: "(string \<Rightarrow> string \<Rightarrow> bool) option"
  st_deploymentID :: string

definition NewSnapshotState :: "tenant_snapshot \<Rightarrow> string \<Rightarrow> snapshot_state" where
  "NewSnapshotState snapshot deploymentID = \<lparr>st_snapshot = snapshot, st_inflight = None, st_cost = None, st_quota = None,
     st_circuitOpen = None, st_deploymentID = deploymentID\<rparr>"

definition WithInflight :: "(string \<Rightarrow> int) option \<Rightarrow> snapshot_state \<Rightarrow> snapshot_state" where
  "WithInflight fn s = s\<lparr>st_inflight := fn\<rparr>"

definition WithCost :: "(string \<Rightarrow> f64) option \<Rightarrow> snapshot_state \<Rightarrow> snapshot_state" where
  "WithCost fn s = s\<lparr>st_cost := fn\<rparr>"

definition WithQuota :: "(string \<Rightarrow> f64 \<times> f64) option \<Rightarrow> snapshot_state \<Rightarrow> snapshot_state" where
  "WithQuota fn s = s\<lparr>st_quota := fn\<rparr>"

definition WithCircuit :: "(string \<Rightarrow> string \<Rightarrow> bool) option \<Rightarrow> snapshot_state \<Rightarrow> snapshot_state" where
  "WithCircuit fn s = s\<lparr>st_circuitOpen := fn\<rparr>"

definition state_Eligible :: "snapshot_state \<Rightarrow> string \<Rightarrow> bool" where
  "state_Eligible s credentialID =
     (case snap_Credential (st_snapshot s) credentialID of None \<Rightarrow> False
      | Some c \<Rightarrow>
          if cr_Status c \<noteq> ''enabled'' then False
          else case snap_Provider (st_snapshot s) (cr_ProviderID c) of None \<Rightarrow> False
               | Some v \<Rightarrow>
                   if pv_Status v \<noteq> ''enabled'' then False
                   else case st_circuitOpen s of None \<Rightarrow> True
                        | Some isopen \<Rightarrow> \<not> isopen (st_deploymentID s) credentialID)"

definition state_Inflight :: "snapshot_state \<Rightarrow> string \<Rightarrow> int" where
  "state_Inflight s c = (case st_inflight s of None \<Rightarrow> 0 | Some f \<Rightarrow> f c)"

definition state_Cost :: "snapshot_state \<Rightarrow> string \<Rightarrow> f64" where
  "state_Cost s c = (case st_cost s of None \<Rightarrow> 0 | Some f \<Rightarrow> f c)"

definition state_Quota :: "snapshot_state \<Rightarrow> string \<Rightarrow> f64 \<times> f64" where
  "state_Quota s c = (case st_quota s of None \<Rightarrow> (0, 0) | Some f \<Rightarrow> f c)"

definition pool_state_of :: "snapshot_state \<Rightarrow> pool_state" where
  "pool_state_of s = \<lparr>ps_Eligible = state_Eligible s, ps_Inflight = state_Inflight s, ps_Cost = state_Cost s,
     ps_Quota = state_Quota s\<rparr>"

definition FromSnapshot :: "tenant_snapshot \<Rightarrow> deployment \<Rightarrow> pool_state option \<Rightarrow> pool_error + pool" where
  "FromSnapshot snapshot d state =
     (if dp_PoolID d \<noteq> '''' then
        (case snap_CredentialPool snapshot (dp_PoolID d) of None \<Rightarrow> Inl PoolNotFound
         | Some p \<Rightarrow> pool_New (cq_Strategy p) (cq_Members p) state)
      else if dp_CredentialID d = '''' then Inl NoCredential
      else pool_New ''round_robin'' [\<lparr>pm_CredentialID = dp_CredentialID d, pm_Weight = 0\<rparr>] state)"

subsection \<open>Every order is a permutation of the eligible credentials\<close>

abbreviation eligible_ids :: "pool \<Rightarrow> string list" where
  "eligible_ids p \<equiv> map fst (eligible_members p)"

lemma eligible_ids_iff:
  "c \<in> set (eligible_ids p) \<longleftrightarrow>
     (\<exists>m \<in> set (po_members p). pm_CredentialID m = c)
     \<and> (case po_state p of None \<Rightarrow> True | Some s \<Rightarrow> ps_Eligible s c)"
  by (auto simp: eligible_members_def split: option.splits)

lemma pool_Order_perm: "pool_Order sha mlog p key = Inr order \<Longrightarrow> mset order = mset (eligible_ids p)"
  by (auto simp: pool_Order_def Let_def rot.order_perm split: if_split_asm option.split_asm)

lemma pool_Order_total:
  "po_state p \<noteq> None \<Longrightarrow> eligible_ids p \<noteq> [] \<Longrightarrow> \<exists>order. pool_Order sha mlog p key = Inr order"
  by (auto simp: pool_Order_def Let_def)

text \<open>What walking a picker to its end yields.\<close>

fun picker_run :: "nat \<Rightarrow> picker \<Rightarrow> (pool_error + string) list" where
  "picker_run 0 p = []"
| "picker_run (Suc n) p = snd (picker_Next p) # picker_run n (fst (picker_Next p))"

lemma picker_run_order:
  "pk_index p \<le> length (pk_order p) \<Longrightarrow>
   picker_run (length (pk_order p) - pk_index p + k) p =
     map Inr (drop (pk_index p) (pk_order p)) @ replicate k (Inl ErrExhausted)"
proof (induction "length (pk_order p) - pk_index p" arbitrary: p)
  case 0
  then have "picker_Next p = (p, Inl ErrExhausted)" by (simp add: picker_Next_def)
  then have "picker_run k p = replicate k (Inl ErrExhausted)" by (induction k) auto
  with 0 show ?case by simp
next
  case (Suc n)
  let ?p = "p\<lparr>pk_index := pk_index p + 1\<rparr>"
  have lt: "pk_index p < length (pk_order p)" using Suc.hyps(2) by linarith
  then have "picker_Next p = (?p, Inr (pk_order p ! pk_index p))" by (simp add: picker_Next_def)
  moreover have "length (pk_order p) - pk_index p + k = Suc (length (pk_order ?p) - pk_index ?p + k)"
    using lt by simp
  moreover have "picker_run (length (pk_order ?p) - pk_index ?p + k) ?p
      = map Inr (drop (pk_index ?p) (pk_order ?p)) @ replicate k (Inl ErrExhausted)"
    using Suc.hyps lt by (intro Suc.hyps(1)) auto
  ultimately show ?case using lt by (simp add: Cons_nth_drop_Suc [symmetric])
qed

text \<open>C31: A request tries every eligible credential once. Walking the picker of a pool with k further
  steps returns each eligible member of the pool, every one as often as it is a member, and then
  reports exhaustion for each further step; this holds for every selection strategy.\<close>

theorem picker_covers_pool:
  assumes "NewPicker sha mlog p key = Inr pk"
  shows "\<exists>order. mset order = mset (eligible_ids p)
           \<and> picker_run (length (eligible_ids p) + k) pk = map Inr order @ replicate k (Inl ErrExhausted)"
proof -
  obtain order where o: "pool_Order sha mlog p key = Inr order" and pk: "pk = \<lparr>pk_order = order, pk_index = 0\<rparr>"
    using assms by (auto simp: NewPicker_def split: sum.splits)
  have perm: "mset order = mset (eligible_ids p)" using o by (rule pool_Order_perm)
  then have "length order = length (eligible_ids p)" by (metis size_mset)
  with perm picker_run_order [of pk k] show ?thesis by (auto simp: pk)
qed

definition example_pool :: pool where
  "example_pool = \<lparr>po_strategy = ''least_inflight'',
     po_members = map (\<lambda>c. \<lparr>pm_CredentialID = c, pm_Weight = 1\<rparr>) [''a'', ''b'', ''c''],
     po_state = Some \<lparr>ps_Eligible = (\<lambda>c. c \<noteq> ''b''), ps_Inflight = (\<lambda>c. if c = ''a'' then 3 else 1),
       ps_Cost = (\<lambda>_. 0), ps_Quota = (\<lambda>_. (0, 0))\<rparr>\<rparr>"

theorem picker_covers_pool_witness:
  "NewPicker (\<lambda>s. s) (\<lambda>x. x) example_pool ''k'' = Inr \<lparr>pk_order = [''c'', ''a''], pk_index = 0\<rparr>
   \<and> (\<exists>order. mset order = mset (eligible_ids example_pool)
        \<and> picker_run (length (eligible_ids example_pool) + 1) \<lparr>pk_order = [''c'', ''a''], pk_index = 0\<rparr>
            = map Inr order @ replicate 1 (Inl ErrExhausted))"
proof -
  have "NewPicker (\<lambda>s. s) (\<lambda>x. x) example_pool ''k'' = Inr \<lparr>pk_order = [''c'', ''a''], pk_index = 0\<rparr>"
    by (simp add: NewPicker_def pool_Order_def example_pool_def eligible_members_def)
  from this picker_covers_pool [OF this, of 1] show ?thesis by blast
qed

end
