(* ===== verification/Routing.thy ===== *)
theory Routing
  imports Credential_Pool
begin

text \<open>
  Route planning. \<^verbatim>\<open>internal/routing/model/planner.go\<close> turns a policy and a snapshot into an
  explainable plan: it collects the reasons that exclude a deployment, orders the remaining
  ones by the strategy of the policy, and returns the order as the fallback chain.
  \<^verbatim>\<open>internal/agentic/routing/routing.go\<close> does the same for agent endpoints. The circuit is the
  predicate \<^verbatim>\<open>Open\<close> of the breaker.
\<close>

subsection \<open>Plans\<close>

datatype plan_error =
    ErrNoEligibleDeployment
  | SliceBounds \<comment> \<open>a negative rotation offset: the call panics\<close>

record deployment_metrics =
  mt_LatencyMS :: f64
  mt_Cost :: f64
  mt_Load :: f64
  mt_CacheAffinity :: f64

record plan_input =
  in_Snapshot :: "tenant_snapshot option"
  in_Key :: api_key
  in_LogicalModel :: string
  in_ProjectID :: string
  in_RequestID :: string
  in_RoutingKey :: string
  in_RequiredCapabilities :: "string list"
  in_RequiresTools :: bool
  in_ContextTokens :: int
  in_Health :: "string \<rightharpoonup> bool"
  in_Circuit :: "(string \<Rightarrow> string \<Rightarrow> bool) option"
  in_Metrics :: "string \<rightharpoonup> deployment_metrics"

record score_breakdown =
  sb_latency :: f64
  sb_cost :: f64
  sb_load :: f64
  sb_cache_affinity :: f64

record candidate_evidence =
  ce_DeploymentID :: string
  ce_Eligible :: bool
  ce_Exclusions :: "string list"
  ce_Priority :: int
  ce_Weight :: int
  ce_SelectionScore :: f64
  ce_ScoreBreakdown :: "score_breakdown option"

record route_plan =
  pl_tenantSnapshotVersion :: int
  pl_policyVersion :: int
  pl_logicalModel :: string
  pl_routePolicyID :: string
  pl_selected :: string
  pl_fallback :: "string list"
  pl_evidence :: "candidate_evidence list"

text \<open>
  The planner holds one 64-bit unsigned counter per tenant, policy and snapshot version; a
  counter not stored yet is 0. An \<^verbatim>\<open>Exclusion\<close> is its code.
\<close>

type_synonym planner = "string \<Rightarrow> int"

definition contains :: "string list \<Rightarrow> string \<Rightarrow> bool" where
  "contains values want \<longleftrightarrow> want \<in> set values"

definition allowedModel :: "string list \<Rightarrow> string \<Rightarrow> bool" where
  "allowedModel allowlist model \<longleftrightarrow> allowlist = [] \<or> contains allowlist model"

definition hasCapabilities :: "string list \<Rightarrow> string list \<Rightarrow> bool" where
  "hasCapabilities actual required \<longleftrightarrow> list_all (contains actual) required"

subsection \<open>Exclusions\<close>

definition weight_of :: "(string \<times> int) list \<Rightarrow> string \<Rightarrow> int" where
  "weight_of weights ident = (case map_of weights ident of None \<Rightarrow> 0 | Some w \<Rightarrow> w)"

definition pool_available :: "tenant_snapshot \<Rightarrow> string \<Rightarrow> bool" where
  "pool_available s poolID =
     (case snap_CredentialPool s poolID of None \<Rightarrow> False
      | Some p \<Rightarrow> list_ex (\<lambda>m. case snap_Credential s (pm_CredentialID m) of None \<Rightarrow> False
                              | Some c \<Rightarrow> cr_Status c = ''enabled'') (cq_Members p))"

definition credential_available :: "tenant_snapshot \<Rightarrow> string \<Rightarrow> bool" where
  "credential_available s credID =
     (case snap_Credential s credID of None \<Rightarrow> False | Some c \<Rightarrow> cr_Status c = ''enabled'')"

definition provider_available :: "tenant_snapshot \<Rightarrow> string \<Rightarrow> bool" where
  "provider_available s provID =
     (case snap_Provider s provID of None \<Rightarrow> False | Some v \<Rightarrow> pv_Status v = ''enabled'')"

definition exclusions :: "plan_input \<Rightarrow> tenant_snapshot \<Rightarrow> string \<Rightarrow> deployment \<Rightarrow> string list" where
  "exclusions inp s ident d =
     (let project = snap_Project s (in_ProjectID inp);
          add = (\<lambda>c code. if c then [code] else [])
      in add (dp_Status d \<noteq> ''enabled'') ''deployment_disabled''
         @ add (\<not> provider_available s (dp_ProviderID d)) ''provider_unavailable''
         @ (if dp_PoolID d \<noteq> '''' then add (\<not> pool_available s (dp_PoolID d)) ''credential_pool_unavailable''
            else add (\<not> credential_available s (dp_CredentialID d)) ''credential_unavailable'')
         @ add (\<not> hasCapabilities (dp_Capabilities d) (in_RequiredCapabilities inp)) ''capability_mismatch''
         @ add (in_RequiresTools inp \<and> dp_Capabilities d \<noteq> [] \<and> \<not> contains (dp_Capabilities d) ''tools'')
             ''tools_not_supported''
         @ add (0 < dp_ContextWindow d \<and> dp_ContextWindow d < in_ContextTokens inp) ''context_window_exceeded''
         @ (case project of
              None \<Rightarrow> [''project_missing'']
            | Some p \<Rightarrow>
                add (pj_Status p \<noteq> ''active'') ''project_disabled''
                @ add (pj_ResidencyEnforcement p = ''strict''
                       \<and> \<not> contains (pj_AllowedDataRegions p) (dp_DataRegion d)) ''data_residency_mismatch'')
         @ add (in_Health inp ident = Some False) ''unhealthy''
         @ add (case in_Circuit inp of None \<Rightarrow> False | Some isopen \<Rightarrow> isopen ident (dp_CredentialID d)) ''circuit_open'')"

definition evidence_for ::
  "plan_input \<Rightarrow> tenant_snapshot \<Rightarrow> route_policy \<Rightarrow> string \<Rightarrow> candidate_evidence" where
  "evidence_for inp s policy ident =
     (let w = weight_of (rp_Weights policy) ident
      in case snap_Deployment s ident of
           None \<Rightarrow> \<lparr>ce_DeploymentID = ident, ce_Eligible = False, ce_Exclusions = [''deployment_missing''],
                    ce_Priority = 0, ce_Weight = w, ce_SelectionScore = 0, ce_ScoreBreakdown = None\<rparr>
         | Some d \<Rightarrow>
             let ex = exclusions inp s ident d
             in \<lparr>ce_DeploymentID = ident, ce_Eligible = (ex = []), ce_Exclusions = ex, ce_Priority = dp_Priority d,
                 ce_Weight = (if w \<le> 0 then 1 else w), ce_SelectionScore = 0, ce_ScoreBreakdown = None\<rparr>)"

definition eligible_deployments :: "plan_input \<Rightarrow> tenant_snapshot \<Rightarrow> route_policy \<Rightarrow> deployment list" where
  "eligible_deployments inp s policy =
     List.map_filter (\<lambda>ident. case snap_Deployment s ident of None \<Rightarrow> None
        | Some d \<Rightarrow> if exclusions inp s ident d = [] then Some d else None) (rp_DeploymentIDs policy)"

subsection \<open>Soft scores\<close>

definition defaultScoreWeights :: "(string \<times> f64) list \<Rightarrow> (string \<times> f64) list" where
  "defaultScoreWeights configured =
     (if configured \<noteq> [] then configured
      else [(''latency'', 1), (''cost'', 1), (''load'', 0), (''cache'', 0)])"

definition score_weight :: "(string \<times> f64) list \<Rightarrow> string \<Rightarrow> f64" where
  "score_weight weights k = (case map_of weights k of None \<Rightarrow> 0 | Some w \<Rightarrow> w)"

abbreviation zero_metrics :: deployment_metrics where
  "zero_metrics \<equiv> \<lparr>mt_LatencyMS = 0, mt_Cost = 0, mt_Load = 0, mt_CacheAffinity = 0\<rparr>"

definition metric_of :: "(string \<rightharpoonup> deployment_metrics) \<Rightarrow> string \<Rightarrow> deployment_metrics" where
  "metric_of metrics ident = (case metrics ident of None \<Rightarrow> zero_metrics | Some x \<Rightarrow> x)"

definition score_floor :: f64 where
  "score_floor = fl (1 / 1000)"

definition metric_scale :: "(deployment_metrics \<Rightarrow> f64) \<Rightarrow> (string \<rightharpoonup> deployment_metrics) \<Rightarrow> deployment list \<Rightarrow> f64" where
  "metric_scale field metrics items =
     max (fold (\<lambda>d m. max m (field (metric_of metrics (dp_ID d)))) items 0) score_floor"

definition score_component ::
  "(deployment_metrics \<Rightarrow> f64) \<Rightarrow> (string \<rightharpoonup> deployment_metrics) \<Rightarrow> deployment list \<Rightarrow> string \<Rightarrow> f64" where
  "score_component field metrics items ident =
     min (fdiv (field (metric_of metrics ident)) (metric_scale field metrics items)) 1"

definition soft_breakdown ::
  "(string \<rightharpoonup> deployment_metrics) \<Rightarrow> deployment list \<Rightarrow> string \<Rightarrow> score_breakdown" where
  "soft_breakdown metrics items ident =
     \<lparr>sb_latency = score_component mt_LatencyMS metrics items ident,
      sb_cost = score_component mt_Cost metrics items ident,
      sb_load = score_component mt_Load metrics items ident,
      sb_cache_affinity = score_component mt_CacheAffinity metrics items ident\<rparr>"

definition soft_score :: "(string \<times> f64) list \<Rightarrow> score_breakdown \<Rightarrow> f64" where
  "soft_score w b =
     fadd (fadd (fadd (fmul (score_weight w ''latency'') (sb_latency b)) (fmul (score_weight w ''cost'') (sb_cost b)))
                (fmul (score_weight w ''load'') (sb_load b)))
          (fmul (score_weight w ''cache'') (fsub 1 (sb_cache_affinity b)))"

definition softScores ::
  "route_policy \<Rightarrow> deployment list \<Rightarrow> (string \<rightharpoonup> deployment_metrics)
     \<Rightarrow> (string \<Rightarrow> f64) \<times> (string \<rightharpoonup> score_breakdown)" where
  "softScores policy items metrics =
     (let weights = defaultScoreWeights (rp_ScoreWeights policy);
          has = (\<lambda>ident. list_ex (\<lambda>d. dp_ID d = ident) items)
      in (\<lambda>ident. if has ident then soft_score weights (soft_breakdown metrics items ident) else 0,
          \<lambda>ident. if has ident then Some (soft_breakdown metrics items ident) else None))"

subsection \<open>Ordering and the plan\<close>

definition rr_key :: "tenant_snapshot \<Rightarrow> route_policy \<Rightarrow> string" where
  "rr_key s policy = ts_TenantRef s @ '':'' @ rp_ID policy @ '':'' @ show_int (ts_Version s)"

definition rr_start :: "int \<Rightarrow> nat \<Rightarrow> int" where
  "rr_start value n = go_rem (i64 value) (int n)"

definition rr_next :: "int \<Rightarrow> int" where
  "rr_next value = (value + 1) mod 2 ^ 64"

type_synonym ordering = "string list \<times> (string \<Rightarrow> f64) \<times> (string \<rightharpoonup> score_breakdown)"

definition plan_order ::
  "(string \<Rightarrow> string) \<Rightarrow> (f64 \<Rightarrow> f64) \<Rightarrow> planner \<Rightarrow> route_policy \<Rightarrow> plan_input \<Rightarrow> tenant_snapshot \<Rightarrow> deployment list
     \<Rightarrow> planner \<times> ordering option" where
  "plan_order sha mlog p policy inp s items0 =
     (let items = sort_key dp_ID items0
      in if rp_Strategy policy = ''weighted'' then
           let key = (if in_RoutingKey inp = '''' then in_RequestID inp else in_RoutingKey inp);
               score = (\<lambda>ident. weightedScore sha mlog key ident (max (weight_of (rp_Weights policy) ident) 1))
           in (p, Some (map dp_ID (sort_key (score \<circ> dp_ID) items),
               (\<lambda>ident. if list_ex (\<lambda>d. dp_ID d = ident) items then score ident else 0), Map.empty))
         else if rp_Strategy policy = ''round_robin'' then
           let key = rr_key s policy; start = rr_start (p key) (length items)
           in (p(key := rr_next (p key)),
               if start < 0 then None else Some (map dp_ID (rotate_from (nat start) items), \<lambda>_. 0, Map.empty))
         else if rp_Strategy policy = ''soft'' then
           let (scores, breaks) = softScores policy items (in_Metrics inp)
           in (p, Some (map dp_ID (sort_key (scores \<circ> dp_ID) items), scores, breaks))
         else (p, Some (map dp_ID (sort_key (\<lambda>d. (dp_Priority d, dp_ID d)) items), \<lambda>_. 0, Map.empty)))"

definition with_scores ::
  "(string \<Rightarrow> f64) \<Rightarrow> (string \<rightharpoonup> score_breakdown) \<Rightarrow> candidate_evidence \<Rightarrow> candidate_evidence" where
  "with_scores scores breaks e =
     e\<lparr>ce_SelectionScore := scores (ce_DeploymentID e), ce_ScoreBreakdown := breaks (ce_DeploymentID e)\<rparr>"

definition planner_Plan ::
  "(string \<Rightarrow> string) \<Rightarrow> (f64 \<Rightarrow> f64) \<Rightarrow> planner \<Rightarrow> plan_input \<Rightarrow> planner \<times> route_plan option \<times> plan_error option" where
  "planner_Plan sha mlog p inp =
     (let refuse = (p, None, Some ErrNoEligibleDeployment)
      in case in_Snapshot inp of None \<Rightarrow> refuse
         | Some s \<Rightarrow>
             case snap_LogicalModel s (in_LogicalModel inp) of None \<Rightarrow> refuse
             | Some logical \<Rightarrow>
                 if \<not> allowedModel (ak_ModelAllowlist (in_Key inp)) (in_LogicalModel inp) then refuse
                 else case snap_RoutePolicy s (lm_RoutePolicyID logical) of None \<Rightarrow> refuse
                      | Some policy \<Rightarrow>
                          if rp_ProjectID policy \<noteq> '''' \<and> rp_ProjectID policy \<noteq> in_ProjectID inp then refuse
                          else
                            let evidence = map (evidence_for inp s policy) (rp_DeploymentIDs policy);
                                eligible = eligible_deployments inp s policy;
                                plan = \<lparr>pl_tenantSnapshotVersion = ts_Version s, pl_policyVersion = rp_Version policy,
                                  pl_logicalModel = in_LogicalModel inp, pl_routePolicyID = rp_ID policy,
                                  pl_selected = '''', pl_fallback = [], pl_evidence = evidence\<rparr>
                            in if eligible = [] then (p, Some plan, Some ErrNoEligibleDeployment)
                               else
                                 case plan_order sha mlog p policy inp s eligible of
                                   (p, None) \<Rightarrow> (p, None, Some SliceBounds)
                                 | (p, Some (order, scores, breaks)) \<Rightarrow>
                                     (p, Some (plan\<lparr>pl_selected := order ! 0, pl_fallback := order,
                                        pl_evidence := map (with_scores scores breaks) evidence\<rparr>), None))"

subsection \<open>What a plan contains\<close>

text \<open>
  The conditions on a deployment, stated independently of the exclusion codes: the deployment
  exists and is enabled, its provider and credentials are usable, it offers what the request
  needs, and neither the project nor the observed state forbids it.
\<close>

definition admissible :: "plan_input \<Rightarrow> tenant_snapshot \<Rightarrow> string \<Rightarrow> bool" where
  "admissible inp s ident \<longleftrightarrow>
     (case (snap_Deployment s ident, snap_Project s (in_ProjectID inp)) of
        (Some d, Some project) \<Rightarrow>
          dp_Status d = ''enabled'' \<and> provider_available s (dp_ProviderID d)
          \<and> (if dp_PoolID d = '''' then credential_available s (dp_CredentialID d) else pool_available s (dp_PoolID d))
          \<and> set (in_RequiredCapabilities inp) \<subseteq> set (dp_Capabilities d)
          \<and> (in_RequiresTools inp \<longrightarrow> dp_Capabilities d = [] \<or> ''tools'' \<in> set (dp_Capabilities d))
          \<and> (dp_ContextWindow d \<le> 0 \<or> in_ContextTokens inp \<le> dp_ContextWindow d)
          \<and> pj_Status project = ''active''
          \<and> (pj_ResidencyEnforcement project = ''strict'' \<longrightarrow> dp_DataRegion d \<in> set (pj_AllowedDataRegions project))
          \<and> in_Health inp ident \<noteq> Some False
          \<and> (\<forall>isopen. in_Circuit inp = Some isopen \<longrightarrow> \<not> isopen ident (dp_CredentialID d))
      | _ \<Rightarrow> False)"

lemma exclusions_admissible:
  "snap_Deployment s ident = Some d \<Longrightarrow> exclusions inp s ident d = [] \<longleftrightarrow> admissible inp s ident"
  by (cases "snap_Project s (in_ProjectID inp)"; cases "in_Circuit inp")
     (auto simp: exclusions_def admissible_def hasCapabilities_def contains_def list_all_iff Let_def
        not_less subset_iff)

lemma evidence_eligible: "ce_Eligible (evidence_for inp s policy ident) \<longleftrightarrow> admissible inp s ident"
  by (cases "snap_Deployment s ident")
     (auto simp: evidence_for_def Let_def exclusions_admissible, simp add: admissible_def)

lemma evidence_explained: "ce_Eligible (evidence_for inp s policy i) \<longleftrightarrow> ce_Exclusions (evidence_for inp s policy i) = []"
  by (cases "snap_Deployment s i") (auto simp: evidence_for_def Let_def)

lemma snap_Deployment_ID: "snap_Deployment (NewTenantSnapshot data) ident = Some d \<Longrightarrow> dp_ID d = ident"
  by (auto simp: snap_Deployment_def NewTenantSnapshot_def dest: last_with_Some)

definition indexed :: "tenant_snapshot \<Rightarrow> bool" where
  "indexed s \<longleftrightarrow> (\<forall>ident d. snap_Deployment s ident = Some d \<longrightarrow> dp_ID d = ident)"

lemma indexed_New [simp]: "indexed (NewTenantSnapshot data)"
  by (simp add: indexed_def snap_Deployment_ID)

lemma eligible_ids_filter:
  assumes "indexed s"
  shows "map dp_ID (eligible_deployments inp s policy) = filter (admissible inp s) (rp_DeploymentIDs policy)"
proof -
  have "map dp_ID (List.map_filter (\<lambda>ident. case snap_Deployment s ident of None \<Rightarrow> None
        | Some d \<Rightarrow> if exclusions inp s ident d = [] then Some d else None) ids) = filter (admissible inp s) ids" for ids
  proof (induction ids)
    case (Cons i ids)
    show ?case
      by (cases "snap_Deployment s i")
         (use assms Cons in \<open>auto simp: List.map_filter_simps exclusions_admissible indexed_def, simp_all add: admissible_def\<close>)
  qed (simp add: List.map_filter_simps)
  then show ?thesis by (simp add: eligible_deployments_def)
qed

lemma plan_order_perm:
  "plan_order sha mlog p policy inp s items = (p', Some (order, r)) \<Longrightarrow> mset order = mset (map dp_ID items)"
  by (cases r)
     (auto simp: plan_order_def Let_def rot.order_perm split: if_split_asm prod.split_asm)

lemmas plan_cases = planner_Plan_def Let_def

lemma plan_success:
  assumes "in_Snapshot inp = Some s" "planner_Plan sha mlog p inp = (p', Some plan, None)"
  obtains logical policy order scores breaks where
    "snap_LogicalModel s (in_LogicalModel inp) = Some logical"
    "allowedModel (ak_ModelAllowlist (in_Key inp)) (in_LogicalModel inp)"
    "snap_RoutePolicy s (lm_RoutePolicyID logical) = Some policy"
    "rp_ProjectID policy \<in> {'''', in_ProjectID inp}"
    "eligible_deployments inp s policy \<noteq> []"
    "plan_order sha mlog p policy inp s (eligible_deployments inp s policy) = (p', Some (order, scores, breaks))"
    "pl_fallback plan = order" "pl_selected plan = order ! 0"
    "pl_evidence plan = map (with_scores scores breaks) (map (evidence_for inp s policy) (rp_DeploymentIDs policy))"
  using assms by (auto simp: plan_cases split: option.split_asm if_split_asm prod.split_asm)

lemma plan_fallback_perm:
  assumes "indexed s" "plan_order sha mlog p policy inp s (eligible_deployments inp s policy) = (p', Some (order, r))"
  shows "mset order = mset (filter (admissible inp s) (rp_DeploymentIDs policy))"
  using plan_order_perm [OF assms(2)] eligible_ids_filter [OF assms(1), of inp policy] by simp

lemma plan_fallback_admissible:
  assumes "indexed s" "in_Snapshot inp = Some s" "planner_Plan sha mlog p inp = (p', Some plan, None)" "i \<in> set (pl_fallback plan)"
  shows "admissible inp s i"
proof -
  obtain policy order r where "plan_order sha mlog p policy inp s (eligible_deployments inp s policy) = (p', Some (order, r))"
    and f: "pl_fallback plan = order"
    using plan_success [OF assms(2,3)] by metis
  from plan_fallback_perm [OF assms(1) this(1)] have "set order = set (filter (admissible inp s) (rp_DeploymentIDs policy))"
    by (metis set_mset_mset)
  with f assms(4) show ?thesis by simp
qed

text \<open>C12: A successful plan is exactly the admissible part of the policy. The fallback chain holds every
  deployment of the policy that is enabled, served by a usable provider and credential, able to
  serve the request, allowed by the project and its data residency, and not known to be unhealthy
  or open, each as often as the policy lists it, and no other; the selected deployment is its head;
  and the evidence marks a deployment eligible exactly when it gives no exclusion.\<close>

theorem plan_exact:
  assumes "in_Snapshot inp = Some (NewTenantSnapshot data)"
    and "planner_Plan sha mlog p inp = (p', Some plan, None)"
  shows "\<exists>logical policy. snap_LogicalModel (NewTenantSnapshot data) (in_LogicalModel inp) = Some logical
      \<and> snap_RoutePolicy (NewTenantSnapshot data) (lm_RoutePolicyID logical) = Some policy
      \<and> allowedModel (ak_ModelAllowlist (in_Key inp)) (in_LogicalModel inp)
      \<and> rp_ProjectID policy \<in> {'''', in_ProjectID inp}
      \<and> pl_fallback plan \<noteq> [] \<and> pl_selected plan = hd (pl_fallback plan)
      \<and> mset (pl_fallback plan) = mset (filter (admissible inp (NewTenantSnapshot data)) (rp_DeploymentIDs policy))
      \<and> map (\<lambda>e. (ce_DeploymentID e, ce_Exclusions e = [])) (pl_evidence plan)
          = map (\<lambda>i. (i, admissible inp (NewTenantSnapshot data) i)) (rp_DeploymentIDs policy)"
proof -
  let ?s = "NewTenantSnapshot data"
  have ev: "ce_DeploymentID (evidence_for inp ?s policy i) = i" for policy i
    by (auto simp: evidence_for_def Let_def split: option.splits)
  obtain logical policy order scores breaks where
    l: "snap_LogicalModel ?s (in_LogicalModel inp) = Some logical"
    and a: "allowedModel (ak_ModelAllowlist (in_Key inp)) (in_LogicalModel inp)"
    and r: "snap_RoutePolicy ?s (lm_RoutePolicyID logical) = Some policy"
    and pr: "rp_ProjectID policy \<in> {'''', in_ProjectID inp}"
    and ne: "eligible_deployments inp ?s policy \<noteq> []"
    and o: "plan_order sha mlog p policy inp ?s (eligible_deployments inp ?s policy) = (p', Some (order, scores, breaks))"
    and f: "pl_fallback plan = order" and se: "pl_selected plan = order ! 0"
    and e: "pl_evidence plan = map (with_scores scores breaks) (map (evidence_for inp ?s policy) (rp_DeploymentIDs policy))"
    using assms by (rule plan_success)
  have perm: "mset order = mset (filter (admissible inp ?s) (rp_DeploymentIDs policy))"
    using indexed_New o by (rule plan_fallback_perm)
  have "order \<noteq> []" using plan_order_perm [OF o] ne by auto
  moreover have "map (\<lambda>e. (ce_DeploymentID e, ce_Exclusions e = [])) (pl_evidence plan)
      = map (\<lambda>i. (i, admissible inp ?s i)) (rp_DeploymentIDs policy)"
    by (simp add: e with_scores_def ev evidence_explained [symmetric] evidence_eligible)
  ultimately show ?thesis using l a r pr perm f se by (auto simp: hd_conv_nth)
qed

definition example_deployment :: "string \<Rightarrow> string \<Rightarrow> deployment" where
  "example_deployment ident status = \<lparr>dp_ID = ident, dp_ProviderID = ''p'', dp_CredentialID = ''c'', dp_UpstreamModel = ''u'',
     dp_DataRegion = ''eu'', dp_Status = status, dp_PoolID = '''', dp_Capabilities = [], dp_ContextWindow = 0,
     dp_Priority = 1\<rparr>"

definition example_data :: tenant_data where
  "example_data = \<lparr>td_TenantID = ''t'', td_TenantRef = ''t'', td_Status = ''active'', td_Version = 1, td_SecurityEpoch = 0,
     td_PublishedAt = 0,
     td_Projects = [\<lparr>pj_ID = ''j'', pj_Status = ''active'', pj_AllowedDataRegions = [''eu''],
       pj_ResidencyEnforcement = ''strict''\<rparr>],
     td_Providers = [\<lparr>pv_ID = ''p'', pv_OwnerScope = '''', pv_Type = '''', pv_Endpoint = '''', pv_Status = ''enabled''\<rparr>],
     td_Credentials = [\<lparr>cr_ID = ''c'', cr_ProviderID = ''p'', cr_OwnerScope = '''', cr_SecretRef = '''',
       cr_Status = ''enabled''\<rparr>],
     td_Deployments = [example_deployment ''b'' ''enabled'', example_deployment ''a'' ''enabled'',
       example_deployment ''x'' ''disabled''],
     td_RoutePolicies = [\<lparr>rp_ID = ''r'', rp_ProjectID = '''', rp_Strategy = ''round_robin'',
       rp_DeploymentIDs = [''b'', ''x'', ''a''], rp_Weights = [], rp_ScoreWeights = [], rp_Version = 1\<rparr>],
     td_LogicalModels = [\<lparr>lm_ID = ''l'', lm_Alias = ''m'', lm_RoutePolicyID = ''r''\<rparr>],
     td_APIKeys = [], td_BudgetPolicies = [], td_CredentialPools = [], td_Leases = [],
     td_Circuit = \<lparr>rc_MinSamples = 0, rc_ErrorRate = 0, rc_InitialCooldownMS = 0, rc_MaxCooldownMS = 0, rc_CooldownFactor = 0\<rparr>,
     td_Drift = \<lparr>dm_Version = 0, dm_GraceMS = 0, dm_Strict = False, dm_SecurityEpoch = 0\<rparr>,
     td_Spool = \<lparr>sp_Mode = '''', sp_WarnThreshold = 0, sp_CriticalThreshold = 0, sp_HardThreshold = 0, sp_QuotaBytes = 0\<rparr>,
     td_Cache = \<lparr>cp_Enabled = False, cp_TTLSeconds = 0, cp_NamespaceVersion = 0, cp_AllowedKinds = [], cp_MaxTemperature = 0,
       cp_Semantic = \<lparr>sm_Enabled = False, sm_Model = '''', sm_Threshold = 0\<rparr>\<rparr>,
     td_MCPServers = [], td_Tools = [], td_ToolPolicies = [], td_Agents = [], td_AgentEndpoints = [],
     td_FederatedAgents = [], td_FederationRelationships = [],
     td_Guardrail = \<lparr>gp_Mode = '''', gp_SecurityEpoch = 0, gp_Rules = [],
       gp_Judge = \<lparr>gj_Enabled = False, gj_Model = '''', gj_Action = ''''\<rparr>,
       gp_Groundedness = \<lparr>gg_Enabled = False, gg_MinOverlap = 0\<rparr>\<rparr>\<rparr>"

definition example_input :: plan_input where
  "example_input = \<lparr>in_Snapshot = Some (NewTenantSnapshot example_data),
     in_Key = \<lparr>ak_ID = ''k'', ak_PublicID = ''k'', ak_ProjectID = ''j'', ak_ApplicationID = '''', ak_AgentID = '''',
       ak_ServiceAccountID = '''', ak_Status = ''active'', ak_HMACDigest = '''', ak_PepperVersion = 0, ak_ExpiresAt = None,
       ak_ModelAllowlist = [''m''], ak_IPAllowlist = []\<rparr>,
     in_LogicalModel = ''m'', in_ProjectID = ''j'', in_RequestID = ''q'', in_RoutingKey = '''', in_RequiredCapabilities = [],
     in_RequiresTools = False, in_ContextTokens = 0, in_Health = Map.empty, in_Circuit = Some (\<lambda>_ _. False),
     in_Metrics = Map.empty\<rparr>"

abbreviation example_planned :: "planner \<times> route_plan option \<times> plan_error option" where
  "example_planned \<equiv> planner_Plan (\<lambda>s. s) (\<lambda>x. x) (\<lambda>_. 0) example_input"

lemma example_plan:
  "map_option pl_fallback (fst (snd example_planned)) = Some [''a'', ''b''] \<and> snd (snd example_planned) = None"
  by code_simp

lemma example_plan_ok:
  "\<exists>plan. example_planned = (fst example_planned, Some plan, None) \<and> pl_fallback plan = [''a'', ''b'']"
  using example_plan by (cases example_planned) auto

theorem plan_exact_witness:
  "\<exists>plan. in_Snapshot example_input = Some (NewTenantSnapshot example_data)
     \<and> example_planned = (fst example_planned, Some plan, None)
     \<and> (\<exists>logical policy. snap_LogicalModel (NewTenantSnapshot example_data) (in_LogicalModel example_input) = Some logical
        \<and> snap_RoutePolicy (NewTenantSnapshot example_data) (lm_RoutePolicyID logical) = Some policy
        \<and> mset (pl_fallback plan)
            = mset (filter (admissible example_input (NewTenantSnapshot example_data)) (rp_DeploymentIDs policy)))"
proof -
  have s: "in_Snapshot example_input = Some (NewTenantSnapshot example_data)" by (simp add: example_input_def)
  obtain plan where plan: "example_planned = (fst example_planned, Some plan, None)"
    using example_plan_ok by blast
  from s plan plan_exact [OF s plan] show ?thesis by blast
qed

subsection \<open>Round robin\<close>

lemma rotate_from_nth:
  assumes "j < length xs" "i < length xs"
  shows "rotate_from j xs ! i = xs ! ((j + i) mod length xs)"
proof -
  have "rotate_from j xs = rotate j xs" using assms by (simp add: rotate_from_def rotate_drop_take)
  then show ?thesis using assms nth_rotate by metis
qed

lemma rr_start_below:
  "0 \<le> c \<Longrightarrow> c < 2 ^ 63 \<Longrightarrow> 0 < n \<Longrightarrow> rr_start c n = int (nat c mod n)"
  by (simp add: rr_start_def in_i64_def zmod_int)

lemma rr_next_below: "0 \<le> c \<Longrightarrow> c < 2 ^ 63 \<Longrightarrow> rr_next c = c + 1"
  by (simp add: rr_next_def)

text \<open>The input is served by a round robin policy with at least one admissible deployment.\<close>

definition rr_input :: "plan_input \<Rightarrow> tenant_snapshot \<Rightarrow> route_policy \<Rightarrow> bool" where
  "rr_input inp s policy \<longleftrightarrow>
     in_Snapshot inp = Some s
     \<and> (case snap_LogicalModel s (in_LogicalModel inp) of None \<Rightarrow> False
        | Some logical \<Rightarrow> snap_RoutePolicy s (lm_RoutePolicyID logical) = Some policy)
     \<and> allowedModel (ak_ModelAllowlist (in_Key inp)) (in_LogicalModel inp)
     \<and> (rp_ProjectID policy = '''' \<or> rp_ProjectID policy = in_ProjectID inp)
     \<and> rp_Strategy policy = ''round_robin'' \<and> eligible_deployments inp s policy \<noteq> []"

abbreviation rr_items :: "plan_input \<Rightarrow> tenant_snapshot \<Rightarrow> route_policy \<Rightarrow> string list" where
  "rr_items inp s policy \<equiv> map dp_ID (sort_key dp_ID (eligible_deployments inp s policy))"

lemma rr_items_Nil [simp]: "rr_input inp s policy \<Longrightarrow> rr_items inp s policy \<noteq> []"
  by (auto simp: rr_input_def)

lemma rr_plan:
  assumes "rr_input inp s policy" "0 \<le> p (rr_key s policy)" "p (rr_key s policy) < 2 ^ 63"
  shows "\<exists>plan. planner_Plan sha mlog p inp = (p(rr_key s policy := p (rr_key s policy) + 1), Some plan, None)
    \<and> pl_fallback plan = rotate_from (nat (p (rr_key s policy)) mod length (rr_items inp s policy)) (rr_items inp s policy)
    \<and> pl_selected plan = rr_items inp s policy ! (nat (p (rr_key s policy)) mod length (rr_items inp s policy))"
proof -
  let ?e = "eligible_deployments inp s policy" and ?c = "p (rr_key s policy)"
  let ?i = "sort_key dp_ID ?e"
  have ne: "?e \<noteq> []" and n: "0 < length ?i" using assms(1) by (auto simp: rr_input_def)
  have start: "rr_start ?c (length ?i) = int (nat ?c mod length ?i)" using assms(2,3) n by (rule rr_start_below)
  have lt: "nat ?c mod length ?e < length ?e" using ne by simp
  have order: "plan_order sha mlog p policy inp s ?e =
      (p(rr_key s policy := ?c + 1), Some (map dp_ID (rotate_from (nat ?c mod length ?i) ?i), \<lambda>_. 0, Map.empty))"
    using assms start rr_next_below [OF assms(2,3)] by (simp add: plan_order_def rr_input_def Let_def)
  have rot: "map dp_ID (rotate_from (nat ?c mod length ?i) ?i) = rotate_from (nat ?c mod length ?i) (map dp_ID ?i)"
    by (simp add: rotate_from_def take_map drop_map)
  have "rotate_from (nat ?c mod length ?i) (map dp_ID ?i) ! 0 = map dp_ID ?i ! (nat ?c mod length ?i)"
    using lt rotate_from_nth [of "nat ?c mod length ?i" "map dp_ID ?i" 0] ne by simp
  then show ?thesis
    using assms(1) order ne rot by (auto simp: planner_Plan_def rr_input_def Let_def split: option.splits)
qed

fun plan_selections ::
  "(string \<Rightarrow> string) \<Rightarrow> (f64 \<Rightarrow> f64) \<Rightarrow> nat \<Rightarrow> planner \<Rightarrow> plan_input \<Rightarrow> string option list" where
  "plan_selections sha mlog 0 p inp = []"
| "plan_selections sha mlog (Suc k) p inp =
     (case planner_Plan sha mlog p inp of
        (p', Some plan, None) \<Rightarrow> Some (pl_selected plan) # plan_selections sha mlog k p' inp
      | (p', _, _) \<Rightarrow> None # plan_selections sha mlog k p' inp)"

lemma rr_selections:
  "rr_input inp s policy \<Longrightarrow> 0 \<le> p (rr_key s policy) \<Longrightarrow> p (rr_key s policy) + int k \<le> 2 ^ 63 \<Longrightarrow>
   plan_selections sha mlog k p inp =
     map (\<lambda>i. Some (rr_items inp s policy ! ((nat (p (rr_key s policy)) + i) mod length (rr_items inp s policy)))) [0..<k]"
proof (induction k arbitrary: p)
  case (Suc k)
  let ?c = "p (rr_key s policy)" and ?p = "p(rr_key s policy := p (rr_key s policy) + 1)"
  obtain plan where plan: "planner_Plan sha mlog p inp = (?p, Some plan, None)"
    and sel: "pl_selected plan = rr_items inp s policy ! (nat ?c mod length (rr_items inp s policy))"
    using rr_plan [of inp s policy p sha mlog] Suc.prems by auto
  have c: "?p (rr_key s policy) = ?c + 1" and s: "nat (?c + 1) = Suc (nat ?c)" using Suc.prems by simp_all
  have "0 \<le> ?p (rr_key s policy)" "?p (rr_key s policy) + int k \<le> 2 ^ 63" using Suc.prems by simp_all
  from Suc.IH [of ?p, OF Suc.prems(1) this] have "plan_selections sha mlog k ?p inp =
      map (\<lambda>i. Some (rr_items inp s policy ! ((Suc (nat ?c) + i) mod length (rr_items inp s policy)))) [0..<k]"
    by (simp only: c s)
  moreover have "[0..<Suc k] = 0 # map Suc [0..<k]" by (simp add: map_Suc_upt upt_conv_Cons del: upt_Suc)
  ultimately show ?case using plan sel by (simp add: comp_def del: upt_Suc)
qed simp

lemma cyclic_covers:
  fixes n :: nat
  assumes "0 < n" "n \<le> k"
  shows "(\<lambda>i. f (i mod n)) ` {0..<k} = f ` {0..<n}"
proof
  show "(\<lambda>i. f (i mod n)) ` {0..<k} \<subseteq> f ` {0..<n}" using assms by auto
  show "f ` {0..<n} \<subseteq> (\<lambda>i. f (i mod n)) ` {0..<k}"
  proof clarify
    fix i assume "i \<in> {0..<n}"
    with assms show "f i \<in> (\<lambda>i. f (i mod n)) ` {0..<k}" by (intro image_eqI [of _ _ i]) auto
  qed
qed

text \<open>C32: Round robin is fair. While the 64-bit counter of the policy stays below its sign bit, k consecutive
  requests for a policy select the deployments of the first fallback chain cyclically, in its order;
  so any number of requests that is at least the number of admissible deployments reaches every one
  of them.\<close>

theorem round_robin_fair:
  assumes "rr_input inp s policy" and "0 \<le> p (rr_key s policy)" and "p (rr_key s policy) + int k \<le> 2 ^ 63" and "0 < k"
  shows "\<exists>p' plan. planner_Plan sha mlog p inp = (p', Some plan, None)
    \<and> plan_selections sha mlog k p inp = map (\<lambda>i. Some (pl_fallback plan ! (i mod length (pl_fallback plan)))) [0..<k]
    \<and> (length (pl_fallback plan) \<le> k \<longrightarrow> set (plan_selections sha mlog k p inp) = Some ` set (pl_fallback plan))"
proof -
  let ?B = "rr_items inp s policy" and ?c = "nat (p (rr_key s policy))"
  let ?n = "length ?B"
  have n: "0 < ?n" using rr_items_Nil [OF assms(1)] by blast
  have "p (rr_key s policy) < 2 ^ 63" using assms(3,4) by simp
  from rr_plan [where p = p, OF assms(1,2) this] obtain p' plan where plan: "planner_Plan sha mlog p inp = (p', Some plan, None)"
    and f: "pl_fallback plan = rotate_from (?c mod ?n) ?B" by blast
  have len: "length (pl_fallback plan) = ?n" unfolding f by (rule rot.order_length)
  have nth: "pl_fallback plan ! (i mod ?n) = ?B ! ((?c + i) mod ?n)" for i
    unfolding f using rotate_from_nth [of "?c mod ?n" ?B "i mod ?n"] n by (simp only: mod_less_divisor mod_add_eq)
  have sel: "plan_selections sha mlog k p inp = map (\<lambda>i. Some (pl_fallback plan ! (i mod ?n))) [0..<k]"
    unfolding nth using assms by (intro rr_selections)
  have "set (plan_selections sha mlog k p inp) = Some ` set (pl_fallback plan)" if "?n \<le> k"
  proof -
    have "set (plan_selections sha mlog k p inp) = (\<lambda>i. Some (pl_fallback plan ! i)) ` {0..<?n}"
      using cyclic_covers [OF n that, of "\<lambda>i. Some (pl_fallback plan ! i)"] by (simp only: sel set_map set_upt)
    also have "\<dots> = Some ` (!) (pl_fallback plan) ` {0..<length (pl_fallback plan)}" by (simp only: len image_image)
    also have "\<dots> = Some ` set (pl_fallback plan)"
      by (simp only: nth_image [OF order.refl] take_all order.refl)
    finally show ?thesis .
  qed
  with sel have "plan_selections sha mlog k p inp = map (\<lambda>i. Some (pl_fallback plan ! (i mod length (pl_fallback plan)))) [0..<k]
    \<and> (length (pl_fallback plan) \<le> k \<longrightarrow> set (plan_selections sha mlog k p inp) = Some ` set (pl_fallback plan))"
    unfolding len by blast
  with plan show ?thesis by blast
qed

lemma example_rr_input: 
  "rr_input example_input (NewTenantSnapshot example_data) (hd (td_RoutePolicies example_data))"
  by code_simp

theorem round_robin_fair_witness:
  "\<exists>p' plan. planner_Plan (\<lambda>s. s) (\<lambda>x. x) (\<lambda>_. 0) example_input = (p', Some plan, None)
    \<and> plan_selections (\<lambda>s. s) (\<lambda>x. x) 5 (\<lambda>_. 0) example_input
        = map (\<lambda>i. Some (pl_fallback plan ! (i mod length (pl_fallback plan)))) [0..<5]
    \<and> (length (pl_fallback plan) \<le> 5 \<longrightarrow>
        set (plan_selections (\<lambda>s. s) (\<lambda>x. x) 5 (\<lambda>_. 0) example_input) = Some ` set (pl_fallback plan))"
  by (rule round_robin_fair [OF example_rr_input]) simp_all

subsection \<open>The order does not depend on how the policy lists its deployments\<close>

lemma sort_key_perm:
  assumes "mset xs = mset ys" "distinct (map f xs)"
  shows "sort_key f xs = sort_key f ys"
proof -
  have "inj_on f (set xs)" using assms(2) by (simp add: distinct_map)
  then show ?thesis using assms(1) by (intro sort_key_inj_key_eq) auto
qed



subsection \<open>Agent endpoints\<close>

text \<open>
  The router of \<^verbatim>\<open>internal/agentic/routing\<close>. It ranges over the endpoint map of the snapshot once
  per agent; Go fixes no order for that, so \<open>visit agentID\<close> is the order of the endpoints in the
  iteration for the agent. The window argument is not used and \<^verbatim>\<open>From\<close> and \<^verbatim>\<open>To\<close> are never set.
\<close>

record endpoint_metrics =
  em_Health :: f64
  em_Cost :: f64
  em_LatencyMS :: f64

record agent_score =
  as_EndpointID :: string
  as_Health :: f64
  as_Cost :: f64
  as_LatencyMS :: f64
  as_Total :: f64

record agent_plan =
  ap_Capability :: string
  ap_Selected :: string
  ap_Fallback :: "string list"
  ap_Scores :: "agent_score list"

datatype agent_route_error = ErrNoEligibleAgent

type_synonym agent_router = "(string \<times> f64) list"

definition NewRouter :: "(string \<times> f64) list option \<Rightarrow> agent_router" where
  "NewRouter weights = (case weights of None \<Rightarrow> [(''health'', 1), (''cost'', 1), (''latency'', 1)] | Some w \<Rightarrow> w)"

definition normLow :: "f64 \<Rightarrow> f64" where
  "normLow value0 =
     (let value = (if value0 < 0 then 0 else value0);
          scale = fadd value 1;
          normalized = fdiv value scale
      in if 1 < normalized then 1 else normalized)"

definition router_score :: "agent_router \<Rightarrow> string \<Rightarrow> endpoint_metrics \<Rightarrow> agent_score" where
  "router_score r endpointID metric =
     (let health = em_Health metric;
          cost = normLow (em_Cost metric);
          latency = normLow (em_LatencyMS metric);
          total = fadd (fadd (fmul (score_weight r ''health'') (fsub 1 health)) (fmul (score_weight r ''cost'') cost))
                       (fmul (score_weight r ''latency'') latency)
      in \<lparr>as_EndpointID = endpointID, as_Health = health, as_Cost = em_Cost metric,
          as_LatencyMS = em_LatencyMS metric, as_Total = total\<rparr>)"

definition endpoint_metric :: "(string \<rightharpoonup> endpoint_metrics) \<Rightarrow> string \<Rightarrow> endpoint_metrics" where
  "endpoint_metric metrics ident =
     (case metrics ident of None \<Rightarrow> \<lparr>em_Health = 0, em_Cost = 0, em_LatencyMS = 0\<rparr> | Some x \<Rightarrow> x)"

definition eligible_endpoints ::
  "(string \<Rightarrow> agent_endpoint list) \<Rightarrow> tenant_snapshot \<Rightarrow> string \<Rightarrow> agent_endpoint list" where
  "eligible_endpoints visit s capability =
     concat (map (\<lambda>ident. filter (\<lambda>e. ae_AgentID e = ident \<and> contains (ae_Capabilities e) capability) (visit ident))
       (AgentsByCapability s capability))"

definition router_Plan ::
  "(string \<Rightarrow> agent_endpoint list) \<Rightarrow> agent_router \<Rightarrow> tenant_snapshot option \<Rightarrow> string \<Rightarrow> (string \<rightharpoonup> endpoint_metrics)
     \<Rightarrow> agent_route_error + agent_plan" where
  "router_Plan visit r snapshot capability metrics =
     (case snapshot of None \<Rightarrow> Inl ErrNoEligibleAgent
      | Some s \<Rightarrow>
          let eligible = eligible_endpoints visit s capability
          in if eligible = [] then Inl ErrNoEligibleAgent
             else
               let scores = sort_key as_Total
                     (map (\<lambda>e. router_score r (ae_ID e) (endpoint_metric metrics (ae_ID e))) eligible)
               in Inr \<lparr>ap_Capability = capability, ap_Selected = as_EndpointID (scores ! 0),
                       ap_Fallback = map as_EndpointID scores, ap_Scores = scores\<rparr>)"

text \<open>The iteration orders Go may choose: each visits every endpoint of the snapshot once.\<close>

definition visits :: "(string \<Rightarrow> agent_endpoint list) \<Rightarrow> tenant_snapshot \<Rightarrow> bool" where
  "visits visit s \<longleftrightarrow> (\<forall>ident. mset (visit ident) = mset (snap_AgentEndpoints s))"

lemma eligible_endpoints_mset:
  assumes "visits visit s"
  shows "mset (eligible_endpoints visit s capability) = mset (eligible_endpoints (\<lambda>_. snap_AgentEndpoints s) s capability)"
proof -
  have "mset (concat (map (\<lambda>i. filter (P i) (visit i)) ids)) = mset (concat (map (\<lambda>i. filter (P i) (snap_AgentEndpoints s)) ids))"
    for P :: "string \<Rightarrow> agent_endpoint \<Rightarrow> bool" and ids
    using assms by (induction ids) (simp_all add: visits_def)
  then show ?thesis by (simp add: eligible_endpoints_def)
qed

lemma eligible_endpoints_set:
  assumes "visits visit (NewTenantSnapshot d)"
  shows "set (eligible_endpoints visit (NewTenantSnapshot d) capability)
    = {e \<in> set (snap_AgentEndpoints (NewTenantSnapshot d)). capability \<in> set (ae_Capabilities e)}"
proof -
  let ?s = "NewTenantSnapshot d"
  have v: "set (visit i) = set (snap_AgentEndpoints ?s)" for i
    using assms by (metis visits_def set_mset_mset)
  have "ae_AgentID e \<in> set (AgentsByCapability ?s capability)"
    if "e \<in> set (snap_AgentEndpoints ?s)" "capability \<in> set (ae_Capabilities e)" for e
  proof -
    have "e \<in> set (td_AgentEndpoints d)"
      using that(1) set_snapshotCollect [of "index_by ae_ID (td_AgentEndpoints d)"]
      by (auto simp: snap_AgentEndpoints_def NewTenantSnapshot_def dest: last_with_Some)
    then show ?thesis using that(2) AgentsByCapability_agents [of d capability] by auto
  qed
  then show ?thesis by (auto simp: eligible_endpoints_def v contains_def)
qed

lemma eligible_endpoints_distinct:
  assumes "visits visit s" "distinct (map ae_ID (snap_AgentEndpoints s))" "distinct (AgentsByCapability s capability)"
  shows "distinct (map ae_ID (eligible_endpoints visit s capability))"
proof -
  have v: "set (visit i) = set (snap_AgentEndpoints s)" "distinct (map ae_ID (visit i))" for i
    using assms(1,2) by (metis visits_def set_mset_mset, metis visits_def mset_map mset_eq_imp_distinct_iff)
  have inj: "inj_on ae_ID (set (snap_AgentEndpoints s))" using assms(2) by (simp add: distinct_map)
  have "distinct (map ae_ID (concat (map (\<lambda>i. filter (\<lambda>e. ae_AgentID e = i \<and> P e) (visit i)) ids)))"
    if "distinct ids" for P ids
    using that
  proof (induction ids)
    case (Cons i ids)
    have "ae_ID ` {e \<in> set (snap_AgentEndpoints s). ae_AgentID e = i \<and> P e}
        \<inter> ae_ID ` (\<Union>j \<in> set ids. {e \<in> set (snap_AgentEndpoints s). ae_AgentID e = j \<and> P e}) = {}"
      using Cons.prems inj_onD [OF inj] by fastforce
    moreover have "distinct (map ae_ID (filter (\<lambda>e. ae_AgentID e = i \<and> P e) (visit i)))"
      using v(2) by (rule distinct_map_filter)
    ultimately show ?case using Cons by (simp add: v(1))
  qed simp
  then show ?thesis using assms(3) by (simp add: eligible_endpoints_def)
qed

lemma router_PlanE:
  assumes "router_Plan visit r (Some s) capability metrics = Inr plan"
  obtains scores where "scores = sort_key as_Total (map (\<lambda>e. router_score r (ae_ID e) (endpoint_metric metrics (ae_ID e)))
      (eligible_endpoints visit s capability))"
    "scores \<noteq> []" "ap_Scores plan = scores" "ap_Fallback plan = map as_EndpointID scores" "ap_Selected plan = as_EndpointID (scores ! 0)"
  using assms that by (auto simp: router_Plan_def Let_def split: if_split_asm)

text \<open>C34: Agent routing by capability is exact and ordered by score. The fallback chain of an agent plan lists,
  each once, exactly the endpoints of the snapshot that offer the capability, from the lowest
  total score to the highest, starting with the selected one; and the sequence of scores is
  the same for every order in which the endpoint map is iterated.\<close>

theorem agent_plan_exact:
  assumes "visits visit (NewTenantSnapshot d)"
    and "router_Plan visit r (Some (NewTenantSnapshot d)) capability metrics = Inr plan"
  shows "distinct (ap_Fallback plan)
    \<and> set (ap_Fallback plan) =
        {ae_ID e | e. e \<in> set (snap_AgentEndpoints (NewTenantSnapshot d)) \<and> capability \<in> set (ae_Capabilities e)}
    \<and> ap_Selected plan = hd (ap_Fallback plan) \<and> sorted (map as_Total (ap_Scores plan))
    \<and> map as_Total (ap_Scores plan) = sort (map as_Total (map (\<lambda>e. router_score r (ae_ID e) (endpoint_metric metrics (ae_ID e)))
        (eligible_endpoints (\<lambda>_. snap_AgentEndpoints (NewTenantSnapshot d)) (NewTenantSnapshot d) capability)))"
proof -
  let ?s = "NewTenantSnapshot d"
  let ?sc = "\<lambda>e. router_score r (ae_ID e) (endpoint_metric metrics (ae_ID e))"
  obtain scores where sc: "scores = sort_key as_Total (map ?sc (eligible_endpoints visit ?s capability))"
    and ne: "scores \<noteq> []" and plan: "ap_Scores plan = scores" "ap_Fallback plan = map as_EndpointID scores"
      "ap_Selected plan = as_EndpointID (scores ! 0)"
    using assms(2) by (rule router_PlanE)
  have ids: "as_EndpointID \<circ> ?sc = ae_ID" by (auto simp: router_score_def Let_def)
  have "mset (ap_Fallback plan) = mset (map ae_ID (eligible_endpoints visit ?s capability))"
    by (simp add: plan sc image_mset.compositionality ids)
  moreover have "distinct (map ae_ID (eligible_endpoints visit ?s capability))"
  proof (rule eligible_endpoints_distinct [OF assms(1)])
    show "distinct (map ae_ID (snap_AgentEndpoints ?s))"
      using index_by_distinct [of ae_ID "td_AgentEndpoints d"]
      by (simp add: snap_AgentEndpoints_def NewTenantSnapshot_def index_by_collect keys_distinct_def)
    show "distinct (AgentsByCapability ?s capability)" using AgentsByCapability_agents by blast
  qed
  ultimately have "distinct (ap_Fallback plan)"
    and "set (ap_Fallback plan) = ae_ID ` set (eligible_endpoints visit ?s capability)"
    by (metis mset_eq_imp_distinct_iff, metis mset_eq_setD set_map)
  moreover have "map as_Total scores = sort (map as_Total (map ?sc (eligible_endpoints (\<lambda>_. snap_AgentEndpoints ?s) ?s capability)))"
    by (rule properties_for_sort [symmetric])
       (simp_all add: sc eligible_endpoints_mset [OF assms(1)] image_mset.compositionality)
  ultimately show ?thesis
    using ne by (auto simp: plan sc eligible_endpoints_set [OF assms(1)] hd_conv_nth hd_map)
qed

definition example_endpoint :: "string \<Rightarrow> agent_endpoint" where
  "example_endpoint ident = \<lparr>ae_ID = ident, ae_AgentID = ''g'', ae_Version = '''', ae_URL = '''', ae_Protocol = '''',
     ae_AuthScheme = '''', ae_SecretRef = '''', ae_Headers = [], ae_DataClassification = '''', ae_Capabilities = [''search'']\<rparr>"

definition agent_data :: tenant_data where
  "agent_data = example_data\<lparr>td_AgentEndpoints := [example_endpoint ''e'', example_endpoint ''f'']\<rparr>"

lemma agent_endpoints: 
  "snap_AgentEndpoints (NewTenantSnapshot agent_data) = [example_endpoint ''e'', example_endpoint ''f'']"
  by (simp add: snap_AgentEndpoints_def snapshotCollect_def NewTenantSnapshot_def agent_data_def index_by_def example_endpoint_def)

lemma agent_capability: "AgentsByCapability (NewTenantSnapshot agent_data) ''search'' = [''g'']"
  by (simp add: AgentsByCapability_def NewTenantSnapshot_def agent_data_def example_data_def example_endpoint_def
      lookup_list_def indexCapabilities_def)

lemma agent_plan_at:
  "router_Plan (\<lambda>_. [example_endpoint x, example_endpoint y]) r (Some (NewTenantSnapshot agent_data)) ''search'' Map.empty
   = (let score = (\<lambda>i. router_score r i (endpoint_metric Map.empty i))
      in Inr \<lparr>ap_Capability = ''search'', ap_Selected = x, ap_Fallback = [x, y], ap_Scores = [score x, score y]\<rparr>)"
  by (simp add: router_Plan_def eligible_endpoints_def agent_capability example_endpoint_def contains_def
      router_score_def endpoint_metric_def Let_def)

text \<open>Endpoints with equal scores are ordered by the iteration of the map, so one snapshot and one set of
  metrics yield different plans.\<close>

lemma agent_plan_tie:
  "\<exists>visit visit' plan plan'. visits visit (NewTenantSnapshot agent_data) \<and> visits visit' (NewTenantSnapshot agent_data)
     \<and> router_Plan visit (NewRouter None) (Some (NewTenantSnapshot agent_data)) ''search'' Map.empty = Inr plan
     \<and> router_Plan visit' (NewRouter None) (Some (NewTenantSnapshot agent_data)) ''search'' Map.empty = Inr plan'
     \<and> ap_Selected plan \<noteq> ap_Selected plan'"
  by (rule exI [of _ "\<lambda>_. [example_endpoint ''e'', example_endpoint ''f'']"],
      rule exI [of _ "\<lambda>_. [example_endpoint ''f'', example_endpoint ''e'']"])
     (simp add: visits_def agent_endpoints agent_plan_at Let_def add_mset_commute)

theorem agent_plan_exact_witness:
  "\<exists>plan. visits (\<lambda>_. [example_endpoint ''f'', example_endpoint ''e'']) (NewTenantSnapshot agent_data)
     \<and> router_Plan (\<lambda>_. [example_endpoint ''f'', example_endpoint ''e'']) (NewRouter None)
         (Some (NewTenantSnapshot agent_data)) ''search'' Map.empty = Inr plan
     \<and> ap_Fallback plan = [''f'', ''e''] \<and> distinct (ap_Fallback plan) \<and> sorted (map as_Total (ap_Scores plan))"
proof -
  have v: "visits (\<lambda>_. [example_endpoint ''f'', example_endpoint ''e'']) (NewTenantSnapshot agent_data)"
    by (simp add: visits_def agent_endpoints add_mset_commute)
  obtain plan where plan: "router_Plan (\<lambda>_. [example_endpoint ''f'', example_endpoint ''e'']) (NewRouter None)
      (Some (NewTenantSnapshot agent_data)) ''search'' Map.empty = Inr plan" and f: "ap_Fallback plan = [''f'', ''e'']"
    by (simp add: agent_plan_at Let_def)
  from v plan f agent_plan_exact [OF v plan] show ?thesis by blast
qed

end
