(* ===== verification/Interaction.thy ===== *)
theory Interaction
  imports Snapshot "HOL-Library.Sublist"
begin

text \<open>
  The protocol-neutral request and response types of \<^verbatim>\<open>internal/kernel/interaction/types.go\<close>, the client-safe
  errors of \<^verbatim>\<open>internal/kernel/errors\<close>, the request context of \<^verbatim>\<open>internal/kernel/context.go\<close> that the stages of
  the pipeline share, and the approval checkpoint of \<^verbatim>\<open>internal/gateway/approval\<close>. Raw JSON is a byte string;
  a nil map is the empty map.
\<close>

subsection \<open>Interactions\<close>

record principal_ref =
  pf_Type :: string
  pf_ID :: string

record resource_ref =
  rf_Type :: string
  rf_ID :: string

record federation_context =
  fx_RelationshipID :: string
  fx_ExternalAgentID :: string
  fx_AssuranceLevel :: string
  fx_DataBoundary :: string
  fx_TrustAnchorID :: string

record interaction_context =
  ix_Kind :: string
  ix_Protocol :: string
  ix_TenantID :: string
  ix_ProjectID :: string
  ix_SessionID :: string
  ix_TaskID :: string
  ix_RootTaskID :: string
  ix_ParentTaskID :: string
  ix_ParentRequestID :: string
  ix_TrustBoundary :: string
  ix_Direction :: string
  ix_Federation :: "federation_context option"
  ix_Caller :: principal_ref
  ix_Target :: resource_ref

definition IsExternalFederated :: "interaction_context \<Rightarrow> bool" where
  "IsExternalFederated c \<longleftrightarrow> ix_TrustBoundary c = ''external_federated''"

subsection \<open>Requests\<close>

record tool_function =
  tf_Name :: string
  tf_Description :: string
  tf_Parameters :: string

record tool_decl =
  to_Type :: string
  to_Function :: tool_function

record tool_call =
  tk_ID :: string
  tk_Type :: string
  tk_Name :: string
  tk_Arguments :: string

record content_part =
  pt_Kind :: string
  pt_MediaType :: string
  pt_DataURL :: string
  pt_URL :: string

record message =
  xm_Role :: string
  xm_Content :: string
  xm_ToolCallID :: string
  xm_ToolCalls :: "tool_call list"
  xm_CacheControl :: string
  xm_Parts :: "content_part list"

record responses_payload =
  rs_Model :: string
  rs_Messages :: "message list"
  rs_MaxOutputTokens :: "int option"
  rs_Temperature :: "f64 option"
  rs_TopP :: "f64 option"
  rs_Tools :: "tool_decl list"
  rs_ToolChoice :: string

record chat_payload =
  ch_Messages :: "message list"
  ch_MaxOutputTokens :: "int option"
  ch_Temperature :: "f64 option"
  ch_TopP :: "f64 option"
  ch_Stop :: "string list"
  ch_Tools :: "tool_decl list"
  ch_ToolChoice :: string
  ch_ResponseFormat :: string

record rerank_payload =
  re_Query :: string
  re_Documents :: "string list"
  re_TopN :: "int option"

record audio_payload =
  au_Operation :: string
  au_Filename :: string
  au_MediaType :: string
  au_Data :: string
  au_Language :: string
  au_Prompt :: string
  au_ResponseFormat :: string
  au_Temperature :: "f64 option"
  au_Input :: string
  au_Voice :: string
  au_Instructions :: string
  au_Speed :: "f64 option"

record batch_payload =
  ba_Operation :: string
  ba_ID :: string
  ba_InputFileID :: string
  ba_Endpoint :: string
  ba_CompletionWindow :: string
  ba_Limit :: int
  ba_After :: string
  ba_Metadata :: "string \<rightharpoonup> string"

record file_payload =
  fi_Operation :: string
  fi_ID :: string
  fi_Purpose :: string
  fi_Filename :: string
  fi_MediaType :: string
  fi_Data :: string
  fi_Limit :: int
  fi_After :: string

record provenance =
  pr_Source :: string
  pr_Trusted :: bool

record tool_payload =
  tq_Name :: string
  tq_Arguments :: string
  tq_Result :: string
  tq_Provenance :: provenance

record unified_request =
  ur_Kind :: string
  ur_Model :: string
  ur_Stream :: bool
  ur_Metadata :: "string \<rightharpoonup> string"
  ur_SessionID :: string
  ur_TaskID :: string
  ur_RootTaskID :: string
  ur_ParentTaskID :: string
  ur_Chat :: "chat_payload option"
  ur_Responses :: "responses_payload option"
  ur_Embedding :: "string list option"
  ur_Rerank :: "rerank_payload option"
  ur_Audio :: "audio_payload option"
  ur_Batch :: "batch_payload option"
  ur_File :: "file_payload option"
  ur_Tool :: "tool_payload option"
  ur_Parameters :: "string \<rightharpoonup> string"

definition message_HasImages :: "message \<Rightarrow> bool" where
  "message_HasImages m \<longleftrightarrow> list_ex (\<lambda>p. pt_Kind p = ''image'') (xm_Parts m)"

definition AddImage :: "message \<Rightarrow> content_part \<Rightarrow> message" where
  "AddImage m part = m\<lparr>xm_Parts := xm_Parts m @ [part\<lparr>pt_Kind := ''image''\<rparr>]\<rparr>"

definition request_HasImages :: "unified_request \<Rightarrow> bool" where
  "request_HasImages u \<longleftrightarrow> (case ur_Chat u of None \<Rightarrow> False | Some c \<Rightarrow> list_ex message_HasImages (ch_Messages c))"

definition request_ToolCalls :: "unified_request \<Rightarrow> bool" where
  "request_ToolCalls u \<longleftrightarrow>
     ur_Kind u = ''tool'' \<or> ur_Tool u \<noteq> None
     \<or> (case ur_Chat u of None \<Rightarrow> False
        | Some c \<Rightarrow> ch_Tools c \<noteq> []
            \<or> list_ex (\<lambda>m. xm_Role m = ''tool'' \<or> prefix ''tool_'' (xm_Role m) \<or> xm_ToolCalls m \<noteq> []) (ch_Messages c))"

subsection \<open>Responses\<close>

record unified_usage =
  xu_InputTokens :: int
  xu_OutputTokens :: int
  xu_CacheReadTokens :: int
  xu_CacheWriteTokens :: int
  xu_CachedInputTokens :: int
  xu_ReasoningTokens :: int
  xu_AudioInputTokens :: int
  xu_AudioOutputTokens :: int
  xu_ImageInputUnits :: int
  xu_ImageOutputUnits :: int
  xu_ToolCalls :: int
  xu_Source :: string
  xu_Estimated :: bool
  xu_EstimationMethod :: string

definition TotalTokens :: "unified_usage \<Rightarrow> int" where
  "TotalTokens u = i64 (xu_InputTokens u + xu_OutputTokens u)"

record audio_result =
  ar_Text :: string
  ar_Data :: string
  ar_ContentType :: string

datatype batch_result = BatchResult
  (br_ID: string) (br_Object: string) (br_Endpoint: string) (br_InputFileID: string) (br_OutputFileID: string)
  (br_ErrorFileID: string) (br_Status: string) (br_CompletionWindow: string) (br_Items: "batch_result list")
  (br_HasMore: bool) (br_FirstID: string) (br_LastID: string) (br_Raw: string)

datatype file_result = FileResult
  (fl_ID: string) (fl_Object: string) (fl_Bytes: int) (fl_CreatedAt: int) (fl_Filename: string) (fl_Purpose: string)
  (fl_Deleted: bool) (fl_Items: "file_result list") (fl_HasMore: bool) (fl_Raw: string)

record rerank_result =
  rk_Index :: int
  rk_RelevanceScore :: f64
  rk_Document :: string

record tool_result =
  tu_Name :: string
  tu_Content :: string
  tu_Provenance :: provenance

record choice =
  co_Index :: int
  co_Message :: message

record unified_response =
  xr_ID :: string
  xr_Model :: string
  xr_StopReason :: string
  xr_Usage :: unified_usage
  xr_CreatedAt :: gotime
  xr_Choices :: "choice list"
  xr_Embeddings :: "f64 list list"
  xr_Rerank :: "rerank_result list"
  xr_Audio :: "audio_result option"
  xr_Batch :: "batch_result option"
  xr_File :: "file_result option"
  xr_RawContent :: string
  xr_ToolResult :: "tool_result option"

subsection \<open>Errors\<close>

record kernel_error =
  ke_Code :: string
  ke_Message :: string
  ke_RequestID :: string
  ke_Retryable :: bool

text \<open>
  The errors the stages return: a client-safe error, a guardrail block, an upstream error with its code, no eligible
  deployment, the end of the request's context, or any other error.
\<close>

datatype gw_error =
    KernelError kernel_error | BlockError string | UpstreamError string | NoEligibleDeployment | ContextDone | OtherError string

definition StatusForCode :: "string \<Rightarrow> nat" where
  "StatusForCode code =
     (if code \<in> set [''UNAUTHORIZED'', ''INVALID_API_KEY'', ''invalid_api_key''] then 401
      else if code \<in> set [''MODEL_FORBIDDEN'', ''TOOL_FORBIDDEN'', ''PERMISSION_DENIED'', ''FEDERATION_UNTRUSTED'',
        ''FEDERATION_DENIED'', ''FEDERATION_HOP_LIMIT''] then 403
      else if code \<in> set [''INVALID_REQUEST'', ''TOOL_SCHEMA_INVALID'', ''GUARDRAIL_BLOCKED'', ''OUTPUT_GUARDRAIL_BLOCKED'',
        ''TOOL_DLP_BLOCKED''] then 400
      else if code = ''REQUEST_TOO_LARGE'' then 413
      else if code \<in> set [''RATE_LIMITED'', ''BUDGET_EXCEEDED'', ''BUDGET_BLOCKED'', ''A2A_TASK_LIMIT''] then 429
      else if code \<in> set [''TOOL_NOT_FOUND'', ''MODEL_NOT_FOUND'', ''NOT_FOUND''] then 404
      else if code \<in> set [''REQUIRE_APPROVAL'', ''A2A_TASK_IN_PROGRESS''] then 409
      else if code \<in> set [''NO_ELIGIBLE_DEPLOYMENT'', ''CIRCUIT_OPEN'', ''STREAMING_UNSUPPORTED'', ''LEASE_BUSY'', ''DRAINING''] then 503
      else if code \<in> set [''upstream_http_error'', ''upstream_transport_error''] then 502
      else 500)"

definition outcomeForError :: "gw_error \<Rightarrow> string" where
  "outcomeForError err =
     (case err of KernelError e \<Rightarrow> ke_Code e
      | BlockError _ \<Rightarrow> ''GUARDRAIL_BLOCKED''
      | UpstreamError code \<Rightarrow> if code \<noteq> '''' then code else ''ERROR''
      | NoEligibleDeployment \<Rightarrow> ''NO_ELIGIBLE_DEPLOYMENT''
      | ContextDone \<Rightarrow> ''TIMEOUT''
      | OtherError _ \<Rightarrow> ''ERROR'')"

subsection \<open>The request context\<close>

record request_context =
  xc_RequestID :: string
  xc_ReceivedAt :: gotime
  xc_Snapshot :: "tenant_snapshot option"
  xc_Interaction :: "interaction_context option"
  xc_Request :: "unified_request option"
  xc_Response :: "unified_response option"
  xc_Usage :: "unified_usage option"
  xc_Source :: string
  xc_Key :: api_key
  xc_SelectedDeploymentID :: string
  xc_ProviderCost :: "f64 option"
  xc_Latency :: duration
  xc_TTFT :: duration
  xc_Err :: "gw_error option"
  xc_CacheHit :: bool
  xc_CachePending :: bool
  xc_CacheKey :: string
  xc_HasStreamWriter :: bool
  xc_BudgetPolicyID :: string
  xc_ReservationID :: string
  xc_BudgetEstimated :: int
  xc_BudgetSoftWarning :: bool
  xc_TPMEstimated :: int

definition ctx_TenantID :: "request_context \<Rightarrow> string" where
  "ctx_TenantID c = (case xc_Interaction c of None \<Rightarrow> '''' | Some i \<Rightarrow> ix_TenantID i)"

definition ctx_ProjectID :: "request_context \<Rightarrow> string" where
  "ctx_ProjectID c = (case xc_Interaction c of None \<Rightarrow> '''' | Some i \<Rightarrow> ix_ProjectID i)"

definition ctx_SnapshotVersion :: "request_context \<Rightarrow> int" where
  "ctx_SnapshotVersion c = (case xc_Snapshot c of None \<Rightarrow> 0 | Some s \<Rightarrow> ts_Version s)"

subsection \<open>The approval checkpoint\<close>

record approval_decision =
  av_Action :: string
  av_Requester :: string
  av_Approved :: bool
  av_Rejected :: bool
  av_Approvers :: int
  av_DualNeeded :: bool

definition requiresApproval :: "request_context \<Rightarrow> interaction_context \<Rightarrow> bool" where
  "requiresApproval c i \<longleftrightarrow>
     (case xc_Snapshot c of None \<Rightarrow> False
      | Some s \<Rightarrow>
          if ix_Kind i = ''approval'' then True
          else if ix_Kind i = ''tool'' then
            (case snap_ToolPolicy s (ctx_ProjectID c) (rf_ID (ix_Target i)) of None \<Rightarrow> False | Some p \<Rightarrow> tp_RequireApproval p)
          else if ix_Kind i = ''agent'' then
            (case snap_Agent s (rf_ID (ix_Target i)) of None \<Rightarrow> False | Some a \<Rightarrow> ag_RequireApproval a)
          else False)"

definition approval_required :: "request_context \<Rightarrow> string \<Rightarrow> gw_error" where
  "approval_required c msg = KernelError \<lparr>ke_Code = ''REQUIRE_APPROVAL'', ke_Message = msg, ke_RequestID = xc_RequestID c,
     ke_Retryable = False\<rparr>"

text \<open>\<open>checker\<close> answers for the approval store; a nil checker turns the checkpoint off.\<close>

definition approval_Handle ::
  "(request_context \<Rightarrow> gw_error + approval_decision) option \<Rightarrow> request_context \<Rightarrow> gw_error option" where
  "approval_Handle checker c =
     (case (checker, xc_Interaction c) of
        (Some check, Some i) \<Rightarrow>
          if \<not> requiresApproval c i then None
          else (case check c of Inl err \<Rightarrow> Some err
                | Inr d \<Rightarrow>
                    if av_Rejected d then Some (approval_required c ''action was rejected'')
                    else if \<not> av_Approved d then Some (approval_required c ''action awaits approval'')
                    else if av_DualNeeded d \<and> av_Approvers d < 2 then Some (approval_required c ''action awaits dual approval'')
                    else None)
      | _ \<Rightarrow> None)"

end
