(* ===== verification/Admission.thy ===== *)
theory Admission
  imports Budget_Enforcer Routing Interaction
begin

text \<open>
  What a request is measured and charged before it runs: the tokenizer registry of \<^verbatim>\<open>internal/tokenizer\<close>, the
  token estimates and the budget policy of \<^verbatim>\<open>internal/app/pipeline.go\<close>, the context guard of
  \<^verbatim>\<open>internal/contextguard\<close>, and the reservation with the budget enforcer. Parameters of the definitions:
  \<open>lower\<close> is \<^verbatim>\<open>strings.ToLower\<close>, \<open>trim\<close> is \<^verbatim>\<open>strings.TrimSpace\<close>, \<open>marshal\<close> the JSON encoding of tool
  declarations (\<^const>\<open>None\<close> when it fails), and \<open>oor\<close> the conversion of a float outside the range of int64.
\<close>

subsection \<open>The tokenizer registry\<close>

record encoding =
  nc_Name :: string
  nc_CharsPerToken :: f64

record estimate_result =
  er_Tokens :: int
  er_Method :: string
  er_Version :: string

record tok_registry =
  rg_version :: string
  rg_models :: "(string \<times> string) list"
  rg_encodings :: "(string \<times> encoding) list"

abbreviation RegistryVersion :: string where "RegistryVersion \<equiv> ''v1''"

definition knownEncodings :: "(string \<times> encoding) list" where
  "knownEncodings = map (\<lambda>(n, r). (n, \<lparr>nc_Name = n, nc_CharsPerToken = r\<rparr>))
     [(''o200k_base'', 4), (''cl100k_base'', 4), (''claude'', fl (38 / 10)), (''llama'', 4), (''gemini'', 4)]"

definition tok_models :: "(string \<times> string) list" where
  "tok_models =
     [(''gpt-4o'', ''o200k_base''), (''gpt-4.1'', ''o200k_base''), (''o1'', ''o200k_base''), (''o3'', ''o200k_base''),
      (''gpt-3.5-turbo'', ''cl100k_base''), (''gpt-3.5'', ''cl100k_base''), (''gpt-4'', ''cl100k_base''),
      (''text-embedding-3'', ''cl100k_base''), (''text-embedding-ada-002'', ''cl100k_base''), (''claude'', ''claude''),
      (''llama'', ''llama''), (''mistral'', ''llama''), (''qwen'', ''llama''), (''gemini'', ''gemini'')]"

definition tok_New :: tok_registry where
  "tok_New = \<lparr>rg_version = RegistryVersion, rg_models = tok_models, rg_encodings = knownEncodings\<rparr>"

definition tok_Version :: "tok_registry option \<Rightarrow> string" where
  "tok_Version r = (case r of None \<Rightarrow> RegistryVersion | Some r \<Rightarrow> rg_version r)"

text \<open>One iteration of the loop over the model table; the list is the table in the order of iteration.\<close>

definition better_key :: "(string \<Rightarrow> string) \<Rightarrow> string \<Rightarrow> string \<Rightarrow> string \<Rightarrow> string" where
  "better_key lower model best key =
     (let k = lower key in if prefix k model \<and> length best < length k then key else best)"

definition encodingFor :: "(string \<Rightarrow> string) \<Rightarrow> tok_registry \<Rightarrow> string \<Rightarrow> encoding option" where
  "encodingFor lower r model0 =
     (let model = lower model0;
          best = foldl (better_key lower model) '''' (map fst (rg_models r))
      in if best = '''' then None
         else map_of (rg_encodings r) (case map_of (rg_models r) best of None \<Rightarrow> '''' | Some n \<Rightarrow> n))"

text \<open>\<^verbatim>\<open>math.Ceil\<close> is exact.\<close>

definition f_ceil :: "f64 \<Rightarrow> f64" where
  "f_ceil x = of_int \<lceil>x\<rceil>"

definition conservativeEstimateRunes :: "(f64 \<Rightarrow> int) \<Rightarrow> int \<Rightarrow> estimate_result" where
  "conservativeEstimateRunes oor runes =
     (let tokens = f_to_i64 oor (f_ceil (fmul (f_ceil (fdiv (f_of_int runes) (fl (33 / 10)))) (fl (12 / 10))))
      in \<lparr>er_Tokens = (if tokens < 1 then 1 else tokens), er_Method = ''conservative'', er_Version = RegistryVersion\<rparr>)"

definition EstimateRunes ::
  "(f64 \<Rightarrow> int) \<Rightarrow> (string \<Rightarrow> string) \<Rightarrow> tok_registry option \<Rightarrow> string \<Rightarrow> int \<Rightarrow> estimate_result" where
  "EstimateRunes oor lower registry model runes =
     (case registry of None \<Rightarrow> conservativeEstimateRunes oor runes
      | Some r \<Rightarrow>
          case encodingFor lower r model of None \<Rightarrow> conservativeEstimateRunes oor runes
          | Some enc \<Rightarrow>
              let tokens = f_to_i64 oor (f_ceil (fdiv (f_of_int runes) (nc_CharsPerToken enc)))
              in \<lparr>er_Tokens = (if tokens < 1 then 1 else tokens), er_Method = ''local'', er_Version = rg_version r\<rparr>)"

text \<open>
  \<^verbatim>\<open>len([]rune(text))\<close>: the bytes the first code point of a string takes, an invalid byte counting as one
  code point.
\<close>

definition between :: "nat \<Rightarrow> nat \<Rightarrow> char list \<Rightarrow> bool" where
  "between lo hi cs = (case cs of [] \<Rightarrow> False | c # _ \<Rightarrow> lo \<le> (of_char c :: nat) \<and> (of_char c :: nat) \<le> hi)"

definition rune_len :: "char \<Rightarrow> char list \<Rightarrow> nat" where
  "rune_len c cs =
     (let b = (of_char c :: nat); cont = between 128 191;
          second = (if b = 224 then between 160 191 cs else if b = 237 then between 128 159 cs
                    else if b = 240 then between 144 191 cs else if b = 244 then between 128 143 cs else cont cs)
      in if 194 \<le> b \<and> b \<le> 223 \<and> second then 2
         else if 224 \<le> b \<and> b \<le> 239 \<and> second \<and> cont (drop 1 cs) then 3
         else if 240 \<le> b \<and> b \<le> 244 \<and> second \<and> cont (drop 1 cs) \<and> cont (drop 2 cs) then 4
         else 1)"

function rune_count :: "string \<Rightarrow> int" where
  "rune_count [] = 0"
| "rune_count (c # cs) = 1 + rune_count (drop (rune_len c cs - 1) cs)"
  by pat_completeness auto
termination by (relation "measure length") auto

definition EstimateTokens ::
  "(f64 \<Rightarrow> int) \<Rightarrow> (string \<Rightarrow> string) \<Rightarrow> tok_registry option \<Rightarrow> string \<Rightarrow> string \<Rightarrow> estimate_result" where
  "EstimateTokens oor lower registry model text = EstimateRunes oor lower registry model (rune_count text)"

subsection \<open>Token estimates\<close>

definition estimateFor ::
  "(f64 \<Rightarrow> int) \<Rightarrow> (string \<Rightarrow> string) \<Rightarrow> tok_registry option \<Rightarrow> string \<Rightarrow> int \<Rightarrow> int" where
  "estimateFor oor lower registry model runes =
     (case registry of Some r \<Rightarrow> er_Tokens (EstimateRunes oor lower (Some r) model runes)
      | None \<Rightarrow> (runes + 3) div 4)"

definition message_chars :: "message \<Rightarrow> int" where
  "message_chars m =
     int (length (xm_Role m) + length (xm_Content m) + length (xm_ToolCallID m)
          + sum_list (map (\<lambda>c. length (tk_Name c) + length (tk_Arguments c)) (xm_ToolCalls m)))"

definition marshalled :: "('a \<Rightarrow> string option) \<Rightarrow> 'a \<Rightarrow> int" where
  "marshalled marshal x = (case marshal x of None \<Rightarrow> 0 | Some b \<Rightarrow> int (length b))"

type_synonym tools_encoder = "tool_decl list \<Rightarrow> string option"

definition chat_estimate ::
  "(int \<Rightarrow> int) \<Rightarrow> tools_encoder \<Rightarrow> chat_payload \<Rightarrow> int \<Rightarrow> int" where
  "chat_estimate est marshal c estimate =
     (let chars = sum_list (map message_chars (ch_Messages c))
            + (if ch_Tools c = [] then 0 else marshalled marshal (ch_Tools c));
          estimate = (if 0 < chars then i64 (estimate + est chars) else estimate)
      in case ch_MaxOutputTokens c of None \<Rightarrow> estimate
         | Some n \<Rightarrow> if 0 < n then i64 (estimate + n) else estimate)"

definition estimateTokensWith ::
  "(f64 \<Rightarrow> int) \<Rightarrow> (string \<Rightarrow> string) \<Rightarrow> (string \<Rightarrow> string) \<Rightarrow> tools_encoder \<Rightarrow> unified_request option \<Rightarrow> tok_registry option \<Rightarrow> int" where
  "estimateTokensWith oor lower trim marshal request registry =
     (case request of None \<Rightarrow> 1
      | Some r \<Rightarrow>
          let est = estimateFor oor lower registry (ur_Model r);
              e = (case ur_Chat r of None \<Rightarrow> 1 | Some c \<Rightarrow> chat_estimate est marshal c 1);
              e = (case ur_Embedding r of None \<Rightarrow> e | Some inputs \<Rightarrow> foldl (\<lambda>e s. i64 (e + est (int (length s)))) e inputs);
              e = (case ur_Audio r of None \<Rightarrow> e
                   | Some a \<Rightarrow> i64 (e + est (int (length (au_Input a) + length (au_Prompt a) + length (au_Language a)))))
          in case ur_Tool r of None \<Rightarrow> e
             | Some t \<Rightarrow> i64 (e + est (int (length (tq_Name t) + length (trim (tq_Arguments t))))))"

definition context_chars :: "tools_encoder \<Rightarrow> unified_request \<Rightarrow> int" where
  "context_chars marshal r =
     (case (ur_Chat r, ur_Embedding r, ur_Rerank r, ur_Audio r, ur_Batch r, ur_File r, ur_Tool r) of
        (Some c, _) \<Rightarrow> sum_list (map message_chars (ch_Messages c)) + marshalled marshal (ch_Tools c)
      | (None, Some inputs, _) \<Rightarrow> int (sum_list (map length inputs))
      | (None, None, Some k, _) \<Rightarrow> int (length (re_Query k) + sum_list (map length (re_Documents k)))
      | (None, None, None, Some a, _) \<Rightarrow> int (length (au_Data a) + length (au_Prompt a) + length (au_Language a)
           + length (au_Input a) + length (au_Instructions a))
      | (None, None, None, None, Some b, _) \<Rightarrow> int (length (ba_InputFileID b) + length (ba_Endpoint b) + length (ba_CompletionWindow b))
      | (None, None, None, None, None, Some f, _) \<Rightarrow> int (length (fi_ID f))
      | (None, None, None, None, None, None, Some t) \<Rightarrow> int (length (tq_Arguments t) + length (tq_Result t))
      | _ \<Rightarrow> 0)"

definition estimateContextTokensWith ::
  "(f64 \<Rightarrow> int) \<Rightarrow> (string \<Rightarrow> string) \<Rightarrow> tools_encoder \<Rightarrow> unified_request option \<Rightarrow> tok_registry option \<Rightarrow> int" where
  "estimateContextTokensWith oor lower marshal request registry =
     (case request of None \<Rightarrow> 0
      | Some r \<Rightarrow>
          let base = estimateFor oor lower registry (ur_Model r) (context_chars marshal r)
          in case ur_Chat r of None \<Rightarrow> base
             | Some c \<Rightarrow> (case ch_MaxOutputTokens c of None \<Rightarrow> base | Some n \<Rightarrow> i64 (base + n)))"

definition requiredCapabilities :: "unified_request option \<Rightarrow> string list" where
  "requiredCapabilities request =
     (case request of None \<Rightarrow> []
      | Some r \<Rightarrow>
          if request_HasImages r then [''vision'']
          else if ur_Kind r = ''rerank'' then [''rerank'']
          else if ur_Kind r = ''embedding'' then [''embedding'']
          else if ur_Kind r = ''audio'' then
            (case ur_Audio r of None \<Rightarrow> [''audio''] | Some a \<Rightarrow> if au_Operation a = ''speech'' then [''speech''] else [''audio''])
          else if ur_Kind r = ''batch'' \<or> ur_Kind r = ''file'' then [''batch'']
          else [])"

subsection \<open>The context guard\<close>

record guard_result =
  gu_InputTokens :: int
  gu_ContextWindow :: int
  gu_MaxAvailableOutput :: int
  gu_Exceeded :: bool

definition guard_zero :: guard_result where
  "guard_zero = \<lparr>gu_InputTokens = 0, gu_ContextWindow = 0, gu_MaxAvailableOutput = 0, gu_Exceeded = False\<rparr>"

abbreviation newline :: string where "newline \<equiv> [CHR 0x0A]"

definition guard_texts :: "tools_encoder \<Rightarrow> unified_request \<Rightarrow> string list" where
  "guard_texts marshal r =
     (case (ur_Chat r, ur_Embedding r, ur_Audio r, ur_Tool r) of
        (Some c, _) \<Rightarrow>
          concat (map (\<lambda>m. (xm_Role m @ newline @ xm_Content m @ newline @ xm_ToolCallID m)
                           # map (\<lambda>k. tk_Name k @ newline @ tk_Arguments k) (xm_ToolCalls m)) (ch_Messages c))
          @ (if ch_Tools c = [] then [] else case marshal (ch_Tools c) of None \<Rightarrow> [] | Some b \<Rightarrow> [b])
      | (None, Some inputs, _) \<Rightarrow> inputs
      | (None, None, Some a, _) \<Rightarrow> if au_Operation a = ''speech'' then [au_Input a @ newline @ au_Instructions a] else []
      | (None, None, None, Some t) \<Rightarrow> [tq_Name t @ newline @ tq_Arguments t @ newline @ tq_Result t]
      | _ \<Rightarrow> [])"

definition estimateInputTokens ::
  "(f64 \<Rightarrow> int) \<Rightarrow> (string \<Rightarrow> string) \<Rightarrow> tools_encoder \<Rightarrow> tok_registry option \<Rightarrow> unified_request \<Rightarrow> string \<Rightarrow> int" where
  "estimateInputTokens oor lower marshal registry r model =
     (let registry = (case registry of None \<Rightarrow> tok_New | Some g \<Rightarrow> g)
      in foldl (\<lambda>total text. i64 (total + er_Tokens (EstimateTokens oor lower (Some registry) model text))) 0 (guard_texts marshal r))"

definition guard_Check ::
  "(f64 \<Rightarrow> int) \<Rightarrow> (string \<Rightarrow> string) \<Rightarrow> tools_encoder \<Rightarrow> tok_registry option \<Rightarrow> bool \<Rightarrow> unified_request option \<Rightarrow> string \<Rightarrow> int
     \<Rightarrow> guard_result \<times> bool" where
  "guard_Check oor lower marshal registry strictMode request model contextWindow =
     (case request of None \<Rightarrow> (guard_zero, True)
      | Some r \<Rightarrow>
          if contextWindow \<le> 0 then (guard_zero, True)
          else
            let inp = estimateInputTokens oor lower marshal registry r model;
                maxOutput = i64 (contextWindow - inp);
                result = \<lparr>gu_InputTokens = inp, gu_ContextWindow = contextWindow,
                  gu_MaxAvailableOutput = (if maxOutput < 0 then 0 else maxOutput), gu_Exceeded = (contextWindow < inp)\<rparr>
            in (result, \<not> (strictMode \<and> gu_Exceeded result)))"

subsection \<open>The budget policy of a request\<close>

text \<open>\<^verbatim>\<open>Time.Truncate\<close> rounds down to a multiple of the duration since the zero time.\<close>

definition t_truncate :: "gotime \<Rightarrow> duration \<Rightarrow> gotime" where
  "t_truncate t d = (if d \<le> 0 then t else t - (t - zero_time) mod d)"

definition window_duration :: "rt_budget_policy \<Rightarrow> duration" where
  "window_duration item = i64 (rb_WindowHours item * hour)"

definition budget_applies :: "request_context \<Rightarrow> rt_budget_policy \<Rightarrow> bool" where
  "budget_applies c item \<longleftrightarrow>
     (rb_TenantID item = '''' \<or> rb_TenantID item = ctx_TenantID c)
     \<and> (rb_ProjectID item = '''' \<or> rb_ProjectID item = ctx_ProjectID c)
     \<and> (rb_KeyID item = '''' \<or> rb_KeyID item = ak_PublicID (xc_Key c))
     \<and> 0 < window_duration item"

definition budget_score :: "rt_budget_policy \<Rightarrow> int" where
  "budget_score item = (if rb_ProjectID item \<noteq> '''' then 1 else 0) + (if rb_KeyID item \<noteq> '''' then 2 else 0)"

definition policy_of :: "(f64 \<Rightarrow> int) \<Rightarrow> gotime \<Rightarrow> rt_budget_policy \<Rightarrow> budget_policy" where
  "policy_of oor now item =
     (let start = t_truncate now (window_duration item)
      in \<lparr>bp_ID = rb_ID item, bp_TenantID = rb_TenantID item, bp_ProjectID = rb_ProjectID item, bp_KeyID = rb_KeyID item,
          bp_Mode = rb_Mode item, bp_Consistency = rb_Consistency item, bp_TokenLimit = f_to_i64 oor (rb_TokenLimit item),
          bp_WindowStart = start, bp_WindowEnd = start + window_duration item\<rparr>)"

text \<open>The loop keeps the selected item with its score, -1 before the first.\<close>

definition select_step ::
  "request_context \<Rightarrow> rt_budget_policy option \<times> int \<Rightarrow> rt_budget_policy \<Rightarrow> rt_budget_policy option \<times> int" where
  "select_step c acc item =
     (if \<not> budget_applies c item \<or> budget_score item < snd acc then acc else (Some item, budget_score item))"

definition budgetPolicyFor :: "(f64 \<Rightarrow> int) \<Rightarrow> request_context \<Rightarrow> gotime \<Rightarrow> budget_policy option" where
  "budgetPolicyFor oor c now =
     (case xc_Snapshot c of None \<Rightarrow> None
      | Some s \<Rightarrow> map_option (policy_of oor now) (fst (foldl (select_step c) (None, - 1) (snap_BudgetPolicies s))))"

subsection \<open>Reserving the budget\<close>

definition budget_exceeded :: "request_context \<Rightarrow> gw_error" where
  "budget_exceeded c = KernelError \<lparr>ke_Code = ''BUDGET_EXCEEDED'', ke_Message = ''token budget exceeded'',
     ke_RequestID = xc_RequestID c, ke_Retryable = False\<rparr>"

definition reserve_failure :: "request_context \<Rightarrow> budget_error \<Rightarrow> gw_error" where
  "reserve_failure c err =
     (if err = ErrExceeded \<or> err = SliceError ErrSliceOvershoot then budget_exceeded c else OtherError ''budget'')"

text \<open>
  \<open>fresh\<close> is the next answer of the identifier generator, \<open>now\<close> the clock of the pipeline and \<open>now'\<close> that of the
  manager when it checks the window.
\<close>

definition reserveBudget ::
  "(f64 \<Rightarrow> int) \<Rightarrow> 's ledger_ops \<Rightarrow> 's enforcer option \<Rightarrow> request_context \<Rightarrow> int \<Rightarrow> gw_error + string \<Rightarrow> gotime \<Rightarrow> gotime
     \<Rightarrow> 's enforcer option \<times> request_context \<times> gw_error option" where
  "reserveBudget oor ops budget c estimate fresh now now' =
     (case (budget, budgetPolicyFor oor c now) of
        (Some e, Some policy) \<Rightarrow>
          if xc_Request c = None \<or> xc_ReservationID c \<noteq> '''' then (budget, c, None)
          else (case fresh of Inl err \<Rightarrow> (budget, c, Some err)
           | Inr rid \<Rightarrow>
               (case enforcer_Reserve ops e policy rid estimate now' of
                  (e', Inl err) \<Rightarrow> (Some e', c, Some (reserve_failure c err))
                | (e', Inr reserved) \<Rightarrow>
                    (Some e', c\<lparr>xc_BudgetPolicyID := rv_PolicyID reserved, xc_ReservationID := rv_ID reserved,
                       xc_BudgetEstimated := rv_EstimatedTokens reserved, xc_BudgetSoftWarning := rv_Warning reserved\<rparr>, None)))
      | _ \<Rightarrow> (budget, c, None))"

subsection \<open>The longest prefix wins, in every order of iteration\<close>

lemma better_key_fold:
  assumes "\<And>k. k \<in> set keys \<Longrightarrow> lower k = k" and "prefix best0 model"
  defines "best \<equiv> foldl (better_key lower model) best0 keys"
  shows "best \<in> insert best0 (set keys) \<and> prefix best model \<and> length best0 \<le> length best
    \<and> (\<forall>k \<in> set keys. prefix k model \<longrightarrow> length k \<le> length best)"
  using assms(1,2) unfolding best_def
proof (induction keys arbitrary: best0)
  case (Cons k keys)
  let ?b = "better_key lower model best0 k"
  have b: "?b \<in> {best0, k}" "prefix ?b model" "length best0 \<le> length ?b" "prefix k model \<Longrightarrow> length k \<le> length ?b"
    using Cons.prems by (auto simp: better_key_def Let_def)
  have "foldl (better_key lower model) ?b keys \<in> insert ?b (set keys) \<and> prefix (foldl (better_key lower model) ?b keys) model
      \<and> length ?b \<le> length (foldl (better_key lower model) ?b keys)
      \<and> (\<forall>k \<in> set keys. prefix k model \<longrightarrow> length k \<le> length (foldl (better_key lower model) ?b keys))"
    using Cons.prems b(2) by (intro Cons.IH) auto
  with b show ?case by auto
qed simp

lemma prefix_same_length: "prefix a m \<Longrightarrow> prefix b m \<Longrightarrow> length a = length b \<Longrightarrow> a = b"
  by (auto simp: prefix_def)

lemma encodingFor_order:
  assumes "\<And>k. k \<in> fst ` set (rg_models r) \<Longrightarrow> lower k = k" and "mset (rg_models r') = mset (rg_models r)"
    and "distinct (map fst (rg_models r))" and "rg_encodings r' = rg_encodings r"
  shows "encodingFor lower r' model = encodingFor lower r model"
proof -
  let ?m = "lower model"
  have s: "set (rg_models r') = set (rg_models r)" by (metis assms(2) set_mset_mset)
  have d: "distinct (map fst (rg_models r'))"
    using assms(2,3) by (metis distinct_count_atmost_1 mset_map set_mset_mset)
  have eq: "map_of (rg_models r') = map_of (rg_models r)" using s d assms(3) by (simp add: map_of_inject_set)
  define b where "b q = foldl (better_key lower ?m) '''' (map fst (rg_models q))" for q :: tok_registry
  have spec: "b q \<in> insert '''' (fst ` set (rg_models r)) \<and> prefix (b q) ?m
      \<and> (\<forall>k \<in> fst ` set (rg_models r). prefix k ?m \<longrightarrow> length k \<le> length (b q))"
    if "set (rg_models q) = set (rg_models r)" for q
    using better_key_fold [of "map fst (rg_models q)" lower "''''" ?m] assms(1) that by (auto simp: b_def)
  have le: "length (b p) \<le> length (b q)" if "set (rg_models p) = set (rg_models r)" "set (rg_models q) = set (rg_models r)" for p q
    using spec [OF that(1)] spec [OF that(2)] by (cases "b p = ''''") auto
  have "length (b r') = length (b r)" by (intro antisym le s refl)
  then have "b r' = b r" using spec [OF s] spec [OF refl] prefix_same_length by blast
  then show ?thesis by (simp add: encodingFor_def Let_def eq assms(4) flip: b_def)
qed

lemma estimate_positive: "1 \<le> er_Tokens (EstimateRunes oor lower registry model runes)"
  by (auto simp: EstimateRunes_def conservativeEstimateRunes_def Let_def split: option.splits)

lemma rune_count_bounds: "0 \<le> rune_count s \<and> rune_count s \<le> int (length s)"
  by (induction s rule: rune_count.induct) auto

subsection \<open>The most specific budget policy\<close>

lemma budget_score_range: "0 \<le> budget_score item"
  by (simp add: budget_score_def)

lemma select_spec:
  "case foldl (select_step c) (None, - 1) xs of
     (None, n) \<Rightarrow> n = - 1 \<and> (\<forall>x \<in> set xs. \<not> budget_applies c x)
   | (Some item, n) \<Rightarrow> n = budget_score item \<and> budget_applies c item
       \<and> (\<exists>ys zs. xs = ys @ item # zs \<and> (\<forall>x \<in> set ys. budget_applies c x \<longrightarrow> budget_score x \<le> budget_score item)
            \<and> (\<forall>x \<in> set zs. budget_applies c x \<longrightarrow> budget_score x < budget_score item))"
proof (induction xs rule: rev_induct)
  case (snoc x xs)
  obtain sel n where acc: "foldl (select_step c) (None, - 1) xs = (sel, n)" by fastforce
  show ?case
  proof (cases "\<not> budget_applies c x \<or> budget_score x < n")
    case True
    then have "foldl (select_step c) (None, - 1) (xs @ [x]) = (sel, n)" by (simp add: acc select_step_def)
    moreover have "\<exists>ys zs. xs @ [x] = ys @ item # zs \<and> (\<forall>x \<in> set ys. budget_applies c x \<longrightarrow> budget_score x \<le> budget_score item)
            \<and> (\<forall>x \<in> set zs. budget_applies c x \<longrightarrow> budget_score x < budget_score item)"
      if "sel = Some item" for item
    proof -
      from snoc.IH acc that obtain ys zs where n: "n = budget_score item" and "xs = ys @ item # zs"
        "\<forall>x \<in> set ys. budget_applies c x \<longrightarrow> budget_score x \<le> budget_score item"
        "\<forall>x \<in> set zs. budget_applies c x \<longrightarrow> budget_score x < budget_score item" by auto
      with True show ?thesis by (intro exI [of _ ys] exI [of _ "zs @ [x]"]) auto
    qed
    ultimately show ?thesis using snoc.IH acc True budget_score_range [of x] by (auto split: option.splits)
  next
    case False
    then have r: "foldl (select_step c) (None, - 1) (xs @ [x]) = (Some x, budget_score x)" by (simp add: acc select_step_def)
    have le: "budget_score y \<le> budget_score x" if y: "y \<in> set xs" "budget_applies c y" for y
    proof (cases sel)
      case None
      then show ?thesis using snoc.IH acc y by simp
    next
      case (Some item)
      with snoc.IH acc obtain ys zs where "n = budget_score item" "xs = ys @ item # zs"
        "\<forall>x \<in> set ys. budget_applies c x \<longrightarrow> budget_score x \<le> budget_score item"
        "\<forall>x \<in> set zs. budget_applies c x \<longrightarrow> budget_score x < budget_score item" by auto
      with y False have "budget_score y \<le> n" "n \<le> budget_score x" by force+
      then show ?thesis by linarith
    qed
    show ?thesis unfolding r prod.case option.case using False le by (intro conjI exI [of _ xs] exI [of _ "[]"]) auto
  qed
qed simp

lemma t_truncate_window: "0 < d \<Longrightarrow> t_truncate t d \<le> t \<and> t < t_truncate t d + d"
  by (simp add: t_truncate_def)

lemma snap_BudgetPolicy_last: "snap_BudgetPolicy (NewTenantSnapshot data) k = last_with rb_ID (td_BudgetPolicies data) k"
  by (simp add: snap_BudgetPolicy_def NewTenantSnapshot_def)


definition example_budget :: "string \<Rightarrow> string \<Rightarrow> string \<Rightarrow> rt_budget_policy" where
  "example_budget ident project key = \<lparr>rb_ID = ident, rb_TenantID = ''t'', rb_ProjectID = project, rb_KeyID = key,
     rb_WindowHours = 24, rb_TokenLimit = 1000, rb_Mode = ''hard'', rb_Consistency = ''''\<rparr>"

definition example_request :: unified_request where
  "example_request = \<lparr>ur_Kind = ''chat'', ur_Model = ''m'', ur_Stream = False, ur_Metadata = Map.empty, ur_SessionID = '''',
     ur_TaskID = '''', ur_RootTaskID = '''', ur_ParentTaskID = '''', ur_Chat = None, ur_Responses = None, ur_Embedding = None,
     ur_Rerank = None, ur_Audio = None, ur_Batch = None, ur_File = None, ur_Tool = None, ur_Parameters = Map.empty\<rparr>"

definition example_context :: "tenant_data \<Rightarrow> request_context" where
  "example_context data = \<lparr>xc_RequestID = ''r'', xc_ReceivedAt = 0, xc_Snapshot = Some (NewTenantSnapshot data),
     xc_Interaction = Some \<lparr>ix_Kind = ''model'', ix_Protocol = '''', ix_TenantID = ''t'', ix_ProjectID = ''j'', ix_SessionID = '''',
       ix_TaskID = '''', ix_RootTaskID = '''', ix_ParentTaskID = '''', ix_ParentRequestID = '''', ix_TrustBoundary = '''',
       ix_Direction = '''', ix_Federation = None, ix_Caller = \<lparr>pf_Type = '''', pf_ID = ''''\<rparr>, ix_Target = \<lparr>rf_Type = '''', rf_ID = ''''\<rparr>\<rparr>,
     xc_Request = Some example_request, xc_Response = None, xc_Usage = None, xc_Source = '''', xc_Key = in_Key example_input,
     xc_SelectedDeploymentID = '''', xc_ProviderCost = None, xc_Latency = 0, xc_TTFT = 0, xc_Err = None, xc_CacheHit = False,
     xc_CachePending = False, xc_CacheKey = '''', xc_HasStreamWriter = False, xc_BudgetPolicyID = '''', xc_ReservationID = '''',
     xc_BudgetEstimated = 0, xc_BudgetSoftWarning = False, xc_TPMEstimated = 0\<rparr>"

definition budget_data :: tenant_data where
  "budget_data = example_data\<lparr>td_BudgetPolicies := [example_budget ''z'' '''' '''', example_budget ''a'' ''j'' '''',
     example_budget ''b'' ''j'' '''', example_budget ''k'' '''' ''other'']\<rparr>"

lemma budget_data_policy:
  "map_option bp_ID (budgetPolicyFor oor_amd64 (example_context budget_data) 0) = Some ''b''"
  by code_simp


text \<open>
  The validator accepts any positive number of hours. From 2562048 hours on, the duration overflows, and a policy
  whose duration is then not positive never applies: its limit, hard or not, is not enforced.
\<close>

lemma overflowing_window_ignored:
  "rb_WindowHours item = 2562048 \<Longrightarrow> \<not> budget_applies c item"
  by (simp add: budget_applies_def window_duration_def i64_def)

text \<open>A request the token meter refuses is reported as an internal server error, unlike the other limits.\<close>

lemma tpm_limited_status:
  "StatusForCode ''RATE_LIMITED'' = 429" "StatusForCode ''BUDGET_EXCEEDED'' = 429" "StatusForCode ''TPM_LIMITED'' = 500"
  "StatusForCode ''CONTEXT_EXCEEDED'' = 500"
  by (simp_all add: StatusForCode_def)

end
