(* ===== verification/Response_Cache.thy ===== *)
theory Response_Cache
  imports Admission
begin

text \<open>
  The response cache: scoped keys and the in-process LRU store of \<^verbatim>\<open>internal/cache\<close>, the vector index of the
  semantic cache, and the handlers of \<^verbatim>\<open>internal/gateway/cache\<close> that look a request up and write its response
  back. Parameters of the definitions: the digest \<open>sha\<close>, the square root \<open>fsqrt\<close>, the JSON encoding of requests and
  responses (\<open>marshal_req\<close>, \<open>marshal_resp\<close>, \<open>unmarshal\<close>), \<^verbatim>\<open>strings.EqualFold\<close> (\<open>eq_fold\<close>), and the order in
  which Go iterates a map (\<open>visit\<close>). A float is never NaN here: a similarity that would be is \<^const>\<open>None\<close>.
\<close>

subsection \<open>Keys\<close>

record cache_key =
  ck_TenantID :: string
  ck_ProjectID :: string
  ck_LogicalModel :: string
  ck_NormalizedRequest :: string
  ck_NamespaceVersion :: int

text \<open>The negation of the least integer is itself, and the loop over the digits then does not run.\<close>

definition itoa :: "int \<Rightarrow> string" where
  "itoa v =
     (if v = 0 then ''0''
      else let negative = v < 0; v = (if negative then i64 (- v) else v);
               digits = (if 0 < v then show_nat (nat v) else '''')
           in if negative then ''-'' @ digits else digits)"

abbreviation nul :: string where "nul \<equiv> [CHR 0x00]"

definition key_raw :: "cache_key \<Rightarrow> string" where
  "key_raw k = ck_TenantID k @ nul @ ck_ProjectID k @ nul @ ck_LogicalModel k @ nul @ ck_NormalizedRequest k @ nul
     @ itoa (ck_NamespaceVersion k)"

definition hex_digit :: "nat \<Rightarrow> char" where
  "hex_digit n = ''0123456789abcdef'' ! n"

definition hex_encode :: "string \<Rightarrow> string" where
  "hex_encode s = concat (map (\<lambda>c. [hex_digit (of_char c div 16), hex_digit (of_char c mod 16)]) s)"

definition key_String :: "(string \<Rightarrow> string) \<Rightarrow> cache_key \<Rightarrow> string" where
  "key_String sha k = ''cache:'' @ ck_TenantID k @ '':'' @ ck_ProjectID k @ '':'' @ hex_encode (sha (key_raw k))"

subsection \<open>The in-process store\<close>

record cache_entry =
  ce_Response :: string
  ce_StoredAt :: gotime
  ce_TTL :: duration

record cache_stats =
  cs_Hits :: int
  cs_Misses :: int
  cs_Puts :: int
  cs_Evictions :: int
  cs_SavingsTokens :: int

definition stats_zero :: cache_stats where
  "stats_zero = \<lparr>cs_Hits = 0, cs_Misses = 0, cs_Puts = 0, cs_Evictions = 0, cs_SavingsTokens = 0\<rparr>"

text \<open>\<open>mc_entries\<close> is the map, \<open>mc_order\<close> the linked list, front first, as the keys of its elements.\<close>

record memory_cache =
  mc_capacity :: int
  mc_entries :: "(string \<times> cache_entry) list"
  mc_order :: "string list"
  mc_stats :: cache_stats

definition NewMemoryStore :: "int \<Rightarrow> memory_cache" where
  "NewMemoryStore capacity = \<lparr>mc_capacity = (if capacity \<le> 0 then 1024 else capacity), mc_entries = [], mc_order = [],
     mc_stats = stats_zero\<rparr>"

definition moveToFront :: "string \<Rightarrow> string list \<Rightarrow> string list" where
  "moveToFront k order = k # remove1 k order"

definition cache_remove :: "memory_cache \<Rightarrow> string \<Rightarrow> memory_cache" where
  "cache_remove s k = s\<lparr>mc_entries := AList.delete k (mc_entries s), mc_order := remove1 k (mc_order s)\<rparr>"

definition miss :: "memory_cache \<Rightarrow> memory_cache" where
  "miss s = s\<lparr>mc_stats := (mc_stats s)\<lparr>cs_Misses := cs_Misses (mc_stats s) + 1\<rparr>\<rparr>"

definition cache_Get :: "memory_cache \<Rightarrow> string \<Rightarrow> gotime \<Rightarrow> memory_cache \<times> cache_entry option" where
  "cache_Get s key now =
     (case map_of (mc_entries s) key of None \<Rightarrow> (miss s, None)
      | Some e \<Rightarrow>
          if 0 < ce_TTL e \<and> ce_TTL e < t_sub now (ce_StoredAt e) then (miss (cache_remove s key), None)
          else (s\<lparr>mc_order := moveToFront key (mc_order s),
                  mc_stats := (mc_stats s)\<lparr>cs_Hits := cs_Hits (mc_stats s) + 1\<rparr>\<rparr>, Some e))"

text \<open>The eviction loop of \<^verbatim>\<open>Put\<close>.\<close>

function cache_evict :: "memory_cache \<Rightarrow> memory_cache" where
  "cache_evict s =
     (if int (length (mc_entries s)) \<le> mc_capacity s \<or> mc_order s = [] then s
      else let s' = cache_remove s (last (mc_order s))
           in cache_evict (s'\<lparr>mc_stats := (mc_stats s')\<lparr>cs_Evictions := cs_Evictions (mc_stats s') + 1\<rparr>\<rparr>))"
  by pat_completeness auto
termination
  by (relation "measure (\<lambda>s. length (mc_order s))")
     (auto simp: cache_remove_def length_remove1 Let_def)

declare cache_evict.simps [simp del]

definition cache_Put :: "memory_cache \<Rightarrow> string \<Rightarrow> cache_entry \<Rightarrow> memory_cache" where
  "cache_Put s key e =
     (let puts = (mc_stats s)\<lparr>cs_Puts := cs_Puts (mc_stats s) + 1\<rparr>
      in if map_of (mc_entries s) key \<noteq> None
         then s\<lparr>mc_entries := AList.update key e (mc_entries s), mc_order := moveToFront key (mc_order s), mc_stats := puts\<rparr>
         else cache_evict (s\<lparr>mc_entries := AList.update key e (mc_entries s), mc_order := key # mc_order s, mc_stats := puts\<rparr>))"

definition cache_Delete :: "memory_cache \<Rightarrow> string \<Rightarrow> memory_cache" where
  "cache_Delete s key = (if map_of (mc_entries s) key \<noteq> None then cache_remove s key else s)"

subsection \<open>The vector index\<close>

record semantic_key =
  sk_TenantID :: string
  sk_ProjectID :: string
  sk_Model :: string
  sk_Dimension :: int
  sk_Version :: int
  sk_SourceKey :: string

definition Namespace :: "semantic_key \<Rightarrow> string" where
  "Namespace k = ''semantic:'' @ sk_TenantID k @ '':'' @ sk_ProjectID k @ '':'' @ sk_Model k @ '':dim:'' @ itoa (sk_Dimension k)
     @ '':ver:'' @ itoa (sk_Version k)"

record semantic_entry =
  se_namespace :: string
  se_sourceKey :: string
  se_vector :: "f64 list"
  se_storedAt :: gotime

text \<open>
  The list holds the elements front first; the map from namespace and source key to elements is its index, and
  an entry is removed from both.
\<close>

record semantic_store =
  ss_capacity :: int
  ss_ttl :: duration
  ss_order :: "semantic_entry list"

definition NewMemorySemanticStoreWithConfig :: "int \<Rightarrow> duration \<Rightarrow> semantic_store" where
  "NewMemorySemanticStoreWithConfig capacity ttl = \<lparr>ss_capacity = (if capacity \<le> 0 then 1024 else capacity), ss_ttl = ttl, ss_order = []\<rparr>"

definition NewMemorySemanticStore :: semantic_store where
  "NewMemorySemanticStore = NewMemorySemanticStoreWithConfig 0 0"

definition semanticMapKey :: "string \<Rightarrow> string \<Rightarrow> string" where
  "semanticMapKey namespace sourceKey = namespace @ nul @ sourceKey"

definition se_key :: "semantic_entry \<Rightarrow> string" where
  "se_key e = semanticMapKey (se_namespace e) (se_sourceKey e)"

text \<open>
  An entry that is there keeps its namespace and source key; the capacity is positive, so the loop that evicts
  keeps the first \<open>capacity\<close> elements.
\<close>

definition semantic_Put :: "semantic_store \<Rightarrow> semantic_key \<Rightarrow> f64 list \<Rightarrow> gotime \<Rightarrow> semantic_store" where
  "semantic_Put s k vector now =
     (let mapKey = semanticMapKey (Namespace k) (sk_SourceKey k)
      in case find (\<lambda>e. se_key e = mapKey) (ss_order s) of
           Some e \<Rightarrow> s\<lparr>ss_order := e\<lparr>se_vector := vector, se_storedAt := now\<rparr> # filter (\<lambda>e. se_key e \<noteq> mapKey) (ss_order s)\<rparr>
         | None \<Rightarrow> s\<lparr>ss_order := take (nat (ss_capacity s))
             (\<lparr>se_namespace = Namespace k, se_sourceKey = sk_SourceKey k, se_vector = vector, se_storedAt = now\<rparr> # ss_order s)\<rparr>)"

definition cosine :: "(f64 \<Rightarrow> f64) \<Rightarrow> f64 list \<Rightarrow> f64 list \<Rightarrow> f64 option" where
  "cosine fsqrt a b =
     (if length a \<noteq> length b \<or> a = [] then None
      else let dot = foldl (\<lambda>acc (x, y). fadd acc (fmul x y)) 0 (zip a b);
               normA = foldl (\<lambda>acc x. fadd acc (fmul x x)) 0 a;
               normB = foldl (\<lambda>acc x. fadd acc (fmul x x)) 0 b
           in if normA = 0 \<or> normB = 0 then None else Some (fdiv dot (fmul (fsqrt normA) (fsqrt normB))))"

text \<open>The insertion sort moves a candidate past those with a smaller score.\<close>

fun insert_score :: "string \<times> f64 \<Rightarrow> (string \<times> f64) list \<Rightarrow> (string \<times> f64) list" where
  "insert_score x [] = [x]"
| "insert_score x (y # ys) = (if snd y < snd x then x # y # ys else y # insert_score x ys)"

definition live_in :: "semantic_store \<Rightarrow> string \<Rightarrow> gotime \<Rightarrow> semantic_entry \<Rightarrow> bool" where
  "live_in s namespace now e \<longleftrightarrow> se_namespace e = namespace \<and> \<not> (0 < ss_ttl s \<and> ss_ttl s < t_sub now (se_storedAt e))"

definition semantic_Search ::
  "(f64 \<Rightarrow> f64) \<Rightarrow> ((string \<times> f64 list) list \<Rightarrow> (string \<times> f64 list) list) \<Rightarrow> semantic_store \<Rightarrow> semantic_key \<Rightarrow> f64 list \<Rightarrow> int \<Rightarrow> gotime
     \<Rightarrow> semantic_store \<times> (string \<times> f64) list option" where
  "semantic_Search fsqrt visit s k query limit now =
     (if limit \<le> 0 then (s, None)
      else
        let namespace = Namespace k;
            vectors = foldl (\<lambda>m e. AList.update (se_sourceKey e) (se_vector e) m) [] (filter (live_in s namespace now) (ss_order s));
            s' = s\<lparr>ss_order := filter (\<lambda>e. se_namespace e \<noteq> namespace \<or> live_in s namespace now e) (ss_order s)\<rparr>;
            scored = List.map_filter (\<lambda>(key, v). map_option (Pair key) (cosine fsqrt query v)) (visit vectors)
        in (s', Some (take (nat limit) (foldl (\<lambda>best x. insert_score x best) [] scored))))"

subsection \<open>Cacheability and look-up\<close>

datatype directive = Continue | SkipResolutionExecution | Unsupported nat

definition defaultCacheableKinds :: "string list" where
  "defaultCacheableKinds = [''chat'', ''embedding'']"

definition Cacheable :: "(string \<Rightarrow> string \<Rightarrow> bool) \<Rightarrow> unified_request \<Rightarrow> cache_policy \<Rightarrow> bool" where
  "Cacheable eq_fold r policy \<longleftrightarrow>
     cp_Enabled policy
     \<and> \<not> (case ur_Metadata r ''cache-control'' of None \<Rightarrow> False | Some v \<Rightarrow> eq_fold v ''no-cache'')
     \<and> ur_Kind r \<in> set (if cp_AllowedKinds policy = [] then defaultCacheableKinds else cp_AllowedKinds policy)
     \<and> \<not> request_ToolCalls r \<and> \<not> request_HasImages r
     \<and> \<not> (0 < cp_MaxTemperature policy
          \<and> cp_MaxTemperature policy < (case ur_Chat r of None \<Rightarrow> 0
              | Some c \<Rightarrow> (case ch_Temperature c of None \<Rightarrow> 0 | Some t \<Rightarrow> t)))"

record cache_lib =
  cl_sha :: "string \<Rightarrow> string"
  cl_sqrt :: "f64 \<Rightarrow> f64"
  cl_visit :: "(string \<times> f64 list) list \<Rightarrow> (string \<times> f64 list) list"
  cl_eq_fold :: "string \<Rightarrow> string \<Rightarrow> bool"
  cl_marshal_req :: "unified_request \<Rightarrow> string"
  cl_marshal_resp :: "unified_response \<Rightarrow> string option"
  cl_unmarshal :: "string \<Rightarrow> unified_response option"

definition key_of :: "cache_lib \<Rightarrow> request_context \<Rightarrow> unified_request \<Rightarrow> cache_policy \<Rightarrow> cache_key" where
  "key_of L c r policy = \<lparr>ck_TenantID = ctx_TenantID c, ck_ProjectID = ctx_ProjectID c, ck_LogicalModel = ur_Model r,
     ck_NormalizedRequest = cl_marshal_req L r, ck_NamespaceVersion = cp_NamespaceVersion policy\<rparr>"

definition cache_Key :: "cache_lib \<Rightarrow> request_context \<Rightarrow> unified_request \<Rightarrow> cache_policy \<Rightarrow> string" where
  "cache_Key L c r policy = key_String (cl_sha L) (key_of L c r policy)"

type_synonym metrics_log = "cache_stats list option"

definition record_stats :: "metrics_log \<Rightarrow> cache_stats \<Rightarrow> metrics_log" where
  "record_stats metrics st = map_option (\<lambda>l. l @ [st]) metrics"

definition hit_stats :: "unified_response \<Rightarrow> cache_stats" where
  "hit_stats r = stats_zero\<lparr>cs_Hits := 1, cs_SavingsTokens := TotalTokens (xr_Usage r)\<rparr>"

definition with_hit :: "request_context \<Rightarrow> unified_response \<Rightarrow> string \<Rightarrow> string \<Rightarrow> request_context" where
  "with_hit c response key source =
     c\<lparr>xc_Response := Some response, xc_CacheHit := True, xc_CacheKey := key, xc_Source := source\<rparr>"

definition with_pending :: "request_context \<Rightarrow> string \<Rightarrow> request_context" where
  "with_pending c key = c\<lparr>xc_CachePending := True, xc_CacheKey := key\<rparr>"

definition cache_Handle ::
  "cache_lib \<Rightarrow> memory_cache option \<Rightarrow> metrics_log \<Rightarrow> request_context \<Rightarrow> gotime
     \<Rightarrow> memory_cache option \<times> metrics_log \<times> request_context \<times> directive" where
  "cache_Handle L store metrics c now =
     (case (store, xc_Snapshot c, xc_Request c) of
        (Some s, Some snap, Some r) \<Rightarrow>
          if \<not> Cacheable (cl_eq_fold L) r (ts_cache snap) then (store, metrics, c, Continue)
          else
            let key = cache_Key L c r (ts_cache snap); (s, found) = cache_Get s key now
            in case found of
                 None \<Rightarrow> (Some s, record_stats metrics (stats_zero\<lparr>cs_Misses := 1\<rparr>), with_pending c key, Continue)
               | Some e \<Rightarrow>
                   (case cl_unmarshal L (ce_Response e) of
                      Some response \<Rightarrow>
                        (Some s, record_stats metrics (hit_stats response), with_hit c response key ''cache'', SkipResolutionExecution)
                    | None \<Rightarrow> (Some (cache_Delete s key), record_stats metrics (stats_zero\<lparr>cs_Misses := 1\<rparr>),
                               with_pending c key, Continue))
      | _ \<Rightarrow> (store, metrics, c, Continue))"

definition WriteBack ::
  "cache_lib \<Rightarrow> memory_cache option \<Rightarrow> request_context \<Rightarrow> duration \<Rightarrow> gotime \<Rightarrow> memory_cache option \<times> bool" where
  "WriteBack L store c ttl now =
     (case (store, xc_Response c) of
        (Some s, Some response) \<Rightarrow>
          if \<not> xc_CachePending c \<or> xc_CacheKey c = '''' then (store, True)
          else (case cl_marshal_resp L response of None \<Rightarrow> (store, False)
                | Some raw \<Rightarrow> (Some (cache_Put s (xc_CacheKey c) \<lparr>ce_Response = raw, ce_StoredAt = now, ce_TTL = ttl\<rparr>), True))
      | _ \<Rightarrow> (store, True))"

subsection \<open>Semantic look-up\<close>

definition semantic_threshold :: "f64 \<Rightarrow> f64" where
  "semantic_threshold t = (if 0 < t then t else fl (85 / 100))"

definition search_key :: "request_context \<Rightarrow> unified_request \<Rightarrow> cache_policy \<Rightarrow> f64 list \<Rightarrow> string \<Rightarrow> semantic_key" where
  "search_key c r policy vector source = \<lparr>sk_TenantID = ctx_TenantID c, sk_ProjectID = ctx_ProjectID c, sk_Model = ur_Model r,
     sk_Dimension = int (length vector), sk_Version = cp_NamespaceVersion policy, sk_SourceKey = source\<rparr>"

text \<open>\<open>blocked\<close> is the verdict of the security policy, \<open>embedder\<close> answers with a vector or an error.\<close>

definition semantic_miss ::
  "metrics_log \<Rightarrow> semantic_store \<Rightarrow> memory_cache \<Rightarrow> request_context \<Rightarrow> unified_request \<Rightarrow> cache_policy \<Rightarrow> f64 list \<Rightarrow> string \<Rightarrow> gotime
     \<Rightarrow> semantic_store \<times> memory_cache \<times> metrics_log \<times> request_context \<times> directive" where
  "semantic_miss metrics index exact c r policy vector key now =
     (semantic_Put index (search_key c r policy vector key) vector now, exact,
      record_stats metrics (stats_zero\<lparr>cs_Misses := 1\<rparr>), with_pending c key, Continue)"

definition semantic_Handle ::
  "cache_lib \<Rightarrow> f64 \<Rightarrow> bool \<Rightarrow> (string \<Rightarrow> f64 list option) \<Rightarrow> metrics_log \<Rightarrow> semantic_store \<Rightarrow> memory_cache \<Rightarrow> request_context \<Rightarrow> gotime
     \<Rightarrow> semantic_store \<times> memory_cache \<times> metrics_log \<times> request_context \<times> directive" where
  "semantic_Handle L threshold blocked embedder metrics index exact c now =
     (case (xc_Snapshot c, xc_Request c) of
        (Some snap, Some r) \<Rightarrow>
          let policy = ts_cache snap
          in if \<not> Cacheable (cl_eq_fold L) r policy \<or> blocked then (index, exact, metrics, c, Continue)
             else
               (case embedder (ur_Model r @ nul @ cl_marshal_req L r) of
                  None \<Rightarrow> (index, exact, metrics, c, Continue)
                | Some vector \<Rightarrow>
                    if vector = [] then (index, exact, metrics, c, Continue)
                    else
                      let key = cache_Key L c r policy;
                          (index, found) = semantic_Search (cl_sqrt L) (cl_visit L) index (search_key c r policy vector '''') vector 1 now;
                          otherwise = (\<lambda>exact. semantic_miss metrics index exact c r policy vector key now)
                      in case found of
                           Some ((source, score) # _) \<Rightarrow>
                             if score < semantic_threshold threshold then otherwise exact
                             else (case cache_Get exact source now of
                                     (exact, None) \<Rightarrow> otherwise exact
                                   | (exact, Some e) \<Rightarrow>
                                       (case cl_unmarshal L (ce_Response e) of None \<Rightarrow> otherwise exact
                                        | Some response \<Rightarrow> (index, exact, record_stats metrics (hit_stats response),
                                            with_hit c response source ''semantic_cache'', SkipResolutionExecution)))
                         | Some [] \<Rightarrow> otherwise exact
                         | None \<Rightarrow> (index, exact, metrics, c, Continue))
      | _ \<Rightarrow> (index, exact, metrics, c, Continue))"

subsection \<open>Keys are injective\<close>

definition decimal :: "string \<Rightarrow> nat" where
  "decimal s = foldl (\<lambda>a c. 10 * a + (of_char c - 48)) 0 s"

lemma decimal_snoc [simp]: "decimal (s @ [c]) = 10 * decimal s + (of_char c - 48)"
  by (simp add: decimal_def)

lemma show_nat_decimal: "decimal (show_nat n) = n"
proof (induction n rule: show_nat.induct)
  case (1 n)
  show ?case
  proof (cases "n < 10")
    case True
    then show ?thesis by (simp add: show_nat.simps [of n] decimal_def)
  next
    case False
    then show ?thesis using 1 by (simp add: show_nat.simps [of n])
  qed
qed

lemma show_nat_digits: "c \<in> set (show_nat n) \<Longrightarrow> 48 \<le> (of_char c :: nat) \<and> (of_char c :: nat) \<le> 57"
proof (induction n rule: show_nat.induct)
  case (1 n)
  show ?case
  proof (cases "n < 10")
    case True
    then show ?thesis using 1 by (auto simp: show_nat.simps [of n])
  next
    case False
    then have "c \<in> set (show_nat (n div 10)) \<or> c = char_of (48 + n mod 10)" using 1(2) by (auto simp: show_nat.simps [of n])
    then show ?thesis
    proof
      assume "c = char_of (48 + n mod 10)"
      moreover have "48 + n mod 10 < 256" by (simp add: le_less_trans [of _ 57])
      ultimately show ?thesis by simp
    qed (use 1(1) False in blast)
  qed
qed

lemma show_nat_inj: "show_nat m = show_nat n \<Longrightarrow> m = n"
  by (metis show_nat_decimal)

lemma show_nat_no_minus: "show_nat n \<noteq> CHR ''-'' # xs"
  using show_nat_digits [of "CHR ''-''" n] by auto

lemma char_of_48: "char_of (48 :: nat) = CHR ''0''"
  by code_simp

lemma itoa_cases:
  assumes "in_i64 v"
  shows "itoa v = (if v < 0 then if v = - (2 ^ 63) then ''-'' else ''-'' @ show_nat (nat (- v)) else show_nat (nat v))"
proof (cases "v = - (2 ^ 63)")
  case True
  then show ?thesis by (simp add: itoa_def i64_def)
next
  case False
  then have "i64 (- v) = - v" using assms by (intro i64_id) (auto simp: in_i64_def)
  with False show ?thesis by (simp add: itoa_def show_nat.simps [of 0] char_of_48)
qed

lemma show_nat_not_Nil [simp]: "show_nat n \<noteq> []"
  by (subst show_nat.simps) simp

lemma itoa_inj: "in_i64 v \<Longrightarrow> in_i64 w \<Longrightarrow> itoa v = itoa w \<Longrightarrow> v = w"
  using show_nat_no_minus show_nat_no_minus [THEN not_sym] show_nat_not_Nil [THEN not_sym]
  by (auto simp: itoa_cases dest!: show_nat_inj split: if_splits)

lemma itoa_chars:
  assumes "c \<in> set (itoa v)"
  shows "c \<noteq> CHR 0x00 \<and> c \<noteq> CHR '':''"
  using assms show_nat_digits [of c] by (force simp: itoa_def Let_def split: if_splits)

lemma split_first: "a @ x # b = a' @ x # b' \<Longrightarrow> x \<notin> set a \<Longrightarrow> x \<notin> set a' \<Longrightarrow> a = a' \<and> b = b'"
  by (simp add: append_sep_inj)

lemma split_last: "a @ x # b = a' @ x # b' \<Longrightarrow> x \<notin> set b \<Longrightarrow> x \<notin> set b' \<Longrightarrow> a = a' \<and> b = b'"
  using split_first [of "rev b" x "rev a" "rev b'" "rev a'"] by (metis append_assoc append_Cons append_Nil rev_append rev_rev_ident set_rev rev.simps(2))

definition key_ok :: "cache_key \<Rightarrow> bool" where
  "key_ok k \<longleftrightarrow> CHR 0x00 \<notin> set (ck_TenantID k) \<union> set (ck_ProjectID k) \<union> set (ck_NormalizedRequest k)
     \<and> CHR '':'' \<notin> set (ck_TenantID k) \<union> set (ck_ProjectID k) \<and> in_i64 (ck_NamespaceVersion k)"

lemma key_raw_inj:
  assumes ok: "key_ok k" "key_ok k'" and eq: "key_raw k = key_raw k'"
  shows "k = k'"
proof -
  have e: "ck_TenantID k @ CHR 0x00 # ck_ProjectID k @ CHR 0x00 # (ck_LogicalModel k @ CHR 0x00 # ck_NormalizedRequest k) @ CHR 0x00 # itoa (ck_NamespaceVersion k)
      = ck_TenantID k' @ CHR 0x00 # ck_ProjectID k' @ CHR 0x00 # (ck_LogicalModel k' @ CHR 0x00 # ck_NormalizedRequest k') @ CHR 0x00 # itoa (ck_NamespaceVersion k')"
    using eq by (simp add: key_raw_def)
  have t: "ck_TenantID k = ck_TenantID k'" using split_first [OF e] ok by (auto simp: key_ok_def)
  note e1 = conjunct2 [OF split_first [OF e]]
  have f: "ck_ProjectID k @ CHR 0x00 # (ck_LogicalModel k @ CHR 0x00 # ck_NormalizedRequest k) @ CHR 0x00 # itoa (ck_NamespaceVersion k)
      = ck_ProjectID k' @ CHR 0x00 # (ck_LogicalModel k' @ CHR 0x00 # ck_NormalizedRequest k') @ CHR 0x00 # itoa (ck_NamespaceVersion k')"
    using e1 ok by (auto simp: key_ok_def)
  have p: "ck_ProjectID k = ck_ProjectID k'" using split_first [OF f] ok by (auto simp: key_ok_def)
  have g: "(ck_LogicalModel k @ CHR 0x00 # ck_NormalizedRequest k) @ CHR 0x00 # itoa (ck_NamespaceVersion k)
      = (ck_LogicalModel k' @ CHR 0x00 # ck_NormalizedRequest k') @ CHR 0x00 # itoa (ck_NamespaceVersion k')"
    using split_first [OF f] ok by (auto simp: key_ok_def)
  have n: "CHR 0x00 \<notin> set (itoa (ck_NamespaceVersion k))" "CHR 0x00 \<notin> set (itoa (ck_NamespaceVersion k'))"
    using itoa_chars by blast+
  note h = split_last [OF g n]
  have v: "ck_NamespaceVersion k = ck_NamespaceVersion k'" using h ok itoa_inj by (auto simp: key_ok_def)
  have "ck_LogicalModel k = ck_LogicalModel k' \<and> ck_NormalizedRequest k = ck_NormalizedRequest k'"
    using split_last [OF conjunct1 [OF h]] ok by (auto simp: key_ok_def)
  with t p v show ?thesis by simp
qed

lemma hex_digit_inj: "m < 16 \<Longrightarrow> n < 16 \<Longrightarrow> hex_digit m = hex_digit n \<Longrightarrow> m = n"
proof -
  have d: "distinct ''0123456789abcdef''" by simp
  assume "m < 16" "n < 16" "hex_digit m = hex_digit n"
  then show "m = n" using nth_eq_iff_index_eq [OF d, of m n] by (simp add: hex_digit_def)
qed

lemma hex_encode_inj: "hex_encode s = hex_encode s' \<Longrightarrow> s = s'"
proof (induction s arbitrary: s')
  case Nil
  then show ?case by (cases s') (auto simp: hex_encode_def)
next
  case (Cons c s)
  then obtain c' t where s': "s' = c' # t" by (cases s') (auto simp: hex_encode_def)
  have b: "(of_char x :: nat) div 16 < 16" for x :: char
    using nat_of_char_less_256 [of x] by (simp add: less_mult_imp_div_less)
  have "(of_char c :: nat) div 16 = of_char c' div 16" "(of_char c :: nat) mod 16 = of_char c' mod 16" "s = t"
    using Cons b by (auto simp: s' hex_encode_def intro!: hex_digit_inj)
  then have "(of_char c :: nat) = of_char c'" by (metis div_mult_mod_eq)
  then show ?case using \<open>s = t\<close> s' by simp
qed

lemma key_String_inj:
  assumes ok: "key_ok k" "key_ok k'" and "inj_on sha R" "key_raw k \<in> R" "key_raw k' \<in> R"
    and eq: "key_String sha k = key_String sha k'"
  shows "k = k'"
proof -
  have e: "ck_TenantID k @ CHR '':'' # ck_ProjectID k @ CHR '':'' # hex_encode (sha (key_raw k))
      = ck_TenantID k' @ CHR '':'' # ck_ProjectID k' @ CHR '':'' # hex_encode (sha (key_raw k'))"
    using eq by (simp add: key_String_def)
  have f: "ck_ProjectID k @ CHR '':'' # hex_encode (sha (key_raw k)) = ck_ProjectID k' @ CHR '':'' # hex_encode (sha (key_raw k'))"
    using split_first [OF e] ok by (auto simp: key_ok_def)
  have "hex_encode (sha (key_raw k)) = hex_encode (sha (key_raw k'))"
    using split_first [OF f] ok by (auto simp: key_ok_def)
  then have "sha (key_raw k) = sha (key_raw k')" by (rule hex_encode_inj)
  then have "key_raw k = key_raw k'" using assms(3-5) by (auto dest: inj_onD)
  with ok show ?thesis by (rule key_raw_inj)
qed

subsection \<open>What a store promises\<close>

text \<open>
  A store never invents an entry: a look-up returns an entry that is there, and no operation adds anything but
  the entry that is put.
\<close>

locale response_store =
  fixes get :: "'s \<Rightarrow> string \<Rightarrow> gotime \<Rightarrow> 's \<times> cache_entry option"
    and put :: "'s \<Rightarrow> string \<Rightarrow> cache_entry \<Rightarrow> 's"
    and delete :: "'s \<Rightarrow> string \<Rightarrow> 's"
    and contents :: "'s \<Rightarrow> (string \<times> cache_entry) set"
  assumes get_contents: "contents (fst (get s k now)) \<subseteq> contents s"
    and get_result: "snd (get s k now) = Some e \<Longrightarrow> (k, e) \<in> contents s"
    and put_contents: "contents (put s k e) \<subseteq> insert (k, e) (contents s)"
    and delete_contents: "contents (delete s k) \<subseteq> contents s"
begin

definition holds :: "(string \<Rightarrow> cache_entry \<Rightarrow> bool) \<Rightarrow> 's \<Rightarrow> bool" where
  "holds P s \<longleftrightarrow> (\<forall>(k, e) \<in> contents s. P k e)"

lemma holds_get: "holds P s \<Longrightarrow> get s k now = (s', r) \<Longrightarrow> holds P s'"
  using get_contents [of s k now] by (auto simp: holds_def)

lemma holds_found: "holds P s \<Longrightarrow> get s k now = (s', Some e) \<Longrightarrow> P k e"
  using get_result [of s k now e] by (auto simp: holds_def)

lemma holds_put: "holds P s \<Longrightarrow> P k e \<Longrightarrow> holds P (put s k e)"
  using put_contents [of s k e] by (auto simp: holds_def)

lemma holds_delete: "holds P s \<Longrightarrow> holds P (delete s k)"
  using delete_contents [of s k] by (auto simp: holds_def)

lemma holds_mono: "holds P s \<Longrightarrow> (\<And>k e. P k e \<Longrightarrow> Q k e) \<Longrightarrow> holds Q s"
  by (auto simp: holds_def)

end

definition cache_contents :: "memory_cache \<Rightarrow> (string \<times> cache_entry) set" where
  "cache_contents s = {(k, e). map_of (mc_entries s) k = Some e}"

lemma cache_remove_contents: "cache_contents (cache_remove s k) \<subseteq> cache_contents s"
  by (auto simp: cache_contents_def cache_remove_def delete_conv' restrict_map_def split: if_splits)

lemma cache_evict_contents: "cache_contents (cache_evict s) \<subseteq> cache_contents s"
proof (induction s rule: cache_evict.induct)
  case (1 s)
  show ?case
  proof (cases "int (length (mc_entries s)) \<le> mc_capacity s \<or> mc_order s = []")
    case True
    then show ?thesis by (simp add: cache_evict.simps [of s])
  next
    case False
    let ?s = "cache_remove s (last (mc_order s))"
    let ?t = "?s\<lparr>mc_stats := (mc_stats ?s)\<lparr>cs_Evictions := cs_Evictions (mc_stats ?s) + 1\<rparr>\<rparr>"
    have "cache_contents (cache_evict ?t) \<subseteq> cache_contents ?t" using False 1 by simp
    also have "cache_contents ?t \<subseteq> cache_contents s" using cache_remove_contents [of s] by (simp add: cache_contents_def)
    finally show ?thesis using False by (simp add: cache_evict.simps [of s] Let_def)
  qed
qed

interpretation mem: response_store cache_Get cache_Put cache_Delete cache_contents
proof (unfold_locales, goal_cases)
  case (1 s k now)
  then show ?case using cache_remove_contents [of s k]
    by (auto simp: cache_Get_def miss_def cache_contents_def split: option.splits)
next
  case (2 s k now e)
  then show ?case by (auto simp: cache_Get_def cache_contents_def split: option.splits if_splits)
next
  case (3 s k e)
  show ?case
    using cache_evict_contents [of "s\<lparr>mc_entries := AList.update k e (mc_entries s), mc_order := k # mc_order s,
        mc_stats := (mc_stats s)\<lparr>cs_Puts := cs_Puts (mc_stats s) + 1\<rparr>\<rparr>"]
    by (auto simp: cache_Put_def Let_def cache_contents_def update_conv' split: if_splits)
next
  case (4 s k)
  then show ?case using cache_remove_contents [of s k] by (simp add: cache_Delete_def)
qed

subsection \<open>The store is a bounded recency list\<close>

definition cache_ok :: "memory_cache \<Rightarrow> bool" where
  "cache_ok s \<longleftrightarrow> 0 < mc_capacity s \<and> keys_distinct (mc_entries s) \<and> distinct (mc_order s)
     \<and> set (mc_order s) = fst ` set (mc_entries s) \<and> int (length (mc_entries s)) \<le> mc_capacity s"

definition recency :: "memory_cache \<Rightarrow> (string \<times> cache_entry) list" where
  "recency s = map (\<lambda>k. (k, the (map_of (mc_entries s) k))) (mc_order s)"

definition forget :: "string \<Rightarrow> (string \<times> cache_entry) list \<Rightarrow> (string \<times> cache_entry) list" where
  "forget k xs = filter (\<lambda>x. fst x \<noteq> k) xs"

definition lru_put :: "int \<Rightarrow> string \<Rightarrow> cache_entry \<Rightarrow> (string \<times> cache_entry) list \<Rightarrow> (string \<times> cache_entry) list" where
  "lru_put capacity k e xs = take (nat capacity) ((k, e) # forget k xs)"

lemma cache_ok_New: "cache_ok (NewMemoryStore capacity)" "recency (NewMemoryStore capacity) = []"
  by (simp_all add: cache_ok_def NewMemoryStore_def keys_distinct_def recency_def)

lemma cache_ok_length: "cache_ok s \<Longrightarrow> length (mc_order s) = length (mc_entries s)"
  by (metis cache_ok_def distinct_card keys_distinct_def length_map list.set_map)

lemma cache_ok_mem: "cache_ok s \<Longrightarrow> k \<in> set (mc_order s) \<longleftrightarrow> map_of (mc_entries s) k \<noteq> None"
  by (simp add: cache_ok_def map_of_eq_None_iff)

lemma delete_fst: "fst ` set (AList.delete k xs) = fst ` set xs - {k}"
  by (induction xs) auto

lemma update_fst: "fst ` set (AList.update k e xs) = insert k (fst ` set xs)"
  by (induction xs) auto

lemma remove1_last: "distinct xs \<Longrightarrow> xs \<noteq> [] \<Longrightarrow> remove1 (last xs) xs = butlast xs"
  by (induction xs) auto

lemma forget_recency: "distinct (mc_order s) \<Longrightarrow>
    forget k (recency s) = map (\<lambda>k. (k, the (map_of (mc_entries s) k))) (remove1 k (mc_order s))"
  by (simp add: forget_def recency_def filter_map o_def distinct_remove1_removeAll removeAll_filter_not_eq eq_commute)

lemma cache_remove_refines:
  assumes "cache_ok s"
  shows "cache_ok (cache_remove s k)" "recency (cache_remove s k) = forget k (recency s)"
proof -
  have d: "distinct (mc_order s)" using assms by (simp add: cache_ok_def)
  have "length (AList.delete k (mc_entries s)) \<le> length (mc_entries s)" by (rule length_delete_le)
  then show "cache_ok (cache_remove s k)"
    using assms d by (simp add: cache_ok_def cache_remove_def delete_fst)
  show "recency (cache_remove s k) = forget k (recency s)"
    unfolding forget_recency [OF d] using d
    by (auto simp: recency_def cache_remove_def delete_conv' restrict_map_def)
qed

lemma cache_Get_refines:
  assumes "cache_ok s" "cache_Get s k now = (s', r)"
  shows "cache_ok s' \<and> mc_capacity s' = mc_capacity s
    \<and> (case r of Some e \<Rightarrow> map_of (recency s) k = Some e \<and> recency s' = (k, e) # forget k (recency s)
       | None \<Rightarrow> recency s' = forget k (recency s))"
proof -
  have d: "distinct (mc_order s)" using assms(1) by (simp add: cache_ok_def)
  have map: "map_of (recency s) k = (if k \<in> set (mc_order s) then Some (the (map_of (mc_entries s) k)) else None)"
    by (simp add: recency_def map_of_map_restrict)
  show ?thesis
  proof (cases "map_of (mc_entries s) k")
    case None
    then have "k \<notin> set (mc_order s)" using cache_ok_mem [OF assms(1)] by simp
    then have "recency s = forget k (recency s)" by (simp add: forget_recency [OF d] remove1_idem) (simp add: recency_def)
    moreover have "s' = miss s" "r = None" using None assms(2) by (auto simp: cache_Get_def)
    ultimately show ?thesis using assms(1) by (simp add: miss_def cache_ok_def recency_def)
  next
    case (Some e)
    then have mem: "k \<in> set (mc_order s)" using cache_ok_mem [OF assms(1)] by simp
    show ?thesis
    proof (cases "0 < ce_TTL e \<and> ce_TTL e < t_sub now (ce_StoredAt e)")
      case True
      with Some assms(2) have "s' = miss (cache_remove s k)" "r = None" by (auto simp: cache_Get_def)
      then show ?thesis using cache_remove_refines [OF assms(1), of k]
        by (simp add: miss_def cache_ok_def recency_def cache_remove_def)
    next
      case False
      with Some assms(2) have s': "s' = s\<lparr>mc_order := moveToFront k (mc_order s), mc_stats := (mc_stats s)\<lparr>cs_Hits := cs_Hits (mc_stats s) + 1\<rparr>\<rparr>"
        and r: "r = Some e" by (auto simp: cache_Get_def)
      have "recency s' = (k, e) # forget k (recency s)"
        unfolding forget_recency [OF d] by (simp add: s' recency_def moveToFront_def Some)
      moreover have "cache_ok s'" using assms(1) mem d by (auto simp: cache_ok_def s' moveToFront_def)
      ultimately show ?thesis using map mem by (simp add: r Some s')
    qed
  qed
qed

lemma cache_evict_one:
  assumes "keys_distinct (mc_entries s)" "distinct (mc_order s)" "set (mc_order s) = fst ` set (mc_entries s)"
    and "int (length (mc_entries s)) \<le> mc_capacity s + 1" "0 < mc_capacity s"
  shows "cache_ok (cache_evict s) \<and> mc_capacity (cache_evict s) = mc_capacity s
    \<and> recency (cache_evict s) = take (nat (mc_capacity s)) (recency s)"
proof -
  have len: "length (mc_order s) = length (mc_entries s)"
    using assms(1-3) by (metis distinct_card keys_distinct_def length_map list.set_map)
  show ?thesis
  proof (cases "int (length (mc_entries s)) \<le> mc_capacity s")
    case True
    then show ?thesis using assms len by (simp add: cache_evict.simps [of s] cache_ok_def recency_def)
  next
    case False
    then have ne: "mc_order s \<noteq> []" using assms(5) len by auto
    let ?k = "last (mc_order s)"
    let ?r = "cache_remove s ?k"
    let ?t = "?r\<lparr>mc_stats := (mc_stats ?r)\<lparr>cs_Evictions := cs_Evictions (mc_stats ?r) + 1\<rparr>\<rparr>"
    have k: "?k \<in> fst ` set (mc_entries s)" using ne assms(3) last_in_set by blast
    have keys: "keys_distinct (mc_entries ?r)" "distinct (mc_order ?r)" "set (mc_order ?r) = fst ` set (mc_entries ?r)"
      using assms(1-3) by (simp_all add: cache_remove_def delete_fst)
    have o: "mc_order ?r = butlast (mc_order s)" using remove1_last [OF assms(2) ne] by (simp add: cache_remove_def)
    have "length (mc_entries ?r) = length (mc_order ?r)"
      using keys by (metis distinct_card keys_distinct_def length_map list.set_map)
    moreover have "length (butlast (mc_order s)) + 1 = length (mc_entries s)" using ne len by (cases "mc_order s" rule: rev_cases) auto
    ultimately have "length (mc_entries ?r) + 1 = length (mc_entries s)" using o by simp
    then have l: "int (length (mc_entries ?r)) = mc_capacity s" using assms(4) False by linarith
    have "cache_evict s = ?t"
      using False ne l by (simp add: cache_evict.simps [of s] cache_evict.simps [of ?t] Let_def) (simp add: cache_remove_def)
    moreover have "recency ?r = take (nat (mc_capacity s)) (recency s)"
    proof -
      have "nat (mc_capacity s) = length (mc_order s) - 1" using l o len \<open>length (mc_entries ?r) = length (mc_order ?r)\<close> by simp
      moreover have "?k \<notin> set (butlast (mc_order s))" using assms(2) ne by (metis append_butlast_last_id distinct_append disjoint_insert(1) list.simps(15) Int_insert_right)
      then have "recency ?r = map (\<lambda>k. (k, the (map_of (mc_entries s) k))) (butlast (mc_order s))"
        unfolding recency_def o by (auto simp: cache_remove_def delete_conv' restrict_map_def)
      ultimately show ?thesis by (simp add: recency_def butlast_conv_take take_map)
    qed
    ultimately show ?thesis using keys l assms(5) by (simp add: cache_ok_def recency_def) (simp add: cache_remove_def)
  qed
qed

lemma cache_Put_refines:
  assumes "cache_ok s"
  shows "cache_ok (cache_Put s k e) \<and> mc_capacity (cache_Put s k e) = mc_capacity s
    \<and> recency (cache_Put s k e) = lru_put (mc_capacity s) k e (recency s)"
proof -
  have d: "distinct (mc_order s)" using assms by (simp add: cache_ok_def)
  have rest: "map (\<lambda>x. (x, the (map_of (AList.update k e (mc_entries s)) x))) (remove1 k (mc_order s)) = forget k (recency s)"
    unfolding forget_recency [OF d] using d by (auto simp: update_conv')
  have kd: "keys_distinct (AList.update k e (mc_entries s))" using assms by (simp add: cache_ok_def keys_distinct_def distinct_update)
  show ?thesis
  proof (cases "map_of (mc_entries s) k")
    case None
    define t where "t = s\<lparr>mc_entries := AList.update k e (mc_entries s), mc_order := k # mc_order s,
      mc_stats := (mc_stats s)\<lparr>cs_Puts := cs_Puts (mc_stats s) + 1\<rparr>\<rparr>"
    have new: "k \<notin> set (mc_order s)" using None cache_ok_mem [OF assms] by simp
    have "length (AList.update k e (mc_entries s)) = length (mc_entries s) + 1"
      using None by (simp add: length_update map_of_eq_None_iff)
    then have "cache_ok (cache_evict t) \<and> mc_capacity (cache_evict t) = mc_capacity t
        \<and> recency (cache_evict t) = take (nat (mc_capacity t)) (recency t)"
      using assms kd new by (intro cache_evict_one) (simp_all add: t_def cache_ok_def update_fst)
    moreover have "recency t = (k, e) # forget k (recency s)"
      using rest new by (simp add: t_def recency_def update_conv' remove1_idem)
    ultimately show ?thesis using None by (simp add: cache_Put_def Let_def t_def lru_put_def)
  next
    case (Some e0)
    then have mem: "k \<in> set (mc_order s)" using cache_ok_mem [OF assms] by simp
    let ?t = "s\<lparr>mc_entries := AList.update k e (mc_entries s), mc_order := moveToFront k (mc_order s),
      mc_stats := (mc_stats s)\<lparr>cs_Puts := cs_Puts (mc_stats s) + 1\<rparr>\<rparr>"
    have r: "recency ?t = (k, e) # forget k (recency s)" using rest by (simp add: recency_def moveToFront_def update_conv')
    have f: "fst ` set (AList.update k e (mc_entries s)) = fst ` set (mc_entries s)"
      using mem assms by (simp add: cache_ok_def update_fst insert_absorb)
    have l: "length (AList.update k e (mc_entries s)) = length (mc_entries s)"
      using kd assms f by (metis cache_ok_def distinct_card keys_distinct_def length_map list.set_map)
    have ok: "cache_ok ?t" using assms kd mem d f l by (auto simp: cache_ok_def moveToFront_def)
    have "length (recency ?t) \<le> nat (mc_capacity s)" using ok cache_ok_length [OF ok] by (simp add: recency_def cache_ok_def l nat_le_iff le_nat_iff)
    then have "recency ?t = lru_put (mc_capacity s) k e (recency s)" by (simp add: lru_put_def r [symmetric])
    with ok Some show ?thesis by (simp add: cache_Put_def Let_def)
  qed
qed

subsection \<open>Isolation\<close>

text \<open>
  The runs of the cache: requests enter through the exact look-up and may go on to the semantic one, a stage sets
  the response of a request (the provider's answer, or what the output guardrail leaves of it), and responses are
  written back, each at any time and in any interleaving. The state is the store, the index, the requests under
  way and a log of the responses the stages set, with the scope of their request. A request is admitted when its
  tenant and project identifiers hold no separator and its encoding no NUL; \<open>R\<close> is a set of key texts on which
  the digest has no collision.
\<close>

type_synonym cache_scope = "string \<times> string \<times> string \<times> int"

definition cache_scope :: "request_context \<Rightarrow> unified_request \<Rightarrow> tenant_snapshot \<Rightarrow> cache_scope" where
  "cache_scope c r s = (ctx_TenantID c, ctx_ProjectID c, ur_Model r, cp_NamespaceVersion (ts_cache s))"

definition scope_of :: "request_context \<Rightarrow> cache_scope" where
  "scope_of c = cache_scope c (the (xc_Request c)) (the (xc_Snapshot c))"

definition ctx_key :: "cache_lib \<Rightarrow> request_context \<Rightarrow> cache_key" where
  "ctx_key L c = key_of L c (the (xc_Request c)) (ts_cache (the (xc_Snapshot c)))"

definition admitted :: "cache_lib \<Rightarrow> string set \<Rightarrow> request_context \<Rightarrow> bool" where
  "admitted L R c \<longleftrightarrow> xc_Request c \<noteq> None \<and> xc_Snapshot c \<noteq> None \<and> key_ok (ctx_key L c) \<and> key_raw (ctx_key L c) \<in> R"

inductive cached ::
  "cache_lib \<Rightarrow> string set \<Rightarrow> memory_cache \<Rightarrow> semantic_store \<Rightarrow> request_context set \<Rightarrow> (cache_scope \<times> unified_response) set \<Rightarrow> bool"
  for L R where
  start: "cached L R (NewMemoryStore capacity) (NewMemorySemanticStoreWithConfig capacity' ttl) {} {}"
| lookup: "cached L R s i P given \<Longrightarrow> admitted L R c \<Longrightarrow> xc_Response c = None \<Longrightarrow> \<not> xc_CachePending c \<Longrightarrow>
    cache_Handle L (Some s) metrics c now = (Some s', metrics', c', d) \<Longrightarrow> cached L R s' i (insert c' P) given"
| semantic: "cached L R s i P given \<Longrightarrow> c \<in> P \<Longrightarrow>
    semantic_Handle L threshold blocked embedder metrics i s c now = (i', s', metrics', c', d) \<Longrightarrow> cached L R s' i' (insert c' P) given"
| respond: "cached L R s i P given \<Longrightarrow> c \<in> P \<Longrightarrow>
    cached L R s i (insert (c\<lparr>xc_Response := Some r\<rparr>) P) (insert (scope_of c, r) given)"
| write_back: "cached L R s i P given \<Longrightarrow> c \<in> P \<Longrightarrow> WriteBack L (Some s) c ttl now = (Some s', ok) \<Longrightarrow> cached L R s' i P given"

text \<open>A response that was set for the scope, or one read back from the encoding of such a response.\<close>

inductive from_scope :: "cache_lib \<Rightarrow> (cache_scope \<times> unified_response) set \<Rightarrow> cache_scope \<Rightarrow> unified_response \<Rightarrow> bool" for L given sc where
  set_by: "(sc, r) \<in> given \<Longrightarrow> from_scope L given sc r"
| read_back: "from_scope L given sc r \<Longrightarrow> cl_marshal_resp L r = Some raw \<Longrightarrow> cl_unmarshal L raw = Some r' \<Longrightarrow> from_scope L given sc r'"

lemma from_scope_mono: "from_scope L given sc r \<Longrightarrow> given \<subseteq> given' \<Longrightarrow> from_scope L given' sc r"
  by (induction rule: from_scope.induct) (auto intro: from_scope.intros)

text \<open>The key of an admitted request of the scope.\<close>

definition key_scope :: "cache_lib \<Rightarrow> string set \<Rightarrow> string \<Rightarrow> cache_scope \<Rightarrow> bool" where
  "key_scope L R k sc \<longleftrightarrow> (\<exists>ck. key_ok ck \<and> key_raw ck \<in> R \<and> k = key_String (cl_sha L) ck
     \<and> sc = (ck_TenantID ck, ck_ProjectID ck, ck_LogicalModel ck, ck_NamespaceVersion ck))"

lemma key_scope_unique: "inj_on (cl_sha L) R \<Longrightarrow> key_scope L R k sc \<Longrightarrow> key_scope L R k sc' \<Longrightarrow> sc = sc'"
  unfolding key_scope_def by (metis key_String_inj)

lemma key_scope_ctx: "admitted L R c \<Longrightarrow> key_scope L R (key_String (cl_sha L) (ctx_key L c)) (scope_of c)"
  unfolding key_scope_def admitted_def
  by (intro exI [of _ "ctx_key L c"]) (simp add: ctx_key_def key_of_def scope_of_def cache_scope_def)

definition ns_scope :: "string \<Rightarrow> cache_scope \<Rightarrow> bool" where
  "ns_scope ns sc \<longleftrightarrow> (\<exists>k. ns = Namespace k \<and> sc = (sk_TenantID k, sk_ProjectID k, sk_Model k, sk_Version k)
     \<and> CHR '':'' \<notin> set (sk_TenantID k) \<union> set (sk_ProjectID k) \<and> in_i64 (sk_Version k))"

lemma split_tail:
  assumes "a @ x # b @ x # c = a' @ x # b' @ x # c'" "x \<notin> set b" "x \<notin> set c" "x \<notin> set b'" "x \<notin> set c'"
  shows "a = a' \<and> b = b' \<and> c = c'"
proof -
  have "(a @ x # b) @ x # c = (a' @ x # b') @ x # c'" using assms(1) by simp
  then have "a @ x # b = a' @ x # b'" "c = c'" using split_last assms(3,5) by metis+
  then show ?thesis using split_last assms(2,4) by metis
qed

lemma Namespace_split:
  "Namespace k = ''semantic:'' @ sk_TenantID k @ CHR '':'' # sk_ProjectID k @ CHR '':'' # sk_Model k
     @ CHR '':'' # ''dim'' @ CHR '':'' # itoa (sk_Dimension k) @ CHR '':'' # ''ver'' @ CHR '':'' # itoa (sk_Version k)"
  by (simp add: Namespace_def)

lemma ns_scope_unique:
  assumes "ns_scope ns sc" "ns_scope ns sc'"
  shows "sc = sc'"
proof -
  obtain k k' where k: "ns = Namespace k" "ns = Namespace k'"
    and sc: "sc = (sk_TenantID k, sk_ProjectID k, sk_Model k, sk_Version k)" "sc' = (sk_TenantID k', sk_ProjectID k', sk_Model k', sk_Version k')"
    and nc: "CHR '':'' \<notin> set (sk_TenantID k) \<union> set (sk_ProjectID k)" "CHR '':'' \<notin> set (sk_TenantID k') \<union> set (sk_ProjectID k')"
    and rng: "in_i64 (sk_Version k)" "in_i64 (sk_Version k')"
    using assms unfolding ns_scope_def by blast
  have eq: "Namespace k = Namespace k'" using k by simp
  have dig: "CHR '':'' \<notin> set (itoa (sk_Dimension k))" "CHR '':'' \<notin> set (itoa (sk_Dimension k'))"
    "CHR '':'' \<notin> set (itoa (sk_Version k))" "CHR '':'' \<notin> set (itoa (sk_Version k'))"
    using itoa_chars by blast+
  let ?m = "\<lambda>k. sk_Model k @ CHR '':'' # ''dim'' @ CHR '':'' # itoa (sk_Dimension k) @ CHR '':'' # ''ver'' @ CHR '':'' # itoa (sk_Version k)"
  have t: "sk_TenantID k = sk_TenantID k' \<and> sk_ProjectID k @ CHR '':'' # ?m k = sk_ProjectID k' @ CHR '':'' # ?m k'"
    using eq nc unfolding Namespace_split by (intro split_first [of _ "CHR '':''"]) auto
  then have p: "sk_ProjectID k = sk_ProjectID k' \<and> ?m k = ?m k'"
    using nc by (intro split_first [of _ "CHR '':''"]) auto
  have v: "sk_Model k @ CHR '':'' # ''dim'' @ CHR '':'' # itoa (sk_Dimension k) = sk_Model k' @ CHR '':'' # ''dim'' @ CHR '':'' # itoa (sk_Dimension k')
      \<and> ''ver'' = ''ver'' \<and> itoa (sk_Version k) = itoa (sk_Version k')"
    using p dig by (intro split_tail [of _ "CHR '':''"]) auto
  have "sk_Model k = sk_Model k' \<and> ''dim'' = ''dim'' \<and> itoa (sk_Dimension k) = itoa (sk_Dimension k')"
    using v dig by (intro split_tail [of _ "CHR '':''"]) auto
  with t p v rng itoa_inj show ?thesis unfolding sc by auto
qed

lemma set_insert_score: "set (insert_score x xs) = insert x (set xs)"
  by (induction xs) auto

lemma set_scored: "set (foldl (\<lambda>best x. insert_score x best) acc xs) = set acc \<union> set xs"
  by (induction xs arbitrary: acc) (auto simp: set_insert_score)

lemma vectors_source:
  "x \<in> set (foldl (\<lambda>m e. AList.update (se_sourceKey e) (se_vector e) m) acc es) \<Longrightarrow> fst x \<in> fst ` set acc \<union> se_sourceKey ` set es"
proof (induction es arbitrary: acc)
  case (Cons e es)
  then have "fst x \<in> fst ` set (AList.update (se_sourceKey e) (se_vector e) acc) \<union> se_sourceKey ` set es" by simp
  then show ?case by (auto simp: update_fst)
qed auto

lemma semantic_Search_sources:
  assumes "semantic_Search fsqrt visit i k query limit now = (i', found)" "\<And>xs. set (visit xs) = set xs"
  shows "set (ss_order i') \<subseteq> set (ss_order i)"
    and "found = Some ((source, score) # rest) \<Longrightarrow> \<exists>e \<in> set (ss_order i). se_namespace e = Namespace k \<and> se_sourceKey e = source"
proof -
  let ?live = "filter (live_in i (Namespace k) now) (ss_order i)"
  define vectors where "vectors = foldl (\<lambda>m e. AList.update (se_sourceKey e) (se_vector e) m) [] ?live"
  define scored where "scored = List.map_filter (\<lambda>(key, v). map_option (Pair key) (cosine fsqrt query v)) (visit vectors)"
  define best where "best = foldl (\<lambda>best x. insert_score x best) [] scored"
  have r: "semantic_Search fsqrt visit i k query limit now = (if limit \<le> 0 then (i, None) else
      (i\<lparr>ss_order := filter (\<lambda>e. se_namespace e \<noteq> Namespace k \<or> live_in i (Namespace k) now e) (ss_order i)\<rparr>, Some (take (nat limit) best)))"
    unfolding semantic_Search_def Let_def best_def scored_def vectors_def ..
  show "set (ss_order i') \<subseteq> set (ss_order i)"
    using assms(1) unfolding r by (cases "limit \<le> 0") auto
  assume "found = Some ((source, score) # rest)"
  then have t: "take (nat limit) best = (source, score) # rest" using assms(1) unfolding r by (cases "limit \<le> 0") auto
  have "(source, score) \<in> set (take (nat limit) best)" unfolding t by simp
  then have "(source, score) \<in> set best" by (rule in_set_takeD)
  then have "(source, score) \<in> set scored" by (simp add: best_def set_scored)
  then have "source \<in> fst ` set (visit vectors)" unfolding scored_def List.map_filter_def by (force split: prod.splits)
  then have "source \<in> fst ` set vectors" by (simp add: assms(2))
  then have "source \<in> se_sourceKey ` set ?live" using vectors_source [of _ "[]" ?live] unfolding vectors_def by auto
  then show "\<exists>e \<in> set (ss_order i). se_namespace e = Namespace k \<and> se_sourceKey e = source"
    by (auto simp: live_in_def)
qed

definition entry_ok :: "cache_lib \<Rightarrow> string set \<Rightarrow> (cache_scope \<times> unified_response) set \<Rightarrow> string \<Rightarrow> cache_entry \<Rightarrow> bool" where
  "entry_ok L R given k e \<longleftrightarrow> (\<exists>sc. key_scope L R k sc \<and> (\<forall>r. cl_unmarshal L (ce_Response e) = Some r \<longrightarrow> from_scope L given sc r))"

definition vector_ok :: "cache_lib \<Rightarrow> string set \<Rightarrow> semantic_entry \<Rightarrow> bool" where
  "vector_ok L R e \<longleftrightarrow> (\<exists>sc. key_scope L R (se_sourceKey e) sc \<and> ns_scope (se_namespace e) sc)"

definition request_ok :: "cache_lib \<Rightarrow> string set \<Rightarrow> (cache_scope \<times> unified_response) set \<Rightarrow> request_context \<Rightarrow> bool" where
  "request_ok L R given c \<longleftrightarrow> admitted L R c \<and> (\<forall>r. xc_Response c = Some r \<longrightarrow> from_scope L given (scope_of c) r)
     \<and> (xc_CachePending c \<longrightarrow> key_scope L R (xc_CacheKey c) (scope_of c))"

definition cached_inv ::
  "cache_lib \<Rightarrow> string set \<Rightarrow> memory_cache \<Rightarrow> semantic_store \<Rightarrow> request_context set \<Rightarrow> (cache_scope \<times> unified_response) set \<Rightarrow> bool" where
  "cached_inv L R s i P given \<longleftrightarrow> (\<forall>c \<in> P. request_ok L R given c) \<and> mem.holds (entry_ok L R given) s
     \<and> (\<forall>e \<in> set (ss_order i). vector_ok L R e)"

lemma entry_ok_mono: "entry_ok L R given k e \<Longrightarrow> given \<subseteq> given' \<Longrightarrow> entry_ok L R given' k e"
  unfolding entry_ok_def using from_scope_mono by blast

lemma request_ok_mono: "request_ok L R given c \<Longrightarrow> given \<subseteq> given' \<Longrightarrow> request_ok L R given' c"
  unfolding request_ok_def using from_scope_mono by blast

text \<open>The handlers change nothing a key or a scope depends on.\<close>

lemma with_scope [simp]:
  "scope_of (with_hit c r k src) = scope_of c" "scope_of (with_pending c k) = scope_of c" "scope_of (c\<lparr>xc_Response := x\<rparr>) = scope_of c"
  "admitted L R (with_hit c r k src) = admitted L R c" "admitted L R (with_pending c k) = admitted L R c"
  "admitted L R (c\<lparr>xc_Response := x\<rparr>) = admitted L R c"
  by (simp_all add: scope_of_def cache_scope_def admitted_def ctx_key_def key_of_def with_hit_def with_pending_def
        ctx_TenantID_def ctx_ProjectID_def)

lemma request_ok_pending:
  "request_ok L R given c \<Longrightarrow> request_ok L R given (with_pending c (key_String (cl_sha L) (ctx_key L c)))"
  by (auto simp: request_ok_def key_scope_ctx) (simp_all add: with_pending_def key_scope_ctx)

lemma request_ok_hit:
  assumes "request_ok L R given c" "key_scope L R k (scope_of c)" "from_scope L given (scope_of c) r"
  shows "request_ok L R given (with_hit c r k src)"
  using assms by (simp add: request_ok_def) (simp add: with_hit_def)

lemma entry_ok_served:
  assumes "inj_on (cl_sha L) R" "entry_ok L R given k e" "key_scope L R k sc" "cl_unmarshal L (ce_Response e) = Some r"
  shows "from_scope L given sc r"
  using assms key_scope_unique [OF assms(1) assms(3)] unfolding entry_ok_def by blast

lemma ctx_key_eq: "xc_Request c = Some r \<Longrightarrow> xc_Snapshot c = Some s \<Longrightarrow> cache_Key L c r (ts_cache s) = key_String (cl_sha L) (ctx_key L c)"
  by (simp add: cache_Key_def ctx_key_def)

lemma cache_Handle_inv:
  assumes inj: "inj_on (cl_sha L) R" and c: "request_ok L R given c" and s: "mem.holds (entry_ok L R given) s"
    and h: "cache_Handle L (Some s) metrics c now = (Some s', metrics', c', d)"
  shows "request_ok L R given c' \<and> mem.holds (entry_ok L R given) s'"
proof -
  obtain r snap where r: "xc_Request c = Some r" and snap: "xc_Snapshot c = Some snap"
    using c by (auto simp: request_ok_def admitted_def)
  let ?key = "key_String (cl_sha L) (ctx_key L c)"
  note key = ctx_key_eq [OF r snap, of L]
  have ks: "key_scope L R ?key (scope_of c)" using c by (simp add: request_ok_def key_scope_ctx)
  show ?thesis
  proof (cases "Cacheable (cl_eq_fold L) r (ts_cache snap)")
    case False
    with h r snap have "s' = s" "c' = c" by (auto simp: cache_Handle_def)
    with c s show ?thesis by simp
  next
    case True
    obtain s1 found where g: "cache_Get s ?key now = (s1, found)" by fastforce
    have s1: "mem.holds (entry_ok L R given) s1" using mem.holds_get [OF s g] .
    show ?thesis
    proof (cases "\<exists>e resp. found = Some e \<and> cl_unmarshal L (ce_Response e) = Some resp")
      case hit: True
      then obtain e resp where e: "found = Some e" "cl_unmarshal L (ce_Response e) = Some resp" by blast
      have "entry_ok L R given ?key e" using mem.holds_found [OF s] g e by blast
      then have "from_scope L given (scope_of c) resp" using entry_ok_served [OF inj _ ks e(2)] by blast
      moreover have "s' = s1" "c' = with_hit c resp ?key ''cache''"
        using h r snap True g e by (auto simp: cache_Handle_def key Let_def)
      ultimately show ?thesis using s1 request_ok_hit [OF c ks] by simp
    next
      case False
      then have "c' = with_pending c ?key" "s' = s1 \<or> s' = cache_Delete s1 ?key"
        using h r snap True g by (cases found; auto simp: cache_Handle_def key Let_def)+
      then show ?thesis using request_ok_pending [OF c] s1 mem.holds_delete [OF s1] by metis
    qed
  qed
qed

lemma semantic_Put_ok:
  assumes "\<forall>e \<in> set (ss_order i). vector_ok L R e" "key_scope L R (sk_SourceKey k) sc" "ns_scope (Namespace k) sc"
  shows "\<forall>e \<in> set (ss_order (semantic_Put i k vector now)). vector_ok L R e"
proof (cases "find (\<lambda>e. se_key e = semanticMapKey (Namespace k) (sk_SourceKey k)) (ss_order i)")
  case None
  have "vector_ok L R \<lparr>se_namespace = Namespace k, se_sourceKey = sk_SourceKey k, se_vector = vector, se_storedAt = now\<rparr>"
    unfolding vector_ok_def using assms(2,3) by (intro exI [of _ sc]) simp
  with None assms(1) show ?thesis by (auto simp: semantic_Put_def Let_def dest!: in_set_takeD)
next
  case (Some e)
  then have "e \<in> set (ss_order i)" by (auto simp: find_Some_iff)
  with assms(1) have "vector_ok L R (e\<lparr>se_vector := vector, se_storedAt := now\<rparr>)" by (auto simp: vector_ok_def)
  with Some assms(1) show ?thesis by (auto simp: semantic_Put_def Let_def)
qed

lemma ns_scope_ctx:
  assumes "admitted L R c" "xc_Request c = Some r" "xc_Snapshot c = Some s"
  shows "ns_scope (Namespace (search_key c r (ts_cache s) v k)) (scope_of c)"
  unfolding ns_scope_def using assms
  by (intro exI [of _ "search_key c r (ts_cache s) v k"])
     (simp add: search_key_def scope_of_def cache_scope_def admitted_def key_ok_def ctx_key_def key_of_def)

lemma Namespace_source: "Namespace (search_key c r p v k) = Namespace (search_key c r p v k')"
  by (simp add: Namespace_def search_key_def)

lemma semantic_Handle_cases:
  assumes r: "xc_Request c = Some r" and snap: "xc_Snapshot c = Some snap"
    and h: "semantic_Handle L threshold blocked embedder metrics i s c now = (i', s', metrics', c', d)"
  obtains "i' = i" "s' = s" "c' = c" "d = Continue"
  | vector i1 found where "semantic_Search (cl_sqrt L) (cl_visit L) i (search_key c r (ts_cache snap) vector '''') vector 1 now = (i1, found)"
      "i' = semantic_Put i1 (search_key c r (ts_cache snap) vector (cache_Key L c r (ts_cache snap))) vector now"
      "c' = with_pending c (cache_Key L c r (ts_cache snap))" "s' = s \<or> (\<exists>source x. cache_Get s source now = (s', x))" "d = Continue"
  | vector source score rest e response where
      "semantic_Search (cl_sqrt L) (cl_visit L) i (search_key c r (ts_cache snap) vector '''') vector 1 now = (i', Some ((source, score) # rest))"
      "cache_Get s source now = (s', Some e)" "cl_unmarshal L (ce_Response e) = Some response"
      "c' = with_hit c response source ''semantic_cache''" "d = SkipResolutionExecution"
proof (cases "\<not> Cacheable (cl_eq_fold L) r (ts_cache snap) \<or> blocked \<or> embedder (ur_Model r @ nul @ cl_marshal_req L r) \<in> {None, Some []}")
  case True
  then have "(i, s, metrics, c, Continue) = (i', s', metrics', c', d)"
    using h r snap by (cases "embedder (ur_Model r @ nul @ cl_marshal_req L r)") (simp_all add: semantic_Handle_def Let_def split: if_split_asm)
  then show ?thesis by (intro that(1)) simp_all
next
  case False
  note out = that(2)
  from False obtain vector where v: "embedder (ur_Model r @ nul @ cl_marshal_req L r) = Some vector" "vector \<noteq> []" by auto
  obtain i1 found where se: "semantic_Search (cl_sqrt L) (cl_visit L) i (search_key c r (ts_cache snap) vector '''') vector 1 now = (i1, found)"
    by fastforce
  let ?miss = "\<lambda>s. semantic_miss metrics i1 s c r (ts_cache snap) vector (cache_Key L c r (ts_cache snap)) now"
  have body: "(case found of Some ((source, score) # _) \<Rightarrow>
         if score < semantic_threshold threshold then ?miss s
         else (case cache_Get s source now of (s1, None) \<Rightarrow> ?miss s1
               | (s1, Some e) \<Rightarrow> (case cl_unmarshal L (ce_Response e) of None \<Rightarrow> ?miss s1
                    | Some response \<Rightarrow> (i1, s1, record_stats metrics (hit_stats response),
                        with_hit c response source ''semantic_cache'', SkipResolutionExecution)))
       | Some [] \<Rightarrow> ?miss s | None \<Rightarrow> (i1, s, metrics, c, Continue)) = (i', s', metrics', c', d)"
    using h r snap False v se by (simp add: semantic_Handle_def Let_def)
  have some: "found \<noteq> None" using se by (auto simp: semantic_Search_def Let_def)
  have missed: thesis if "?miss s1 = (i', s', metrics', c', d)" "s1 = s \<or> (\<exists>source x. cache_Get s source now = (s1, x))" for s1
    using that by (intro out [OF se]) (auto simp: semantic_miss_def)
  show ?thesis
  proof (cases found)
    case (Some cs)
    show ?thesis
    proof (cases cs)
      case Nil
      with Some body show ?thesis by (intro missed [of s]) simp_all
    next
      case (Cons x rest)
      obtain source score where x: "x = (source, score)" by fastforce
      obtain s1 g where get: "cache_Get s source now = (s1, g)" by fastforce
      show ?thesis
      proof (cases "score < semantic_threshold threshold")
        case True
        with Some Cons x body show ?thesis by (intro missed [of s]) simp_all
      next
        case False
        show ?thesis
        proof (cases "\<exists>e response. g = Some e \<and> cl_unmarshal L (ce_Response e) = Some response")
          case True
          then obtain e response where "g = Some e" "cl_unmarshal L (ce_Response e) = Some response" by blast
          with Some Cons x body False get se show ?thesis by (intro that(3) [of vector source score rest e response]) auto
        next
          case n: False
          with Some Cons x body False get have "?miss s1 = (i', s', metrics', c', d)"
            by (cases g) (auto split: option.split_asm)
          then show ?thesis using get by (intro missed [of s1]) auto
        qed
      qed
    qed
  qed (use some in simp)
qed

lemma semantic_Handle_inv:
  assumes inj: "inj_on (cl_sha L) R" and visit: "\<And>xs. set (cl_visit L xs) = set xs"
    and c: "request_ok L R given c" and s: "mem.holds (entry_ok L R given) s" and i: "\<forall>e \<in> set (ss_order i). vector_ok L R e"
    and h: "semantic_Handle L threshold blocked embedder metrics i s c now = (i', s', metrics', c', d)"
  shows "request_ok L R given c' \<and> mem.holds (entry_ok L R given) s' \<and> (\<forall>e \<in> set (ss_order i'). vector_ok L R e)"
proof -
  obtain r snap where r: "xc_Request c = Some r" and snap: "xc_Snapshot c = Some snap" and adm: "admitted L R c"
    using c by (auto simp: request_ok_def admitted_def)
  note key = ctx_key_eq [OF r snap, of L]
  have ks: "key_scope L R (cache_Key L c r (ts_cache snap)) (scope_of c)" using adm by (simp add: key key_scope_ctx)
  note ns = ns_scope_ctx [OF adm r snap]
  from r snap h show ?thesis
  proof (cases rule: semantic_Handle_cases)
    case 1
    then show ?thesis using c s i by simp
  next
    case (2 vector i1 found)
    have i1: "\<forall>e \<in> set (ss_order i1). vector_ok L R e" using semantic_Search_sources(1) [OF 2(1) visit] i by blast
    have "\<forall>e \<in> set (ss_order i'). vector_ok L R e"
      unfolding 2(2) by (rule semantic_Put_ok [OF i1]) (use ks ns in \<open>simp_all add: search_key_def\<close>)
    moreover have "mem.holds (entry_ok L R given) s'" using 2(4) s mem.holds_get by blast
    ultimately show ?thesis using request_ok_pending [OF c] by (simp add: 2(3) key)
  next
    case (3 vector source score rest e response)
    obtain x where x: "x \<in> set (ss_order i)" "se_namespace x = Namespace (search_key c r (ts_cache snap) vector '''')" "se_sourceKey x = source"
      using semantic_Search_sources(2) [OF 3(1) visit refl] by blast
    then have src: "key_scope L R source (scope_of c)"
      using i ns_scope_unique [OF ns [of vector "''''"]] by (metis vector_ok_def)
    have "entry_ok L R given source e" using mem.holds_found [OF s 3(2)] .
    then have "from_scope L given (scope_of c) response" using entry_ok_served [OF inj _ src 3(3)] by blast
    then have "request_ok L R given c'" unfolding 3(4) using request_ok_hit [OF c src] by blast
    moreover have "\<forall>e \<in> set (ss_order i'). vector_ok L R e" using semantic_Search_sources(1) [OF 3(1) visit] i by blast
    ultimately show ?thesis using mem.holds_get [OF s 3(2)] by blast
  qed
qed

lemma WriteBack_inv:
  assumes c: "request_ok L R given c" and s: "mem.holds (entry_ok L R given) s"
    and w: "WriteBack L (Some s) c ttl now = (Some s', ok)"
  shows "mem.holds (entry_ok L R given) s'"
proof (cases "\<exists>resp raw. xc_Response c = Some resp \<and> xc_CachePending c \<and> cl_marshal_resp L resp = Some raw")
  case True
  then obtain resp raw where r: "xc_Response c = Some resp" "xc_CachePending c" "cl_marshal_resp L resp = Some raw" by blast
  have "key_scope L R (xc_CacheKey c) (scope_of c)" "from_scope L given (scope_of c) resp"
    using c r by (auto simp: request_ok_def)
  then have "entry_ok L R given (xc_CacheKey c) \<lparr>ce_Response = raw, ce_StoredAt = now, ce_TTL = ttl\<rparr>"
    unfolding entry_ok_def using r(3) by (intro exI [of _ "scope_of c"]) (auto intro: from_scope.read_back)
  then show ?thesis using w r s mem.holds_put [OF s] by (auto simp: WriteBack_def split: if_split_asm)
next
  case False
  then have "s' = s" using w by (auto simp: WriteBack_def split: option.split_asm if_split_asm)
  with s show ?thesis by simp
qed

lemma cached_reachable_inv:
  assumes "cached L R s i P given" "inj_on (cl_sha L) R" "\<And>xs. set (cl_visit L xs) = set xs"
  shows "cached_inv L R s i P given"
  using assms(1)
proof (induction rule: cached.induct)
  case (start capacity capacity' ttl)
  then show ?case by (simp add: cached_inv_def mem.holds_def cache_contents_def NewMemoryStore_def NewMemorySemanticStoreWithConfig_def)
next
  case (lookup s i P given c metrics now s' metrics' c' d)
  have "request_ok L R given c" using lookup.hyps by (simp add: request_ok_def)
  then show ?case using cache_Handle_inv [OF assms(2) _ _ lookup.hyps(5)] lookup.IH by (simp add: cached_inv_def)
next
  case (semantic s i P given c threshold blocked embedder metrics now i' s' metrics' c' d)
  have "request_ok L R given c" "mem.holds (entry_ok L R given) s" "\<forall>e \<in> set (ss_order i). vector_ok L R e"
    using semantic.IH semantic.hyps(2) by (simp_all add: cached_inv_def)
  from semantic_Handle_inv [OF assms(2,3) this semantic.hyps(3)] semantic.IH show ?case by (simp add: cached_inv_def)
next
  case (respond s i P given c r)
  have "request_ok L R (insert (scope_of c, r) given) (c\<lparr>xc_Response := Some r\<rparr>)"
    using respond by (auto simp: cached_inv_def request_ok_def intro: from_scope.set_by)
  then show ?case using respond request_ok_mono [of L R given _ "insert (scope_of c, r) given"]
      mem.holds_mono [of "entry_ok L R given" s "entry_ok L R (insert (scope_of c, r) given)"] entry_ok_mono
    by (simp add: cached_inv_def subset_insertI)
next
  case (write_back s i P given c ttl now s' ok)
  then show ?case using WriteBack_inv [OF _ _ write_back.hyps(3)] by (simp add: cached_inv_def)
qed

text \<open>C2: The caches never cross a scope. In every run of the exact and the semantic cache, whatever the interleaving of
  look-ups, responses and write-backs, the evictions and the expiries, the response a request holds was set for a
  request of the same tenant, project, model and cache namespace (or was read back from the encoding of such a
  response), provided the digest has no collision on the keys in use.\<close>

theorem cache_isolation:
  assumes "cached L R s i P given" "inj_on (cl_sha L) R" "\<And>xs. set (cl_visit L xs) = set xs"
    and "c \<in> P" "xc_Response c = Some r"
  shows "from_scope L given (scope_of c) r"
  using cached_reachable_inv [OF assms(1-3)] assms(4,5) by (auto simp: cached_inv_def request_ok_def)

definition example_response :: "string \<Rightarrow> unified_response" where
  "example_response ident = \<lparr>xr_ID = ident, xr_Model = ''m'', xr_StopReason = ''stop'',
     xr_Usage = \<lparr>xu_InputTokens = 3, xu_OutputTokens = 4, xu_CacheReadTokens = 0, xu_CacheWriteTokens = 0, xu_CachedInputTokens = 0,
       xu_ReasoningTokens = 0, xu_AudioInputTokens = 0, xu_AudioOutputTokens = 0, xu_ImageInputUnits = 0, xu_ImageOutputUnits = 0,
       xu_ToolCalls = 0, xu_Source = ''provider'', xu_Estimated = False, xu_EstimationMethod = ''''\<rparr>,
     xr_CreatedAt = 0, xr_Choices = [], xr_Embeddings = [], xr_Rerank = [], xr_Audio = None, xr_Batch = None, xr_File = None,
     xr_RawContent = '''', xr_ToolResult = None\<rparr>"

definition example_lib :: cache_lib where
  "example_lib = \<lparr>cl_sha = (\<lambda>s. s), cl_sqrt = (\<lambda>x. x), cl_visit = (\<lambda>xs. xs), cl_eq_fold = (\<lambda>a b. a = b), cl_marshal_req = ur_Model,
     cl_marshal_resp = (\<lambda>r. Some (xr_ID r)), cl_unmarshal = (\<lambda>s. Some (example_response s))\<rparr>"

definition cached_data :: tenant_data where
  "cached_data = example_data\<lparr>td_Cache := \<lparr>cp_Enabled = True, cp_TTLSeconds = 60, cp_NamespaceVersion = 1, cp_AllowedKinds = [],
     cp_MaxTemperature = 0, cp_Semantic = \<lparr>sm_Enabled = False, sm_Model = '''', sm_Threshold = 0\<rparr>\<rparr>\<rparr>"

abbreviation cached_context :: request_context where
  "cached_context \<equiv> example_context cached_data"

abbreviation cached_key :: string where
  "cached_key \<equiv> key_String (\<lambda>s. s) (ctx_key example_lib cached_context)"

lemma cached_context_fields:
  "xc_Request cached_context = Some example_request" "xc_Snapshot cached_context = Some (NewTenantSnapshot cached_data)"
  "xc_Response cached_context = None" "\<not> xc_CachePending cached_context"
  "ts_cache (NewTenantSnapshot cached_data) = td_Cache cached_data" "Cacheable (=) example_request (td_Cache cached_data)"
  "cache_Key example_lib cached_context example_request (td_Cache cached_data) = cached_key" "cached_key \<noteq> ''''"
  by (simp_all add: example_context_def NewTenantSnapshot_def cached_data_def Cacheable_def example_request_def
        request_ToolCalls_def request_HasImages_def defaultCacheableKinds_def cache_Key_def ctx_key_def key_of_def example_lib_def key_String_def)

lemma cached_context_admitted: "admitted example_lib UNIV cached_context"
proof -
  have "key_ok (ctx_key example_lib cached_context)" by code_simp
  then show ?thesis by (simp add: admitted_def cached_context_fields)
qed

theorem cache_isolation_witness:
  "\<exists>s i P c. cached example_lib UNIV s i P {(scope_of cached_context, example_response ''x'')} \<and> c \<in> P \<and> xc_CacheHit c
     \<and> from_scope example_lib {(scope_of cached_context, example_response ''x'')} (scope_of c) (example_response ''x'')"
proof -
  let ?L = example_lib and ?i = "NewMemorySemanticStoreWithConfig 1 0" and ?r = "example_response ''x''"
  let ?s1 = "miss (NewMemoryStore 1)" and ?c1 = "with_pending cached_context cached_key"
  let ?c2 = "?c1\<lparr>xc_Response := Some ?r\<rparr>" and ?g = "{(scope_of cached_context, ?r)}"
  let ?s2 = "cache_Put ?s1 cached_key \<lparr>ce_Response = ''x'', ce_StoredAt = 0, ce_TTL = 60\<rparr>"
  let ?c3 = "with_hit cached_context ?r cached_key ''cache''"
  have lib: "cl_sha ?L = (\<lambda>s. s)" "cl_eq_fold ?L = (=)" "cl_unmarshal ?L = (\<lambda>s. Some (example_response s))"
    "cl_marshal_resp ?L = (\<lambda>r. Some (xr_ID r))" by (simp_all add: example_lib_def fun_eq_iff)
  have "cached ?L UNIV (NewMemoryStore 1) ?i {} {}" by (rule cached.start)
  moreover have "cache_Handle ?L (Some (NewMemoryStore 1)) None cached_context 0 = (Some ?s1, None, ?c1, Continue)"
    by (simp add: cache_Handle_def cached_context_fields lib cache_Get_def NewMemoryStore_def record_stats_def Let_def)
  ultimately have 1: "cached ?L UNIV ?s1 ?i {?c1} {}"
    using cached_context_admitted by (intro cached.lookup) (simp_all add: cached_context_fields)
  have 2: "cached ?L UNIV ?s1 ?i {?c2, ?c1} ?g" using cached.respond [OF 1, of ?c1 ?r] by simp
  have "WriteBack ?L (Some ?s1) ?c2 60 0 = (Some ?s2, True)"
    by (simp add: WriteBack_def with_pending_def lib example_response_def cached_context_fields)
  then have 3: "cached ?L UNIV ?s2 ?i {?c2, ?c1} ?g" by (rule cached.write_back [OF 2 insertI1])
  have g: "snd (cache_Get ?s2 cached_key 1) = Some \<lparr>ce_Response = ''x'', ce_StoredAt = 0, ce_TTL = 60\<rparr>"
    by (simp add: cache_Put_def cache_evict.simps miss_def NewMemoryStore_def cache_Get_def Let_def t_sub_def)
  then have "cache_Handle ?L (Some ?s2) None cached_context 1 = (Some (fst (cache_Get ?s2 cached_key 1)), None, ?c3, SkipResolutionExecution)"
    by (simp add: cache_Handle_def cached_context_fields lib record_stats_def Let_def case_prod_beta)
  then have 4: "cached ?L UNIV (fst (cache_Get ?s2 cached_key 1)) ?i {?c3, ?c2, ?c1} ?g"
    using cached_context_admitted by (intro cached.lookup [OF 3]) (simp_all add: cached_context_fields)
  have "from_scope ?L ?g (scope_of ?c3) ?r"
  proof (rule cache_isolation [OF 4])
    show "inj_on (cl_sha ?L) UNIV" by (simp add: lib)
    show "set (cl_visit ?L xs) = set xs" for xs by (simp add: example_lib_def)
    show "?c3 \<in> {?c3, ?c2, ?c1}" by (rule insertI1)
    show "xc_Response ?c3 = Some ?r" by (simp add: with_hit_def)
  qed
  moreover have "xc_CacheHit ?c3" by (simp add: with_hit_def)
  ultimately show ?thesis using 4 insertI1 by blast
qed

text \<open>
  A semantic hit after an exact miss leaves the request pending, so its response is written back: the entry is
  stored again under the key of its source, with a new time to live. An entry that is hit often enough in this way
  never expires.
\<close>

lemma semantic_hit_renews:
  assumes "semantic_Handle L threshold blocked embedder metrics i s c now = (i', s', metrics', c', SkipResolutionExecution)"
    and "xc_Request c = Some r" "xc_Snapshot c = Some snap" "xc_CachePending c" "xc_CacheKey c' \<noteq> ''''"
    and "\<And>x. cl_marshal_resp L x \<noteq> None"
  shows "\<exists>raw. WriteBack L (Some s') c' ttl now' =
    (Some (cache_Put s' (xc_CacheKey c') \<lparr>ce_Response = raw, ce_StoredAt = now', ce_TTL = ttl\<rparr>), True)"
  using assms(2,3,1)
proof (cases rule: semantic_Handle_cases)
  case (3 vector source score rest e response)
  obtain raw where "cl_marshal_resp L response = Some raw" using assms(6) by auto
  with 3(4) assms(4,5) show ?thesis by (intro exI [of _ raw]) (simp add: WriteBack_def with_hit_def)
qed simp_all

end
