(* ===== verification/Circuit.thy ===== *)
theory Circuit
  imports Go_Float
begin

text \<open>
  The circuit breaker of \<^verbatim>\<open>internal/resilience/circuit\<close>: one entry per
  deployment and credential, a cooldown that escalates with every reopening, exclusive
  half-open probes, and the durable facts (\<^verbatim>\<open>memory_store.go\<close>) a restart reconstructs the
  entries from. Every operation runs under the entry's lock in the code, so it is one step
  here; the clock readings of one operation are one value \<open>now\<close>.
\<close>

named_theorems circuit_defs \<open>the operations of the breaker\<close>

subsection \<open>State\<close>

abbreviation StateClosed :: string where "StateClosed \<equiv> ''closed''"
abbreviation StateOpen :: string where "StateOpen \<equiv> ''open''"
abbreviation StateHalfOpen :: string where "StateHalfOpen \<equiv> ''half_open''"
abbreviation StateReset :: string where "StateReset \<equiv> ''reset''"

record circuit_config =
  cfg_MinSamples :: int
  cfg_ErrorRate :: f64
  cfg_Cooldown :: duration
  cfg_CooldownFactor :: f64
  cfg_MaxCooldown :: duration
  cfg_Observer :: bool \<comment> \<open>an observer is installed\<close>

definition DefaultConfig :: circuit_config where
  "DefaultConfig = \<lparr>cfg_MinSamples = 20, cfg_ErrorRate = 1 / 2, cfg_Cooldown = 30 * second,
     cfg_CooldownFactor = 2, cfg_MaxCooldown = 10 * minute, cfg_Observer = False\<rparr>"

record transition =
  tr_DeploymentID :: string
  tr_CredentialID :: string
  tr_From :: string
  tr_To :: string
  tr_Reason :: string
  tr_At :: gotime

record fact =
  fact_DeploymentID :: string
  fact_CredentialID :: string
  fact_State :: string
  fact_OpenedAtMS :: int
  fact_LastProbeAtMS :: int
  fact_SampleCount :: int
  fact_FailureCount :: int
  fact_OpenCount :: int

record entry =
  e_state :: string
  e_samples :: int
  e_failures :: int
  e_openedAt :: gotime
  e_lastProbeAt :: gotime
  e_probeTaken :: bool
  e_openCount :: int

type_synonym mem_store = "((string \<times> string) \<times> fact) list"

record breaker =
  br_config :: circuit_config
  br_entries :: "string \<rightharpoonup> entry"
  br_store :: "mem_store option" \<comment> \<open>\<^const>\<open>None\<close>: no store is configured\<close>
  br_log :: "transition list" \<comment> \<open>what the observer was told, oldest first\<close>

definition new_entry :: entry where
  "new_entry = \<lparr>e_state = StateClosed, e_samples = 0, e_failures = 0, e_openedAt = zero_time,
     e_lastProbeAt = zero_time, e_probeTaken = False, e_openCount = 0\<rparr>"

definition breaker_New :: "circuit_config \<Rightarrow> mem_store option \<Rightarrow> breaker" where
  "breaker_New config store =
     \<lparr>br_config = config, br_entries = Map.empty, br_store = store, br_log = []\<rparr>"

definition SetConfig :: "breaker \<Rightarrow> circuit_config \<Rightarrow> breaker" where
  "SetConfig b config = b\<lparr>br_config := config\<rparr>"

subsection \<open>The in-process store\<close>

definition store_Load :: "mem_store \<Rightarrow> fact list" where
  "store_Load s = map snd s"

definition store_Save :: "mem_store \<Rightarrow> fact \<Rightarrow> mem_store" where
  "store_Save s f = AList.update (fact_DeploymentID f, fact_CredentialID f) f s"

definition store_Delete :: "mem_store \<Rightarrow> string \<times> string \<Rightarrow> mem_store" where
  "store_Delete s key = AList.delete key s"

subsection \<open>Cooldown\<close>

definition cooldown :: "(f64 \<Rightarrow> int) \<Rightarrow> circuit_config \<Rightarrow> int \<Rightarrow> duration" where
  "cooldown oor cfg openCount =
     (let n = (if openCount \<le> 0 then 1 else openCount);
          c = (if 1 < cfg_CooldownFactor cfg
               then ((\<lambda>c. f_to_i64 oor (fmul (f_of_int c) (cfg_CooldownFactor cfg))) ^^ nat (n - 1))
                      (cfg_Cooldown cfg)
               else cfg_Cooldown cfg);
          c = (if 0 < cfg_MaxCooldown cfg \<and> cfg_MaxCooldown cfg < c then cfg_MaxCooldown cfg else c)
      in if c \<le> 0 then cfg_Cooldown cfg else c)"

subsection \<open>Entries and their persistence\<close>

definition tuple_key :: "string \<Rightarrow> string \<Rightarrow> string" where
  "tuple_key deploymentID credentialID = join_colon deploymentID credentialID"

definition br_get :: "breaker \<Rightarrow> string \<Rightarrow> string \<Rightarrow> entry" where
  "br_get b dep cred =
     (case br_entries b (tuple_key dep cred) of None \<Rightarrow> new_entry | Some e \<Rightarrow> e)"

definition br_put :: "breaker \<Rightarrow> string \<Rightarrow> string \<Rightarrow> entry \<Rightarrow> breaker" where
  "br_put b dep cred e = b\<lparr>br_entries := (br_entries b)(tuple_key dep cred \<mapsto> e)\<rparr>"

definition fact_of :: "string \<Rightarrow> string \<Rightarrow> entry \<Rightarrow> fact" where
  "fact_of dep cred e =
     \<lparr>fact_DeploymentID = dep, fact_CredentialID = cred, fact_State = e_state e,
      fact_OpenedAtMS = to_unix_milli (e_openedAt e),
      fact_LastProbeAtMS = to_unix_milli (e_lastProbeAt e),
      fact_SampleCount = e_samples e, fact_FailureCount = e_failures e,
      fact_OpenCount = e_openCount e\<rparr>"

definition persistLocked :: "breaker \<Rightarrow> string \<Rightarrow> string \<Rightarrow> breaker" where
  "persistLocked b dep cred =
     (case br_store b of None \<Rightarrow> b
      | Some s \<Rightarrow> b\<lparr>br_store := Some (store_Save s (fact_of dep cred (br_get b dep cred)))\<rparr>)"

definition notify :: "breaker \<Rightarrow> transition \<Rightarrow> breaker" where
  "notify b t = (if cfg_Observer (br_config b) then b\<lparr>br_log := br_log b @ [t]\<rparr> else b)"

definition notifyLocked ::
  "breaker \<Rightarrow> string \<Rightarrow> string \<Rightarrow> string \<Rightarrow> string \<Rightarrow> string \<Rightarrow> gotime \<Rightarrow> breaker" where
  "notifyLocked b dep cred from to reason now =
     notify (persistLocked b dep cred)
       \<lparr>tr_DeploymentID = dep, tr_CredentialID = cred, tr_From = from, tr_To = to,
        tr_Reason = reason, tr_At = now\<rparr>"

definition transitionLocked ::
  "breaker \<Rightarrow> string \<Rightarrow> string \<Rightarrow> string \<Rightarrow> string \<Rightarrow> gotime \<Rightarrow> breaker" where
  "transitionLocked b dep cred to reason now =
     (let item = br_get b dep cred;
          from = e_state item;
          b1 = persistLocked (br_put b dep cred (item\<lparr>e_state := to\<rparr>)) dep cred
      in if from \<noteq> to
         then notify b1 \<lparr>tr_DeploymentID = dep, tr_CredentialID = cred, tr_From = from,
                tr_To = to, tr_Reason = reason, tr_At = now\<rparr>
         else b1)"

subsection \<open>Operations\<close>

definition load_fact :: "breaker \<Rightarrow> fact \<Rightarrow> breaker" where
  "load_fact b f =
     (let item = br_get b (fact_DeploymentID f) (fact_CredentialID f)
      in br_put b (fact_DeploymentID f) (fact_CredentialID f)
           (item\<lparr>e_state := fact_State f, e_samples := fact_SampleCount f,
              e_failures := fact_FailureCount f, e_openCount := fact_OpenCount f,
              e_openedAt := of_unix_milli (fact_OpenedAtMS f),
              e_lastProbeAt := of_unix_milli (fact_LastProbeAtMS f)\<rparr>))"

definition breaker_Start :: "breaker \<Rightarrow> breaker" where
  "breaker_Start b =
     (case br_store b of None \<Rightarrow> b | Some s \<Rightarrow> foldl load_fact b (store_Load s))"

definition openNow :: "(f64 \<Rightarrow> int) \<Rightarrow> circuit_config \<Rightarrow> entry \<Rightarrow> gotime \<Rightarrow> bool" where
  "openNow oor cfg item now =
     (if e_state item \<noteq> StateOpen then False
      else t_sub now (e_openedAt item) < cooldown oor cfg (e_openCount item))"

definition breaker_Open ::
  "(f64 \<Rightarrow> int) \<Rightarrow> breaker \<Rightarrow> string \<Rightarrow> string \<Rightarrow> gotime \<Rightarrow> breaker \<times> bool" where
  "breaker_Open oor b dep cred now =
     (let item = br_get b dep cred
      in (br_put b dep cred item, openNow oor (br_config b) item now))"

definition breaker_Allow ::
  "(f64 \<Rightarrow> int) \<Rightarrow> breaker \<Rightarrow> string \<Rightarrow> string \<Rightarrow> gotime \<Rightarrow> breaker \<times> bool" where
  "breaker_Allow oor b dep cred now =
     (let item = br_get b dep cred;
          b0 = br_put b dep cred item
      in if e_state item = StateClosed then (b0, True)
         else if e_state item = StateOpen then
           (if t_sub now (e_openedAt item) < cooldown oor (br_config b) (e_openCount item)
            then (b0, False)
            else let b1 = transitionLocked b0 dep cred StateHalfOpen ''cooldown_elapsed'' now;
                     item1 = br_get b1 dep cred
                 in (br_put b1 dep cred (item1\<lparr>e_lastProbeAt := now, e_probeTaken := True\<rparr>), True))
         else if e_probeTaken item then (b0, False)
         else (br_put b dep cred (item\<lparr>e_lastProbeAt := now, e_probeTaken := True\<rparr>), True))"

definition breaker_Record ::
  "breaker \<Rightarrow> string \<Rightarrow> string \<Rightarrow> bool \<Rightarrow> gotime \<Rightarrow> breaker" where
  "breaker_Record b dep cred success now =
     (let item = br_get b dep cred; cfg = br_config b
      in if e_state item = StateHalfOpen then
           (if success
            then notifyLocked
                   (br_put b dep cred (item\<lparr>e_state := StateClosed, e_samples := 0, e_failures := 0,
                      e_openCount := 0, e_probeTaken := False\<rparr>))
                   dep cred StateHalfOpen StateClosed '''' now
            else notifyLocked
                   (br_put b dep cred (item\<lparr>e_openCount := e_openCount item + 1, e_openedAt := now,
                      e_probeTaken := False, e_state := StateOpen\<rparr>))
                   dep cred StateHalfOpen StateOpen '''' now)
         else if e_state item = StateOpen then br_put b dep cred item
         else
           let item1 = item\<lparr>e_samples := e_samples item + 1,
                 e_failures := (if success then e_failures item else e_failures item + 1)\<rparr>
           in if cfg_MinSamples cfg \<le> e_samples item1 \<and>
                 cfg_ErrorRate cfg < fdiv (f_of_int (e_failures item1)) (f_of_int (e_samples item1))
              then notifyLocked
                     (br_put b dep cred (item1\<lparr>e_openCount := 1, e_openedAt := now,
                        e_probeTaken := False, e_state := StateOpen\<rparr>))
                     dep cred StateClosed StateOpen '''' now
              else br_put b dep cred item1)"

definition breaker_Reset :: "breaker \<Rightarrow> string \<Rightarrow> string \<Rightarrow> gotime \<Rightarrow> breaker" where
  "breaker_Reset b dep cred now =
     (let from = e_state (br_get b dep cred);
          b1 = b\<lparr>br_entries := (br_entries b)(tuple_key dep cred := None)\<rparr>;
          b2 = (case br_store b1 of None \<Rightarrow> b1
                | Some s \<Rightarrow> b1\<lparr>br_store := Some (store_Delete s (dep, cred))\<rparr>)
      in if from \<noteq> StateClosed
         then notify b2 \<lparr>tr_DeploymentID = dep, tr_CredentialID = cred, tr_From = from,
                tr_To = StateReset, tr_Reason = ''drift'', tr_At = now\<rparr>
         else b2)"

lemmas circuit_ops [circuit_defs] =
  breaker_Open_def breaker_Allow_def breaker_Record_def breaker_Reset_def

subsection \<open>One tuple at a time\<close>

text \<open>
  The behaviour of the breaker on a single deployment and credential, without the map of
  entries, the store and the observer: the contract each operation meets for the tuple it is
  called on, while every other tuple keeps its entry.
\<close>

definition entry_allow ::
  "(f64 \<Rightarrow> int) \<Rightarrow> circuit_config \<Rightarrow> entry \<Rightarrow> gotime \<Rightarrow> entry \<times> bool" where
  "entry_allow oor cfg e now =
     (if e_state e = StateClosed then (e, True)
      else if e_state e = StateOpen \<and> openNow oor cfg e now then (e, False)
      else if e_state e = StateOpen then
        (e\<lparr>e_state := StateHalfOpen, e_lastProbeAt := now, e_probeTaken := True\<rparr>, True)
      else if e_probeTaken e then (e, False)
      else (e\<lparr>e_lastProbeAt := now, e_probeTaken := True\<rparr>, True))"

definition trips :: "circuit_config \<Rightarrow> int \<Rightarrow> int \<Rightarrow> bool" where
  "trips cfg failures samples \<longleftrightarrow>
     cfg_MinSamples cfg \<le> samples \<and>
     cfg_ErrorRate cfg < fdiv (f_of_int failures) (f_of_int samples)"

definition entry_record :: "circuit_config \<Rightarrow> entry \<Rightarrow> bool \<Rightarrow> gotime \<Rightarrow> entry" where
  "entry_record cfg e success now =
     (if e_state e = StateHalfOpen then
        (if success
         then e\<lparr>e_state := StateClosed, e_samples := 0, e_failures := 0, e_openCount := 0,
                e_probeTaken := False\<rparr>
         else e\<lparr>e_openCount := e_openCount e + 1, e_openedAt := now, e_probeTaken := False,
                e_state := StateOpen\<rparr>)
      else if e_state e = StateOpen then e
      else
        let s = e_samples e + 1; f = (if success then e_failures e else e_failures e + 1)
        in if trips cfg f s
           then e\<lparr>e_samples := s, e_failures := f, e_openCount := 1, e_openedAt := now,
                  e_probeTaken := False, e_state := StateOpen\<rparr>
           else e\<lparr>e_samples := s, e_failures := f\<rparr>)"

lemma br_get_put:
  "br_get (br_put b d c e) d' c' = (if tuple_key d' c' = tuple_key d c then e else br_get b d' c')"
  by (simp add: br_get_def br_put_def)

lemma br_get_key: "tuple_key d' c' = tuple_key d c \<Longrightarrow> br_get b d' c' = br_get b d c"
  by (simp add: br_get_def)

lemma br_get_log [simp]:
  "br_get (persistLocked b x y) d c = br_get b d c" "br_get (notify b t) d c = br_get b d c"
  "br_get (notifyLocked b x y f to r now) d c = br_get b d c"
  by (simp_all add: notifyLocked_def persistLocked_def notify_def br_get_def split: option.splits)

lemma br_config_log [simp]:
  "br_config (persistLocked b x y) = br_config b" "br_config (notify b t) = br_config b"
  "br_config (notifyLocked b x y f to r now) = br_config b" "br_config (br_put b d c e) = br_config b"
  by (simp_all add: notifyLocked_def persistLocked_def notify_def br_put_def split: option.splits)

lemma br_get_transition:
  "br_get (transitionLocked b x y to r now) d c =
     (if tuple_key d c = tuple_key x y then (br_get b x y)\<lparr>e_state := to\<rparr> else br_get b d c)"
  by (simp add: transitionLocked_def Let_def br_get_put)

lemma br_config_transition [simp]: "br_config (transitionLocked b x y to r now) = br_config b"
  by (simp add: transitionLocked_def Let_def)

lemma Allow_refines:
  "snd (breaker_Allow oor b d c now) = snd (entry_allow oor (br_config b) (br_get b d c) now)"
  "br_get (fst (breaker_Allow oor b d c now)) d' c' =
     (if tuple_key d' c' = tuple_key d c
      then fst (entry_allow oor (br_config b) (br_get b d c) now) else br_get b d' c')"
  "br_config (fst (breaker_Allow oor b d c now)) = br_config b"
  by (simp_all add: breaker_Allow_def entry_allow_def openNow_def Let_def br_get_put br_get_transition)

lemma Record_refines:
  "br_get (breaker_Record b d c ok now) d' c' =
     (if tuple_key d' c' = tuple_key d c
      then entry_record (br_config b) (br_get b d c) ok now else br_get b d' c')"
  "br_config (breaker_Record b d c ok now) = br_config b"
  by (simp_all add: breaker_Record_def entry_record_def trips_def Let_def br_get_put)

lemma Open_refines:
  "snd (breaker_Open oor b d c now) = openNow oor (br_config b) (br_get b d c) now"
  "br_get (fst (breaker_Open oor b d c now)) d' c' = br_get b d' c'"
  "br_config (fst (breaker_Open oor b d c now)) = br_config b"
  by (auto simp: breaker_Open_def Let_def br_get_put intro: br_get_key [symmetric])

lemma Reset_refines:
  "br_get (breaker_Reset b d c now) d' c' =
     (if tuple_key d' c' = tuple_key d c then new_entry else br_get b d' c')"
  "br_config (breaker_Reset b d c now) = br_config b"
  by (simp_all add: breaker_Reset_def Let_def notify_def br_get_def split: option.splits)

lemmas breaker_refines = Allow_refines Record_refines Open_refines Reset_refines

subsection \<open>Sequences of events on one tuple\<close>

datatype circ_event = EvAllow | EvOpen | EvRecord bool

text \<open>The breaker after the events, with what every \<^const>\<open>EvAllow\<close> answered.\<close>

fun tuple_run ::
  "(f64 \<Rightarrow> int) \<Rightarrow> breaker \<Rightarrow> string \<Rightarrow> string \<Rightarrow> (circ_event \<times> gotime) list \<Rightarrow> breaker \<times> bool list" where
  "tuple_run oor b d c [] = (b, [])"
| "tuple_run oor b d c ((EvAllow, t) # es) =
     (let r = breaker_Allow oor b d c t; q = tuple_run oor (fst r) d c es in (fst q, snd r # snd q))"
| "tuple_run oor b d c ((EvOpen, t) # es) = tuple_run oor (fst (breaker_Open oor b d c t)) d c es"
| "tuple_run oor b d c ((EvRecord ok, t) # es) = tuple_run oor (breaker_Record b d c ok t) d c es"

definition no_record :: "(circ_event \<times> gotime) list \<Rightarrow> bool" where
  "no_record es = list_all (\<lambda>(e, t). case e of EvRecord _ \<Rightarrow> False | _ \<Rightarrow> True) es"

lemma no_record_simps [simp]:
  "no_record []" "no_record ((EvAllow, t) # es) = no_record es"
  "no_record ((EvOpen, t) # es) = no_record es" "\<not> no_record ((EvRecord ok, t) # es)"
  by (simp_all add: no_record_def)

lemma tuple_run_probe_taken:
  assumes "e_state (br_get b d c) \<notin> {StateClosed, StateOpen}" and "e_probeTaken (br_get b d c)"
    and "no_record es"
  shows "br_get (fst (tuple_run oor b d c es)) d c = br_get b d c \<and>
         set (snd (tuple_run oor b d c es)) \<subseteq> {False}"
  using assms
proof (induction oor b d c es rule: tuple_run.induct)
  case (2 oor b d c t es)
  have "br_get (fst (breaker_Allow oor b d c t)) d c = br_get b d c"
    and "\<not> snd (breaker_Allow oor b d c t)"
    using "2.prems" by (auto simp: breaker_refines entry_allow_def)
  with 2 show ?case by (auto simp: Let_def)
qed (simp_all add: breaker_refines)

lemma tuple_run_in_cooldown:
  assumes "e_state (br_get b d c) = StateOpen"
    and "\<forall>(e, t) \<in> set es. openNow oor (br_config b) (br_get b d c) t"
  shows "br_get (fst (tuple_run oor b d c es)) d c = br_get b d c \<and>
         set (snd (tuple_run oor b d c es)) \<subseteq> {False}"
  using assms
proof (induction oor b d c es rule: tuple_run.induct)
  case (2 oor b d c t es)
  have "br_get (fst (breaker_Allow oor b d c t)) d c = br_get b d c"
    and "\<not> snd (breaker_Allow oor b d c t)"
    using "2.prems" by (auto simp: breaker_refines entry_allow_def)
  with 2 show ?case by (auto simp: Let_def Allow_refines(3))
next
  case (4 oor b d c ok t es)
  have "br_get (breaker_Record b d c ok t) d c = br_get b d c"
    using "4.prems" by (simp add: breaker_refines entry_record_def)
  with 4 show ?case by (simp add: breaker_refines)
qed (simp_all add: breaker_refines)

lemma tuple_run_one_probe:
  assumes "e_state (br_get b d c) \<noteq> StateClosed" and "no_record es"
  shows "count_list (snd (tuple_run oor b d c es)) True \<le> 1"
  using assms
proof (induction oor b d c es rule: tuple_run.induct)
  case (2 oor b d c t es)
  let ?b = "fst (breaker_Allow oor b d c t)"
  show ?case
  proof (cases "snd (breaker_Allow oor b d c t)")
    case True
    then have "e_state (br_get ?b d c) \<notin> {StateClosed, StateOpen}" and "e_probeTaken (br_get ?b d c)"
      using "2.prems" by (auto simp: breaker_refines entry_allow_def split: if_splits)
    with "2.prems" have "set (snd (tuple_run oor ?b d c es)) \<subseteq> {False}"
      by (intro tuple_run_probe_taken [THEN conjunct2]) auto
    then have "count_list (snd (tuple_run oor ?b d c es)) True = 0"
      by (auto simp: count_list_0_iff)
    then show ?thesis by (simp add: Let_def)
  next
    case False
    then have "e_state (br_get ?b d c) \<noteq> StateClosed"
      using "2.prems" by (auto simp: breaker_refines entry_allow_def split: if_splits)
    with 2 False show ?thesis by (simp add: Let_def)
  qed
qed (simp_all add: breaker_refines)

subsection \<open>Reachable breakers\<close>

text \<open>
  Any interleaving of the operations on any tuples, configuration swaps, and restarts that
  rebuild the breaker from its durable facts.
\<close>

inductive circ_step :: "(f64 \<Rightarrow> int) \<Rightarrow> breaker \<Rightarrow> breaker \<Rightarrow> bool" for oor where
  st_allow: "circ_step oor b (fst (breaker_Allow oor b d c t))"
| st_open: "circ_step oor b (fst (breaker_Open oor b d c t))"
| st_record: "circ_step oor b (breaker_Record b d c ok t)"
| st_reset: "circ_step oor b (breaker_Reset b d c t)"
| st_config: "circ_step oor b (SetConfig b cfg)"
| st_restart: "circ_step oor b (breaker_Start (breaker_New cfg (br_store b)))"

inductive circ_reach :: "(f64 \<Rightarrow> int) \<Rightarrow> breaker \<Rightarrow> bool" for oor where
  init: "store = None \<or> store = Some [] \<Longrightarrow> circ_reach oor (breaker_New cfg store)"
| step: "circ_reach oor b \<Longrightarrow> circ_step oor b b' \<Longrightarrow> circ_reach oor b'"

definition counts_ok :: "string \<Rightarrow> int \<Rightarrow> int \<Rightarrow> int \<Rightarrow> bool" where
  "counts_ok st samples failures openCount \<longleftrightarrow>
     st \<in> {StateClosed, StateOpen, StateHalfOpen} \<and> 0 \<le> failures \<and> failures \<le> samples \<and>
     0 \<le> openCount \<and> (st = StateClosed \<longleftrightarrow> openCount = 0)"

definition entry_ok :: "entry \<Rightarrow> bool" where
  "entry_ok e \<longleftrightarrow> counts_ok (e_state e) (e_samples e) (e_failures e) (e_openCount e) \<and>
     (e_probeTaken e \<longrightarrow> e_state e = StateHalfOpen)"

definition fact_ok :: "fact \<Rightarrow> bool" where
  "fact_ok f \<longleftrightarrow> counts_ok (fact_State f) (fact_SampleCount f) (fact_FailureCount f) (fact_OpenCount f)"

definition facts_ok :: "mem_store option \<Rightarrow> bool" where
  "facts_ok so = (case so of None \<Rightarrow> True | Some s \<Rightarrow> \<forall>f \<in> set (map snd s). fact_ok f)"

definition circ_inv :: "breaker \<Rightarrow> bool" where
  "circ_inv b \<longleftrightarrow> (\<forall>d c. entry_ok (br_get b d c)) \<and> facts_ok (br_store b)"

lemma entry_ok_new [simp]: "entry_ok new_entry"
  by (simp add: entry_ok_def counts_ok_def new_entry_def)

lemma entry_ok_allow: "entry_ok e \<Longrightarrow> entry_ok (fst (entry_allow oor cfg e now))"
  by (auto simp: entry_ok_def counts_ok_def entry_allow_def)

lemma entry_ok_record: "entry_ok e \<Longrightarrow> entry_ok (entry_record cfg e ok now)"
  by (auto simp: entry_ok_def counts_ok_def entry_record_def Let_def)

lemma fact_ok_of: "entry_ok e \<Longrightarrow> fact_ok (fact_of d c e)"
  by (simp add: entry_ok_def fact_ok_def fact_of_def)

lemma set_update_subset: "set (map snd (AList.update k v xs)) \<subseteq> insert v (set (map snd xs))"
  by (induction xs) auto

lemma facts_ok_persist:
  assumes "facts_ok (br_store b)" and "entry_ok (br_get b d c)"
  shows "facts_ok (br_store (persistLocked b d c))"
proof (cases "br_store b")
  case None
  then show ?thesis by (simp add: persistLocked_def facts_ok_def)
next
  case (Some s)
  let ?f = "fact_of d c (br_get b d c)"
  have "set (map snd (store_Save s ?f)) \<subseteq> insert ?f (set (map snd s))"
    unfolding store_Save_def by (rule set_update_subset)
  moreover have "\<forall>f \<in> insert ?f (set (map snd s)). fact_ok f"
    using Some assms by (auto simp: facts_ok_def fact_ok_of)
  ultimately have "\<forall>f \<in> set (map snd (store_Save s ?f)). fact_ok f" by blast
  with Some show ?thesis by (simp add: persistLocked_def facts_ok_def)
qed

lemma br_store_simps [simp]:
  "br_store (br_put b d c e) = br_store b" "br_store (notify b t) = br_store b"
  by (simp_all add: br_put_def notify_def)

lemma facts_ok_transition:
  "facts_ok (br_store b) \<Longrightarrow> entry_ok ((br_get b d c)\<lparr>e_state := to\<rparr>) \<Longrightarrow>
   facts_ok (br_store (transitionLocked b d c to r now))"
  by (auto simp: transitionLocked_def Let_def br_get_put intro: facts_ok_persist)

lemma facts_ok_notifyLocked:
  "facts_ok (br_store b) \<Longrightarrow> entry_ok (br_get b d c) \<Longrightarrow>
   facts_ok (br_store (notifyLocked b d c f to r now))"
  by (simp add: notifyLocked_def facts_ok_persist)

lemma facts_ok_Allow:
  "circ_inv b \<Longrightarrow> facts_ok (br_store (fst (breaker_Allow oor b d c now)))"
  by (auto simp: breaker_Allow_def circ_inv_def Let_def br_get_put entry_ok_def counts_ok_def
      intro!: facts_ok_transition)

lemma facts_ok_Record:
  assumes inv: "circ_inv b"
  shows "facts_ok (br_store (breaker_Record b d c ok now))"
proof -
  have e: "entry_ok (br_get b d c)" and f: "facts_ok (br_store b)"
    using inv by (auto simp: circ_inv_def)
  from entry_ok_record [OF e] have r: "entry_ok (entry_record (br_config b) (br_get b d c) ok now)" .
  show ?thesis
    using e f r unfolding breaker_Record_def entry_record_def trips_def Let_def
    by (auto simp: br_get_put intro!: facts_ok_notifyLocked split: if_splits)
qed

lemma facts_ok_Reset: "facts_ok (br_store b) \<Longrightarrow> facts_ok (br_store (breaker_Reset b d c now))"
  by (auto simp: breaker_Reset_def Let_def facts_ok_def store_Delete_def AList.delete_eq split: option.splits)

lemma load_fact_get:
  "br_get (load_fact b f) d c =
     (if tuple_key d c = tuple_key (fact_DeploymentID f) (fact_CredentialID f)
      then (br_get b (fact_DeploymentID f) (fact_CredentialID f))
             \<lparr>e_state := fact_State f, e_samples := fact_SampleCount f,
              e_failures := fact_FailureCount f, e_openCount := fact_OpenCount f,
              e_openedAt := of_unix_milli (fact_OpenedAtMS f),
              e_lastProbeAt := of_unix_milli (fact_LastProbeAtMS f)\<rparr>
      else br_get b d c)"
  by (simp add: load_fact_def Let_def br_get_put)

lemma foldl_load_ok:
  assumes "\<forall>f \<in> set fs. fact_ok f" and "\<forall>d c. entry_ok (br_get b d c) \<and> \<not> e_probeTaken (br_get b d c)"
  shows "\<forall>d c. entry_ok (br_get (foldl load_fact b fs) d c) \<and> \<not> e_probeTaken (br_get (foldl load_fact b fs) d c)"
  using assms
proof (induction fs arbitrary: b)
  case (Cons f fs)
  have "\<forall>d c. entry_ok (br_get (load_fact b f) d c) \<and> \<not> e_probeTaken (br_get (load_fact b f) d c)"
    using Cons.prems by (auto simp: load_fact_get entry_ok_def fact_ok_def)
  with Cons show ?case by simp
qed simp

lemma br_store_load [simp]: "br_store (foldl load_fact b fs) = br_store b"
  by (induction fs arbitrary: b) (simp_all add: load_fact_def Let_def)

lemma circ_inv_restart:
  assumes "circ_inv b"
  shows "circ_inv (breaker_Start (breaker_New cfg (br_store b)))"
proof -
  let ?n = "breaker_New cfg (br_store b)"
  have g: "br_get ?n d c = new_entry" for d c by (simp add: br_get_def breaker_New_def)
  have n: "\<not> e_probeTaken new_entry" by (simp add: new_entry_def)
  show ?thesis
  proof (cases "br_store b")
    case None
    then show ?thesis
      by (simp add: circ_inv_def breaker_Start_def breaker_New_def br_get_def facts_ok_def)
  next
    case (Some s)
    then have "\<forall>f \<in> set (store_Load s). fact_ok f"
      using assms by (simp add: circ_inv_def facts_ok_def store_Load_def)
    from foldl_load_ok [OF this, of ?n] g n Some assms show ?thesis
      by (simp add: circ_inv_def breaker_Start_def breaker_New_def)
  qed
qed

lemma circ_inv_step: "circ_step oor b b' \<Longrightarrow> circ_inv b \<Longrightarrow> circ_inv b'"
proof (induction rule: circ_step.induct)
  case (st_allow b d c t)
  then show ?case using facts_ok_Allow by (auto simp: circ_inv_def breaker_refines entry_ok_allow)
next
  case (st_open b d c t)
  then show ?case by (simp add: circ_inv_def breaker_refines) (simp add: breaker_Open_def Let_def)
next
  case (st_record b d c ok t)
  then show ?case using facts_ok_Record by (auto simp: circ_inv_def breaker_refines entry_ok_record)
next
  case (st_reset b d c t)
  then show ?case by (auto simp: circ_inv_def breaker_refines facts_ok_Reset)
next
  case (st_config b cfg)
  then show ?case by (simp add: circ_inv_def SetConfig_def br_get_def)
next
  case (st_restart b cfg)
  then show ?case by (rule circ_inv_restart)
qed

lemma circ_inv_reach: "circ_reach oor b \<Longrightarrow> circ_inv b"
proof (induction rule: circ_reach.induct)
  case (init store cfg)
  then show ?case by (auto simp: circ_inv_def breaker_New_def br_get_def facts_ok_def)
next
  case (step b b')
  then show ?case by (blast intro: circ_inv_step)
qed

subsection \<open>Cooldown arithmetic\<close>

lemma cooldown_bounds:
  assumes "0 < cfg_Cooldown cfg" and "cfg_Cooldown cfg \<le> cfg_MaxCooldown cfg"
  shows "0 < cooldown oor cfg n \<and> cooldown oor cfg n \<le> cfg_MaxCooldown cfg"
  using assms by (auto simp: cooldown_def Let_def)

abbreviation default_escalation :: "(f64 \<Rightarrow> int) \<Rightarrow> int \<Rightarrow> int" where
  "default_escalation oor \<equiv> (\<lambda>c. f_to_i64 oor (fmul (f_of_int c) 2))"

lemma double_exact:
  assumes "n * 2 ^ k < 2 ^ 63" and "0 \<le> n" and "n \<le> 2 ^ 53"
  shows "default_escalation oor (n * 2 ^ k) =
         (if n * 2 ^ Suc k < 2 ^ 63 then n * 2 ^ Suc k else oor (of_int (n * 2 ^ Suc k)))"
proof -
  have r: "fl (of_int n * 2 powi int j) = of_int n * 2 powi int j" for j
    using assms by (intro fl_repr) auto
  have "f_of_int (n * 2 ^ k) = of_int (n * 2 ^ k)"
    using r [of k] by (simp add: f_of_int_def power_int_of_nat)
  moreover have "fmul (of_int (n * 2 ^ k)) 2 = of_int (n * 2 ^ Suc k)"
    using r [of "Suc k"] by (simp add: fmul_def power_int_of_nat mult_ac del: of_nat_Suc)
  ultimately have "default_escalation oor (n * 2 ^ k) = f_to_i64 oor (of_int (n * 2 ^ Suc k))"
    by simp
  moreover have "0 \<le> n * 2 ^ Suc k" using assms by simp
  then have "in_i64 (n * 2 ^ Suc k) \<longleftrightarrow> n * 2 ^ Suc k < 2 ^ 63" unfolding in_i64_def by linarith
  ultimately show ?thesis by (simp only: f_to_i64_of_int)
qed

lemma escalation_exact:
  "k \<le> 28 \<Longrightarrow> (default_escalation oor ^^ k) (30 * second) = 30 * second * 2 ^ k"
proof (induction k)
  case (Suc k)
  have "(2::int) ^ Suc k \<le> 2 ^ 28" using Suc.prems by (intro power_increasing) auto
  then have "30 * second * 2 ^ Suc k < 2 ^ 63" by simp
  with Suc double_exact [of "30 * second" k oor] show ?case by simp
qed simp

lemma escalation_overflow:
  assumes stable: "default_escalation oor (oor (of_int (30 * second * 2 ^ 29))) = oor (of_int (30 * second * 2 ^ 29))"
  shows "29 \<le> k \<Longrightarrow> (default_escalation oor ^^ k) (30 * second) = oor (of_int (30 * second * 2 ^ 29))"
proof (induction k rule: dec_induct)
  case base
  have n29: "(29::nat) = Suc 28" by simp
  have "(default_escalation oor ^^ 29) (30 * second) = default_escalation oor (30 * second * 2 ^ 28)"
    unfolding n29 by (simp only: funpow.simps comp_apply escalation_exact)
  also have "\<dots> = oor (of_int (30 * second * 2 ^ 29))"
    using double_exact [of "30 * second" 28 oor] by simp
  finally show ?case .
next
  case (step k)
  then show ?case using stable by simp
qed

lemma default_cooldown_unfold:
  "1 \<le> n \<Longrightarrow> cooldown oor DefaultConfig n =
     (let c = (default_escalation oor ^^ nat (n - 1)) (30 * second);
          c = (if 10 * minute < c then 10 * minute else c)
      in if c \<le> 0 then 30 * second else c)"
  by (simp add: cooldown_def DefaultConfig_def Let_def)

lemma default_cooldown_exact:
  assumes "1 \<le> n" and "n \<le> 29"
  shows "cooldown oor DefaultConfig n = min (30 * second * 2 ^ nat (n - 1)) (10 * minute)"
proof -
  have "nat (n - 1) \<le> 28" using assms by simp
  then have "(default_escalation oor ^^ nat (n - 1)) (30 * second) = 30 * second * 2 ^ nat (n - 1)"
    by (rule escalation_exact)
  then show ?thesis using assms by (simp add: default_cooldown_unfold min_def)
qed

lemma neg_double:
  "default_escalation oor_amd64 (- (2 ^ 63)) = - (2 ^ 63)"
proof -
  have "fl (of_int (- 1) * 2 powi 63) = of_int (- 1) * 2 powi 63"
    and "fl (of_int (- 1) * 2 powi 64) = of_int (- 1) * 2 powi 64"
    by (rule fl_repr; simp)+
  then have "f_of_int (- (2 ^ 63)) = of_int (- (2 ^ 63))" and "fmul (of_int (- (2 ^ 63))) 2 = of_int (- (2 ^ 64))"
    by (simp_all add: f_of_int_def fmul_def)
  then have "default_escalation oor_amd64 (- (2 ^ 63)) = f_to_i64 oor_amd64 (of_int (- (2 ^ 64)))"
    by simp
  also have "\<dots> = - (2 ^ 63)"
    unfolding f_to_i64_def f_trunc_of_int oor_amd64_def by (simp add: in_i64_def)
  finally show ?thesis .
qed

subsection \<open>Restart\<close>

text \<open>A store holds one fact per tuple, under that tuple's key, with separator-free deployments.\<close>

definition store_wf :: "mem_store \<Rightarrow> bool" where
  "store_wf s \<longleftrightarrow> keys_distinct s \<and>
     (\<forall>(k, f) \<in> set s. k = (fact_DeploymentID f, fact_CredentialID f) \<and> colon_free (fact_DeploymentID f))"

lemma set_update_cases: "x \<in> set (AList.update k v xs) \<Longrightarrow> x = (k, v) \<or> x \<in> set xs"
  by (induction xs) (auto split: if_splits)

lemma store_wf_Save:
  "store_wf s \<Longrightarrow> colon_free (fact_DeploymentID f) \<Longrightarrow> store_wf (store_Save s f)"
  by (auto simp: store_wf_def store_Save_def dest!: set_update_cases)

lemma store_wf_Delete: "store_wf s \<Longrightarrow> store_wf (store_Delete s k)"
  by (auto simp: store_wf_def store_Delete_def AList.delete_eq)

lemma foldl_load_get:
  assumes "f \<in> set fs" and "distinct (map (\<lambda>f. tuple_key (fact_DeploymentID f) (fact_CredentialID f)) fs)"
    and "\<forall>g \<in> set fs. \<not> e_probeTaken (br_get b (fact_DeploymentID g) (fact_CredentialID g))"
  shows "br_get (foldl load_fact b fs) (fact_DeploymentID f) (fact_CredentialID f) =
    \<lparr>e_state = fact_State f, e_samples = fact_SampleCount f, e_failures = fact_FailureCount f,
     e_openedAt = of_unix_milli (fact_OpenedAtMS f),
     e_lastProbeAt = of_unix_milli (fact_LastProbeAtMS f), e_probeTaken = False,
     e_openCount = fact_OpenCount f\<rparr>"
  using assms
proof (induction fs arbitrary: b rule: rev_induct)
  case (snoc g fs)
  show ?case
  proof (cases "f = g")
    case True
    have "\<not> e_probeTaken (br_get (foldl load_fact b fs) (fact_DeploymentID g) (fact_CredentialID g))"
    proof -
      have "br_get (foldl load_fact b fs) (fact_DeploymentID g) (fact_CredentialID g) =
            br_get b (fact_DeploymentID g) (fact_CredentialID g)"
        using snoc.prems(2)
      proof (induction fs arbitrary: b)
        case (Cons h hs)
        then have "tuple_key (fact_DeploymentID g) (fact_CredentialID g) \<noteq>
                   tuple_key (fact_DeploymentID h) (fact_CredentialID h)" by auto
        with Cons show ?case by (simp add: load_fact_get)
      qed simp
      with snoc.prems(3) show ?thesis by simp
    qed
    with True show ?thesis
      by (simp add: load_fact_get)
  next
    case False
    with snoc.prems have f: "f \<in> set fs" by simp
    with snoc.prems(2) have "tuple_key (fact_DeploymentID f) (fact_CredentialID f) \<noteq>
         tuple_key (fact_DeploymentID g) (fact_CredentialID g)" by (fastforce simp: image_iff)
    with snoc.IH [OF f] snoc.prems show ?thesis by (simp add: load_fact_get)
  qed
qed simp

lemma store_wf_keys:
  assumes "store_wf s"
  shows "distinct (map (\<lambda>f. tuple_key (fact_DeploymentID f) (fact_CredentialID f)) (store_Load s))"
  using assms
proof (induction s)
  case (Cons x s)
  then have wf: "store_wf s" by (auto simp: store_wf_def keys_distinct_def)
  obtain k f where x: "x = (k, f)" by (cases x)
  have neq: "tuple_key (fact_DeploymentID f) (fact_CredentialID f) \<noteq>
        tuple_key (fact_DeploymentID g) (fact_CredentialID g)" if "(k', g) \<in> set s" for k' g
  proof -
    have "k = (fact_DeploymentID f, fact_CredentialID f)" "k' = (fact_DeploymentID g, fact_CredentialID g)"
      "colon_free (fact_DeploymentID f)" "colon_free (fact_DeploymentID g)" "k \<noteq> k'"
      using Cons.prems x that by (force simp: store_wf_def keys_distinct_def)+
    then show ?thesis by (auto simp: tuple_key_def join_colon_inj)
  qed
  have "tuple_key (fact_DeploymentID f) (fact_CredentialID f) \<notin>
        (\<lambda>f. tuple_key (fact_DeploymentID f) (fact_CredentialID f)) ` snd ` set s"
  proof
    assume "tuple_key (fact_DeploymentID f) (fact_CredentialID f) \<in>
        (\<lambda>f. tuple_key (fact_DeploymentID f) (fact_CredentialID f)) ` snd ` set s"
    then obtain k' g where "(k', g) \<in> set s"
      and "tuple_key (fact_DeploymentID f) (fact_CredentialID f) =
           tuple_key (fact_DeploymentID g) (fact_CredentialID g)" by auto
    with neq show False by blast
  qed
  with Cons.IH [OF wf] x show ?case by (simp add: store_Load_def image_comp comp_def)
qed (simp add: store_Load_def)

lemma restart_entry:
  assumes "br_store b = Some s" and "store_wf s" and "map_of s (d, c) = Some f"
  shows "br_get (breaker_Start (breaker_New cfg (br_store b))) d c =
    \<lparr>e_state = fact_State f, e_samples = fact_SampleCount f, e_failures = fact_FailureCount f,
     e_openedAt = of_unix_milli (fact_OpenedAtMS f),
     e_lastProbeAt = of_unix_milli (fact_LastProbeAtMS f), e_probeTaken = False,
     e_openCount = fact_OpenCount f\<rparr>"
proof -
  have mem: "((d, c), f) \<in> set s" using assms(3) by (rule map_of_SomeD)
  with assms(2) have k: "d = fact_DeploymentID f" "c = fact_CredentialID f"
    by (auto simp: store_wf_def)
  have "f \<in> set (store_Load s)" using mem by (force simp: store_Load_def)
  from foldl_load_get [OF this store_wf_keys [OF assms(2)], of "breaker_New cfg (Some s)"] show ?thesis
    using assms(1) k by (simp add: breaker_Start_def breaker_New_def br_get_def new_entry_def)
qed

lemma openNow_earlier:
  assumes "e_state e' = e_state e" and "e_openCount e' = e_openCount e" and "e_openedAt e' \<le> e_openedAt e"
    and "openNow oor cfg e' t"
  shows "openNow oor cfg e t"
  using assms t_sub_mono [of t t "e_openedAt e'" "e_openedAt e"]
  by (auto simp: openNow_def split: if_splits)

lemma br_store_notifyLocked:
  "br_store b = Some s \<Longrightarrow>
   br_store (notifyLocked b d c f to r now) = Some (store_Save s (fact_of d c (br_get b d c)))"
  by (simp add: notifyLocked_def persistLocked_def)

lemma Record_persists:
  assumes "br_store b = Some s" and "e_state (br_get (breaker_Record b d c ok now) d c) \<noteq> e_state (br_get b d c)"
  shows "br_store (breaker_Record b d c ok now) =
         Some (store_Save s (fact_of d c (br_get (breaker_Record b d c ok now) d c)))"
  using assms
  by (auto simp: breaker_Record_def Let_def br_get_put br_store_notifyLocked split: if_splits)

lemma tuple_run_length:
  "length (snd (tuple_run oor b d c es)) = length (filter (\<lambda>(e, t). e = EvAllow) es)"
  by (induction oor b d c es rule: tuple_run.induct) (simp_all add: Let_def)

lemma all_False_replicate: "set xs \<subseteq> {False} \<Longrightarrow> xs = replicate (length xs) False"
  by (induction xs) auto

subsection \<open>Properties\<close>

text \<open>C5: Once the cooldown of an open tuple has elapsed, the first \<^verbatim>\<open>Allow\<close> is admitted as the
  half-open probe, and until its outcome is recorded every further \<^verbatim>\<open>Allow\<close>, at any time and in
  any interleaving with \<^verbatim>\<open>Open\<close> queries, is refused: exactly one probe per half-open window.
  The same fact shows that a probe whose outcome is never recorded blocks the tuple for good.\<close>

theorem half_open_probe_exclusive:
  assumes "e_state (br_get b d c) = StateOpen"
    and "\<not> openNow oor (br_config b) (br_get b d c) t0"
    and "no_record es"
  shows "snd (tuple_run oor b d c ((EvAllow, t0) # es)) =
           True # replicate (length (filter (\<lambda>(e, t). e = EvAllow) es)) False
         \<and> e_state (br_get (fst (tuple_run oor b d c ((EvAllow, t0) # es))) d c) = StateHalfOpen"
proof -
  let ?b = "fst (breaker_Allow oor b d c t0)"
  have ok: "snd (breaker_Allow oor b d c t0)" and s: "e_state (br_get ?b d c) = StateHalfOpen"
    and p: "e_probeTaken (br_get ?b d c)"
    using assms(1,2) by (simp_all add: Allow_refines entry_allow_def)
  from s p assms(3) have r: "br_get (fst (tuple_run oor ?b d c es)) d c = br_get ?b d c \<and>
      set (snd (tuple_run oor ?b d c es)) \<subseteq> {False}"
    by (intro tuple_run_probe_taken) auto
  then have "snd (tuple_run oor ?b d c es) = replicate (length (filter (\<lambda>(e, t). e = EvAllow) es)) False"
    using all_False_replicate tuple_run_length by metis
  with ok s r show ?thesis by (simp add: Let_def)
qed

definition open_example :: breaker where
  "open_example = br_put (breaker_New DefaultConfig (Some [])) ''d'' ''c''
     (new_entry\<lparr>e_state := StateOpen, e_openCount := 1, e_openedAt := 0\<rparr>)"

lemma open_example_simps:
  "br_get open_example ''d'' ''c'' = new_entry\<lparr>e_state := StateOpen, e_openCount := 1, e_openedAt := 0\<rparr>"
  "br_config open_example = DefaultConfig" "br_store open_example = Some []"
  by (simp_all add: open_example_def br_get_def breaker_New_def br_put_def)

lemma open_example_openNow:
  "openNow oor DefaultConfig (br_get open_example ''d'' ''c'') t \<longleftrightarrow> t < 30 * second"
proof -
  have "cooldown oor DefaultConfig 1 = 30 * second"
    by (subst default_cooldown_exact) simp_all
  then show ?thesis by (simp add: open_example_simps openNow_def t_sub_def min_def max_def)
qed

theorem half_open_probe_exclusive_witness:
  "snd (tuple_run oor_amd64 open_example ''d'' ''c''
     [(EvAllow, 30 * second), (EvAllow, 31 * second), (EvOpen, 32 * second), (EvAllow, 1000 * hour)])
   = [True, False, False]"
proof -
  have "e_state (br_get open_example ''d'' ''c'') = StateOpen"
    and "\<not> openNow oor_amd64 (br_config open_example) (br_get open_example ''d'' ''c'') (30 * second)"
    by (simp add: open_example_simps) (simp add: open_example_simps(2) open_example_openNow)
  moreover have "no_record [(EvAllow, 31 * second), (EvOpen, 32 * second), (EvAllow, 1000 * hour)]"
    by simp
  ultimately have r: "snd (tuple_run oor_amd64 open_example ''d'' ''c'' ((EvAllow, 30 * second) #
      [(EvAllow, 31 * second), (EvOpen, 32 * second), (EvAllow, 1000 * hour)])) =
      True # replicate (length (filter (\<lambda>(e, t). e = EvAllow)
        [(EvAllow, 31 * second), (EvOpen, 32 * second), (EvAllow, 1000 * hour)])) False"
    by (rule half_open_probe_exclusive [THEN conjunct1])
  have n: "length (filter (\<lambda>(e, t). e = EvAllow)
      [(EvAllow, 31 * second), (EvOpen, 32 * second), (EvAllow, 1000 * hour)]) = Suc (Suc 0)"
    by simp
  show ?thesis using r unfolding n replicate.simps .
qed

text \<open>C13: While an open tuple's cooldown runs, no sequence of \<^verbatim>\<open>Allow\<close>, \<^verbatim>\<open>Open\<close> and late
  \<^verbatim>\<open>Record\<close> calls admits an attempt or changes the entry: the breaker fails fast for the whole
  cooldown, and stragglers that finish meanwhile do not move it.\<close>

theorem open_fails_fast:
  assumes "e_state (br_get b d c) = StateOpen"
    and "\<forall>(e, t) \<in> set es. t_sub t (e_openedAt (br_get b d c)) < cooldown oor (br_config b) (e_openCount (br_get b d c))"
  shows "True \<notin> set (snd (tuple_run oor b d c es))
         \<and> br_get (fst (tuple_run oor b d c es)) d c = br_get b d c"
  using tuple_run_in_cooldown [of b d c es oor] assms by (auto simp: openNow_def)

theorem open_fails_fast_witness:
  "True \<notin> set (snd (tuple_run oor_amd64 open_example ''d'' ''c''
     [(EvAllow, 1 * second), (EvRecord True, 2 * second), (EvAllow, 29 * second)]))"
proof -
  have c: "cooldown oor_amd64 DefaultConfig 1 = 30 * second"
    by (subst default_cooldown_exact) simp_all
  have "e_state (br_get open_example ''d'' ''c'') = StateOpen"
    by (simp add: open_example_simps)
  moreover have "\<forall>(e, t) \<in> set [(EvAllow, 1 * second), (EvRecord True, 2 * second), (EvAllow, 29 * second)].
     t_sub t (e_openedAt (br_get open_example ''d'' ''c'')) <
     cooldown oor_amd64 (br_config open_example) (e_openCount (br_get open_example ''d'' ''c''))"
    by (simp add: open_example_simps c t_sub_def min_def max_def)
  ultimately show ?thesis by (rule open_fails_fast [THEN conjunct1])
qed

text \<open>C14: In every breaker reachable through any interleaving of operations on any tuples,
  configuration swaps and restarts from the durable facts, each entry is closed, open or
  half-open, counts at most as many failures as samples, holds a probe only while half-open,
  and carries a reopening count exactly when it is not closed; the stored facts are as good.\<close>

theorem breaker_reachable_invariant:
  assumes "circ_reach oor b"
  shows "entry_ok (br_get b d c) \<and> facts_ok (br_store b)"
  using circ_inv_reach [OF assms] by (simp add: circ_inv_def)

theorem breaker_reachable_invariant_witness:
  "entry_ok (br_get (breaker_Record (breaker_New DefaultConfig (Some [])) ''d'' ''c'' False 0) ''d'' ''c'')"
proof -
  have "circ_reach oor_amd64 (breaker_Record (breaker_New DefaultConfig (Some [])) ''d'' ''c'' False 0)"
    by (rule circ_reach.step [OF circ_reach.init st_record]) simp
  then show ?thesis by (rule breaker_reachable_invariant [THEN conjunct1])
qed

text \<open>C15: The cooldown after \<open>n\<close> consecutive openings under the default configuration is
  30 s doubled \<open>n - 1\<close> times and capped at 10 minutes, on every platform and with the code's
  floating-point arithmetic, for up to 29 openings.\<close>

theorem default_cooldown_escalates:
  assumes "1 \<le> n" and "n \<le> 29"
  shows "cooldown oor DefaultConfig n = min (30 * second * 2 ^ nat (n - 1)) (10 * minute)"
  using assms by (rule default_cooldown_exact)

theorem default_cooldown_escalates_witness:
  "cooldown oor_amd64 DefaultConfig 3 = 2 * minute \<and> cooldown oor_amd64 DefaultConfig 20 = 10 * minute"
  using default_cooldown_escalates [of 3 oor_amd64] default_cooldown_escalates [of 20 oor_amd64] by simp

text \<open>C16: From the 30th consecutive opening on, the intermediate product leaves the range of
  \<^verbatim>\<open>time.Duration\<close>. Where the out-of-range conversion yields the least integer (amd64) the
  escalation is lost and the cooldown falls back to the initial 30 s for good, below the
  10 minutes the 29th opening had.\<close>

theorem default_cooldown_collapses:
  assumes "30 \<le> n"
  shows "cooldown oor_amd64 DefaultConfig n = 30 * second"
proof -
  have "default_escalation oor_amd64 (oor_amd64 (of_int (30 * second * 2 ^ 29))) =
        oor_amd64 (of_int (30 * second * 2 ^ 29))"
    using neg_double by (simp add: oor_amd64_def)
  from escalation_overflow [OF this, of "nat (n - 1)"] assms
  have "(default_escalation oor_amd64 ^^ nat (n - 1)) (30 * second) = - (2 ^ 63)"
    by (simp add: oor_amd64_def)
  then show ?thesis using assms by (simp add: default_cooldown_unfold)
qed

theorem default_cooldown_collapses_witness:
  "cooldown oor_amd64 DefaultConfig 29 = 10 * minute \<and> cooldown oor_amd64 DefaultConfig 30 = 30 * second"
  using default_cooldown_collapses [of 30] default_cooldown_exact [of 29 oor_amd64] by simp

text \<open>C17: A restart right after a recorded outcome moved a tuple to another state rebuilds
  that tuple from its durable fact with the same state and counters and the opening time
  rounded down to the millisecond, so the restarted breaker never refuses at an instant at
  which the original would have let the attempt through.\<close>

theorem restart_keeps_transition:
  fixes b b' r
  assumes "br_store b = Some s" and "store_wf s" and "colon_free d"
    and "b' = breaker_Record b d c ok now"
    and "e_state (br_get b' d c) \<noteq> e_state (br_get b d c)"
    and "r = breaker_Start (breaker_New cfg (br_store b'))"
  shows "e_state (br_get r d c) = e_state (br_get b' d c)
       \<and> e_samples (br_get r d c) = e_samples (br_get b' d c)
       \<and> e_failures (br_get r d c) = e_failures (br_get b' d c)
       \<and> e_openCount (br_get r d c) = e_openCount (br_get b' d c)
       \<and> e_openedAt (br_get r d c) \<le> e_openedAt (br_get b' d c)
       \<and> e_openedAt (br_get b' d c) < e_openedAt (br_get r d c) + millisecond
       \<and> (\<forall>t. openNow oor cfg (br_get r d c) t \<longrightarrow> openNow oor cfg (br_get b' d c) t)"
proof -
  let ?f = "fact_of d c (br_get b' d c)"
  have st: "br_store b' = Some (store_Save s ?f)"
    using Record_persists [OF assms(1), of d c ok now] assms(4,5) by simp
  have wf: "store_wf (store_Save s ?f)"
    using assms(2,3) by (intro store_wf_Save) (simp_all add: fact_of_def)
  have m: "map_of (store_Save s ?f) (d, c) = Some ?f"
    by (simp add: store_Save_def fact_of_def update_conv)
  note e = restart_entry [OF st wf m, of cfg, folded assms(6)]
  have o: "e_openedAt (br_get r d c) \<le> e_openedAt (br_get b' d c)
         \<and> e_openedAt (br_get b' d c) < e_openedAt (br_get r d c) + millisecond"
    using unix_milli_round [of "e_openedAt (br_get b' d c)"] by (simp add: e fact_of_def)
  have s: "e_state (br_get r d c) = e_state (br_get b' d c)"
    and n: "e_openCount (br_get r d c) = e_openCount (br_get b' d c)"
    and m: "e_samples (br_get r d c) = e_samples (br_get b' d c)"
    and f: "e_failures (br_get r d c) = e_failures (br_get b' d c)"
    by (simp_all add: e fact_of_def)
  from o s n m f openNow_earlier [OF s n o [THEN conjunct1]] show ?thesis by blast
qed

definition restart_before :: breaker where
  "restart_before = breaker_New (DefaultConfig\<lparr>cfg_MinSamples := 1\<rparr>) (Some [])"

definition restart_after :: breaker where
  "restart_after = breaker_Record restart_before ''d'' ''c'' False 1234567"

lemma restart_example:
  "br_get restart_before ''d'' ''c'' = new_entry" "br_store restart_before = Some []"
  "e_state (br_get restart_after ''d'' ''c'') = StateOpen"
  "e_openedAt (br_get restart_after ''d'' ''c'') = 1234567"
proof -
  show g: "br_get restart_before ''d'' ''c'' = new_entry" "br_store restart_before = Some []"
    by (simp_all add: restart_before_def br_get_def breaker_New_def)
  have one: "f_of_int 1 = 1" using f_of_int_exact [of 1] by simp
  have t: "trips (br_config restart_before) 1 1"
    by (simp add: restart_before_def trips_def breaker_New_def DefaultConfig_def one fdiv_def f64.rnd_one)
  have e: "br_get restart_after ''d'' ''c'' = new_entry\<lparr>e_samples := 1, e_failures := 1,
      e_openCount := 1, e_openedAt := 1234567, e_probeTaken := False, e_state := StateOpen\<rparr>"
    using t by (simp add: restart_after_def Record_refines entry_record_def g new_entry_def Let_def)
  show "e_state (br_get restart_after ''d'' ''c'') = StateOpen"
    and "e_openedAt (br_get restart_after ''d'' ''c'') = 1234567"
    by (simp_all add: e)
qed

theorem restart_keeps_transition_witness:
  "e_state (br_get (breaker_Start (breaker_New DefaultConfig (br_store restart_after))) ''d'' ''c'') = StateOpen
   \<and> e_openedAt (br_get (breaker_Start (breaker_New DefaultConfig (br_store restart_after))) ''d'' ''c'') \<le> 1234567"
proof -
  have "store_wf []" and "colon_free ''d''" by (simp_all add: store_wf_def colon_free_def)
  moreover have "e_state (br_get restart_after ''d'' ''c'') \<noteq> e_state (br_get restart_before ''d'' ''c'')"
    by (simp only: restart_example) (simp add: new_entry_def)
  ultimately show ?thesis
    using restart_keeps_transition [OF restart_example(2) _ _ restart_after_def _ refl,
        where cfg = DefaultConfig and oor = oor_amd64]
    by (simp only: restart_example) simp
qed

end
