(* ===== verification/Execution.thy ===== *)
theory Execution
  imports Routing Circuit
begin

text \<open>
  Execution of a route plan, \<^verbatim>\<open>internal/gateway/execution/executor.go\<close>, with the retry policy of
  \<^verbatim>\<open>internal/resilience/retry/policy.go\<close>. The executor talks to a breaker, a lease gate, an
  in-flight counter, an invoker and a sleeper. Each of these calls is an event; the history of
  events is threaded through the loops, and the answers of the other parties are functions of
  the history, so every behaviour they can show over time, deadlines included, is an instance.
\<close>

subsection \<open>Retry policy\<close>

record retry_policy =
  rt_MaxAttemptsPerDeployment :: int
  rt_MaxTotalCalls :: int
  rt_AttemptTimeout :: duration
  rt_TotalTimeout :: duration
  rt_StreamTotalTimeout :: duration
  rt_StreamIdleTimeout :: duration
  rt_FirstTokenTimeout :: duration
  rt_ProviderTimeout :: duration
  rt_BaseBackoff :: duration
  rt_MaxBackoff :: duration

definition DefaultPolicy :: retry_policy where
  "DefaultPolicy = \<lparr>rt_MaxAttemptsPerDeployment = 2, rt_MaxTotalCalls = 4, rt_AttemptTimeout = 120 * second,
     rt_TotalTimeout = 300 * second, rt_StreamTotalTimeout = 0, rt_StreamIdleTimeout = 60 * second,
     rt_FirstTokenTimeout = 30 * second, rt_ProviderTimeout = 120 * second, rt_BaseBackoff = 200 * millisecond,
     rt_MaxBackoff = 4 * second\<rparr>"

text \<open>\<open>k\<close> is the number of iterations left.\<close>

fun backoff_loop :: "duration \<Rightarrow> nat \<Rightarrow> duration \<Rightarrow> duration" where
  "backoff_loop mx 0 value = value"
| "backoff_loop mx (Suc k) value =
     (let value = i64 (value * 2) in if mx \<le> value then mx else backoff_loop mx k value)"

definition Backoff :: "retry_policy \<Rightarrow> int \<Rightarrow> duration \<Rightarrow> duration" where
  "Backoff p retryNumber jitter =
     (let value = i64 (backoff_loop (rt_MaxBackoff p) (nat (retryNumber - 1)) (rt_BaseBackoff p) + jitter)
      in if rt_MaxBackoff p < value then rt_MaxBackoff p else value)"

subsection \<open>The environment of an execution\<close>

datatype call_error = FirstTokenTimeout duration | InvokeError string

datatype exec_error =
    CallError call_error | LeaseError string | SleepError string
  | LeaseBusy \<comment> \<open>code \<^verbatim>\<open>LEASE_BUSY\<close>\<close>
  | PlanExhausted

datatype exec_event =
    XAllow string string bool
  | XRecord string string bool
  | XAcquire string string string "string + bool \<times> string"
  | XRelease string string
  | XIncr string
  | XDecr string
  | XCall string string "call_error + string" bool \<comment> \<open>deployment, credential, outcome, committed\<close>
  | XSleep duration "string option"

type_synonym history = "exec_event list"

record exec_env =
  xe_policy :: retry_policy
  xe_Resolve :: "deployment \<Rightarrow> bool"
  xe_ResolveCredential :: "(deployment \<Rightarrow> string \<Rightarrow> bool) option"
  xe_Allow :: "(history \<Rightarrow> string \<Rightarrow> string \<Rightarrow> bool) option"
  xe_Acquire :: "(history \<Rightarrow> string \<Rightarrow> string \<Rightarrow> string \<Rightarrow> int \<Rightarrow> duration \<Rightarrow> string + bool \<times> string) option"
  xe_inflight :: bool
  xe_Call :: "history \<Rightarrow> string \<Rightarrow> string \<Rightarrow> (call_error + string) \<times> bool"
  xe_NormalizeError :: "string \<Rightarrow> call_error \<Rightarrow> string \<times> bool"
  xe_jitter :: "history \<Rightarrow> duration"
  xe_Sleep :: "history \<Rightarrow> duration \<Rightarrow> string option"
  xe_pickerFor :: "deployment \<Rightarrow> picker option"

definition WithPolicy :: "exec_env \<Rightarrow> retry_policy \<Rightarrow> exec_env" where
  "WithPolicy e policy = e\<lparr>xe_policy := policy\<rparr>"

record attempt =
  at_DeploymentID :: string
  at_CredentialID :: string
  at_Number :: int
  at_Outcome :: string
  at_Retryable :: bool

definition circuit_Allow :: "exec_env \<Rightarrow> string \<Rightarrow> string \<Rightarrow> history \<Rightarrow> history \<times> bool" where
  "circuit_Allow e d c h =
     (case xe_Allow e of None \<Rightarrow> (h, True) | Some allow \<Rightarrow> (h @ [XAllow d c (allow h d c)], allow h d c))"

definition circuit_Record :: "exec_env \<Rightarrow> string \<Rightarrow> string \<Rightarrow> bool \<Rightarrow> history \<Rightarrow> history" where
  "circuit_Record e d c ok h = (case xe_Allow e of None \<Rightarrow> h | Some _ \<Rightarrow> h @ [XRecord d c ok])"

definition lease_scope :: "tenant_snapshot \<Rightarrow> deployment \<Rightarrow> string" where
  "lease_scope s d = ''{tenant:'' @ ts_TenantID s @ ''}:deployment:'' @ dp_ID d"

text \<open>The result is the scope, the lease and whether the call may proceed.\<close>

definition acquireLease ::
  "exec_env \<Rightarrow> tenant_snapshot \<Rightarrow> deployment \<Rightarrow> string \<Rightarrow> history \<Rightarrow> history \<times> (string + string \<times> string \<times> bool)" where
  "acquireLease e s d cred h =
     (case (xe_Acquire e, snap_Lease s (dp_ID d)) of
        (Some acquire, Some lease) \<Rightarrow>
          if lc_Capacity lease \<le> 0 \<or> lc_TTLSeconds lease \<le> 0 then (h, Inr ('''', '''', True))
          else
            let scope = lease_scope s d;
                r = acquire h scope (dp_ID d) cred (lc_Capacity lease) (i64 (lc_TTLSeconds lease * second));
                h = h @ [XAcquire scope (dp_ID d) cred r]
            in (case r of Inl err \<Rightarrow> (h, Inl err)
                | Inr (ok, leaseID) \<Rightarrow> (h, Inr (if ok then (scope, leaseID, True) else ('''', '''', False))))
      | _ \<Rightarrow> (h, Inr ('''', '''', True)))"

definition releaseLease :: "exec_env \<Rightarrow> string \<Rightarrow> string \<Rightarrow> history \<Rightarrow> history" where
  "releaseLease e scope leaseID h =
     (if xe_Acquire e = None \<or> scope = '''' \<or> leaseID = '''' then h else h @ [XRelease scope leaseID])"

definition inflightScope :: "string \<Rightarrow> string \<Rightarrow> string \<Rightarrow> string" where
  "inflightScope tenantID deploymentID credentialID =
     ''{tenant:'' @ tenantID @ ''}:deployment:'' @ deploymentID @ '':credential:'' @ credentialID"

text \<open>\<^verbatim>\<open>trackInflight\<close> before the call and the function it returns after it.\<close>

definition trackInflight :: "exec_env \<Rightarrow> tenant_snapshot \<Rightarrow> deployment \<Rightarrow> string \<Rightarrow> history \<Rightarrow> history" where
  "trackInflight e s d cred h =
     (if xe_inflight e then h @ [XIncr (inflightScope (ts_TenantID s) (dp_ID d) cred)] else h)"

definition untrackInflight :: "exec_env \<Rightarrow> tenant_snapshot \<Rightarrow> deployment \<Rightarrow> string \<Rightarrow> history \<Rightarrow> history" where
  "untrackInflight e s d cred h =
     (if xe_inflight e then h @ [XDecr (inflightScope (ts_TenantID s) (dp_ID d) cred)] else h)"

definition is_first_token :: "call_error \<Rightarrow> bool" where
  "is_first_token err = (case err of FirstTokenTimeout _ \<Rightarrow> True | InvokeError _ \<Rightarrow> False)"

subsection \<open>The loops\<close>

record run =
  ru_hist :: history
  ru_attempts :: "attempt list"
  ru_last :: "exec_error option"
  ru_leaseBlocked :: bool
  ru_calls :: int

type_synonym outcome = "exec_error + string \<times> string" \<comment> \<open>the error, or the response and the deployment\<close>

text \<open>How one iteration leaves the body of a loop.\<close>

datatype flow = Next run | Break run | Return run outcome

text \<open>One call that holds a lease: count, track, call, release.\<close>

definition leased_call ::
  "exec_env \<Rightarrow> tenant_snapshot \<Rightarrow> deployment \<Rightarrow> string \<Rightarrow> string \<Rightarrow> string \<Rightarrow> run \<Rightarrow> run \<times> (call_error + string) \<times> bool" where
  "leased_call e s d cred scope leaseID r =
     (let h = trackInflight e s d cred (ru_hist r);
          (res, committed) = xe_Call e h (dp_ID d) cred;
          h = h @ [XCall (dp_ID d) cred res committed];
          h = releaseLease e scope leaseID (untrackInflight e s d cred h)
      in (r\<lparr>ru_hist := h, ru_calls := ru_calls r + 1\<rparr>, res, committed))"

definition add_attempt ::
  "exec_env \<Rightarrow> deployment \<Rightarrow> string \<Rightarrow> int \<Rightarrow> string \<Rightarrow> bool \<Rightarrow> bool \<Rightarrow> run \<Rightarrow> run" where
  "add_attempt e d cred number code retryable ok r =
     r\<lparr>ru_attempts := ru_attempts r @ [\<lparr>at_DeploymentID = dp_ID d, at_CredentialID = cred, at_Number = number,
         at_Outcome = code, at_Retryable = retryable\<rparr>],
       ru_hist := circuit_Record e (dp_ID d) cred ok (ru_hist r)\<rparr>"

definition backoff_sleep :: "exec_env \<Rightarrow> int \<Rightarrow> run \<Rightarrow> flow" where
  "backoff_sleep e number r =
     (let duration = Backoff (xe_policy e) number (xe_jitter e (ru_hist r));
          res = xe_Sleep e (ru_hist r) duration;
          r = r\<lparr>ru_hist := ru_hist r @ [XSleep duration res]\<rparr>
      in case res of None \<Rightarrow> Next r | Some err \<Rightarrow> Return r (Inl (SleepError err)))"

text \<open>What a call leads to: success, a failure that ends the request, or another attempt.\<close>

definition plan_result ::
  "exec_env \<Rightarrow> bool \<Rightarrow> deployment \<Rightarrow> int \<Rightarrow> call_error + string \<Rightarrow> bool \<Rightarrow> run \<Rightarrow> flow" where
  "plan_result e stopOnCommitted d number res committed r =
     (let cred = dp_CredentialID d
      in case res of
           Inr response \<Rightarrow> Return (add_attempt e d cred number ''success'' False True r) (Inr (response, dp_ID d))
         | Inl err \<Rightarrow>
             let (code, retryable) = xe_NormalizeError e (dp_ID d) err;
                 ft = is_first_token err;
                 r = r\<lparr>ru_last := Some (CallError err)\<rparr>;
                 r = add_attempt e d cred number (if ft then ''first_token_timeout'' else code) (ft \<or> retryable) False r
             in if ft then Break r
                else if stopOnCommitted \<and> committed \<or> \<not> retryable then Return r (Inl (CallError err))
                else if number < rt_MaxAttemptsPerDeployment (xe_policy e) \<and> ru_calls r < rt_MaxTotalCalls (xe_policy e)
                then backoff_sleep e number r else Next r)"

definition plan_attempt :: "exec_env \<Rightarrow> bool \<Rightarrow> tenant_snapshot \<Rightarrow> deployment \<Rightarrow> int \<Rightarrow> run \<Rightarrow> flow" where
  "plan_attempt e stopOnCommitted s d number r =
     (let cred = dp_CredentialID d; (h, allowed) = circuit_Allow e (dp_ID d) cred (ru_hist r); r = r\<lparr>ru_hist := h\<rparr>
      in if \<not> allowed then Break r
         else
           let (h, lease) = acquireLease e s d cred h; r = r\<lparr>ru_hist := h\<rparr>
           in case lease of
                Inl err \<Rightarrow> Return r (Inl (LeaseError err))
              | Inr (scope, leaseID, leased) \<Rightarrow>
                  if \<not> leased then Break (r\<lparr>ru_leaseBlocked := True\<rparr>)
                  else
                    let (r, res, committed) = leased_call e s d cred scope leaseID r
                    in plan_result e stopOnCommitted d number res committed r)"

function (sequential) plan_attempts ::
  "exec_env \<Rightarrow> bool \<Rightarrow> tenant_snapshot \<Rightarrow> deployment \<Rightarrow> int \<Rightarrow> run \<Rightarrow> run + run \<times> outcome" where
  "plan_attempts e stop s d number r =
     (if number \<le> rt_MaxAttemptsPerDeployment (xe_policy e) \<and> ru_calls r < rt_MaxTotalCalls (xe_policy e)
      then case plan_attempt e stop s d number r of
             Next r \<Rightarrow> plan_attempts e stop s d (number + 1) r
           | Break r \<Rightarrow> Inl r
           | Return r out \<Rightarrow> Inr (r, out)
      else Inl r)"
  by pat_completeness auto
termination
  by (relation "measure (\<lambda>(e, stop, s, d, number, r). nat (rt_MaxAttemptsPerDeployment (xe_policy e) + 1 - number))") auto

declare plan_attempts.simps [simp del]

text \<open>A loop over the fallback chain: each deployment is skipped, tried, or ends the request.\<close>

primrec over_fallback :: "(string \<Rightarrow> run \<Rightarrow> run + run \<times> outcome) \<Rightarrow> string list \<Rightarrow> run \<Rightarrow> run + run \<times> outcome" where
  "over_fallback body [] r = Inl r"
| "over_fallback body (i # ids) r = (case body i r of Inl r \<Rightarrow> over_fallback body ids r | Inr x \<Rightarrow> Inr x)"

definition exhausted :: "run + run \<times> outcome \<Rightarrow> run \<times> outcome" where
  "exhausted x =
     (case x of Inr y \<Rightarrow> y
      | Inl r \<Rightarrow> (r, Inl (case ru_last r of Some err \<Rightarrow> err
                        | None \<Rightarrow> if ru_leaseBlocked r then LeaseBusy else PlanExhausted)))"

definition init_run :: run where
  "init_run = \<lparr>ru_hist = [], ru_attempts = [], ru_last = None, ru_leaseBlocked = False, ru_calls = 0\<rparr>"

definition plan_body :: "exec_env \<Rightarrow> bool \<Rightarrow> tenant_snapshot \<Rightarrow> string \<Rightarrow> run \<Rightarrow> run + run \<times> outcome" where
  "plan_body e stop s i r =
     (case snap_Deployment s i of None \<Rightarrow> Inl r
      | Some d \<Rightarrow> if xe_Resolve e d then plan_attempts e stop s d 1 r else Inl r)"

definition runPlan :: "exec_env \<Rightarrow> bool \<Rightarrow> tenant_snapshot \<Rightarrow> string list \<Rightarrow> run \<times> outcome" where
  "runPlan e stop s fallback = exhausted (over_fallback (plan_body e stop s) fallback init_run)"

definition exec_Execute :: "exec_env \<Rightarrow> tenant_snapshot \<Rightarrow> string list \<Rightarrow> run \<times> outcome" where
  "exec_Execute e s fallback = runPlan e False s fallback"

definition ExecuteStream :: "exec_env \<Rightarrow> tenant_snapshot \<Rightarrow> string list \<Rightarrow> run \<times> outcome" where
  "ExecuteStream e s fallback = runPlan e True s fallback"

subsection \<open>The loop over a credential pool\<close>

definition pool_result :: "exec_env \<Rightarrow> deployment \<Rightarrow> string \<Rightarrow> int \<Rightarrow> call_error + string \<Rightarrow> run \<Rightarrow> flow" where
  "pool_result e d cred number res r =
     (case res of
        Inr response \<Rightarrow> Return (add_attempt e d cred number ''success'' False True r) (Inr (response, dp_ID d))
      | Inl err \<Rightarrow>
          let (code, retryable) = xe_NormalizeError e (dp_ID d) err;
              r = add_attempt e d cred number code retryable False (r\<lparr>ru_last := Some (CallError err)\<rparr>)
          in if \<not> retryable then Return r (Inl (CallError err))
             else if ru_calls r < rt_MaxTotalCalls (xe_policy e) then backoff_sleep e number r else Next r)"

definition pool_attempt ::
  "exec_env \<Rightarrow> (deployment \<Rightarrow> string \<Rightarrow> bool) \<Rightarrow> tenant_snapshot \<Rightarrow> deployment \<Rightarrow> string \<Rightarrow> int \<Rightarrow> run \<Rightarrow> flow" where
  "pool_attempt e resolve s d cred number r =
     (let (h, allowed) = circuit_Allow e (dp_ID d) cred (ru_hist r); r = r\<lparr>ru_hist := h\<rparr>
      in if \<not> allowed then Next r
         else
           let (h, lease) = acquireLease e s d cred h; r = r\<lparr>ru_hist := h\<rparr>
           in case lease of
                Inl err \<Rightarrow> Return r (Inl (LeaseError err))
              | Inr (scope, leaseID, leased) \<Rightarrow>
                  if \<not> leased then Next (r\<lparr>ru_leaseBlocked := True\<rparr>)
                  else if \<not> resolve d cred then Next (r\<lparr>ru_hist := releaseLease e scope leaseID h\<rparr>)
                  else
                    let (r, res, committed) = leased_call e s d cred scope leaseID r
                    in pool_result e d cred number res r)"

function (sequential) pool_attempts ::
  "exec_env \<Rightarrow> (deployment \<Rightarrow> string \<Rightarrow> bool) \<Rightarrow> tenant_snapshot \<Rightarrow> deployment \<Rightarrow> int \<Rightarrow> picker \<Rightarrow> run \<Rightarrow> run + run \<times> outcome" where
  "pool_attempts e resolve s d number pk r =
     (if number \<le> rt_MaxAttemptsPerDeployment (xe_policy e) \<and> ru_calls r < rt_MaxTotalCalls (xe_policy e)
      then case picker_Next pk of
             (pk, Inl _) \<Rightarrow> Inl r
           | (pk, Inr cred) \<Rightarrow>
               (case pool_attempt e resolve s d cred number r of
                  Next r \<Rightarrow> pool_attempts e resolve s d (number + 1) pk r
                | Break r \<Rightarrow> Inl r
                | Return r out \<Rightarrow> Inr (r, out))
      else Inl r)"
  by pat_completeness auto
termination
  by (relation "measure (\<lambda>(e, resolve, s, d, number, pk, r). nat (rt_MaxAttemptsPerDeployment (xe_policy e) + 1 - number))") auto

declare pool_attempts.simps [simp del]

definition pool_body ::
  "exec_env \<Rightarrow> (deployment \<Rightarrow> string \<Rightarrow> bool) \<Rightarrow> tenant_snapshot \<Rightarrow> string \<Rightarrow> run \<Rightarrow> run + run \<times> outcome" where
  "pool_body e resolve s i r =
     (case snap_Deployment s i of None \<Rightarrow> Inl r
      | Some d \<Rightarrow> (case xe_pickerFor e d of None \<Rightarrow> Inl r | Some pk \<Rightarrow> pool_attempts e resolve s d 1 pk r))"

definition ExecuteWithPool :: "exec_env \<Rightarrow> tenant_snapshot \<Rightarrow> string list \<Rightarrow> run \<times> outcome" where
  "ExecuteWithPool e s fallback =
     (case xe_ResolveCredential e of None \<Rightarrow> exec_Execute e s fallback
      | Some resolve \<Rightarrow> exhausted (over_fallback (pool_body e resolve s) fallback init_run))"

subsection \<open>Contracts of an attempt\<close>

text \<open>
  What a loop keeps (\<open>I\<close>) and what a finished request satisfies (\<open>J\<close>). The contract is about one
  attempt; the loops over attempts and over the fallback chain inherit it.
\<close>

definition flow_ok :: "(run \<Rightarrow> bool) \<Rightarrow> (run \<Rightarrow> outcome \<Rightarrow> bool) \<Rightarrow> flow \<Rightarrow> bool" where
  "flow_ok I J f = (case f of Next r \<Rightarrow> I r | Break r \<Rightarrow> I r | Return r out \<Rightarrow> J r out)"

definition loop_ok :: "(run \<Rightarrow> bool) \<Rightarrow> (run \<Rightarrow> outcome \<Rightarrow> bool) \<Rightarrow> run + run \<times> outcome \<Rightarrow> bool" where
  "loop_ok I J x = (case x of Inl r \<Rightarrow> I r | Inr (r, out) \<Rightarrow> J r out)"

lemma flow_ok_simps [simp]:
  "flow_ok I J (Next r) = I r" "flow_ok I J (Break r) = I r" "flow_ok I J (Return r out) = J r out"
  by (simp_all add: flow_ok_def)

lemma loop_ok_simps [simp]: "loop_ok I J (Inl r) = I r" "loop_ok I J (Inr (r, out)) = J r out"
  by (simp_all add: loop_ok_def)

lemma plan_attempt_rule:
  assumes "\<And>h. circuit_Allow e (dp_ID d) (dp_CredentialID d) (ru_hist r) = (h, False) \<Longrightarrow> I (r\<lparr>ru_hist := h\<rparr>)"
    and "\<And>h h' err. circuit_Allow e (dp_ID d) (dp_CredentialID d) (ru_hist r) = (h, True) \<Longrightarrow>
      acquireLease e s d (dp_CredentialID d) h = (h', Inl err) \<Longrightarrow> J (r\<lparr>ru_hist := h'\<rparr>) (Inl (LeaseError err))"
    and "\<And>h h' scope leaseID. circuit_Allow e (dp_ID d) (dp_CredentialID d) (ru_hist r) = (h, True) \<Longrightarrow>
      acquireLease e s d (dp_CredentialID d) h = (h', Inr (scope, leaseID, False)) \<Longrightarrow>
      I (r\<lparr>ru_hist := h', ru_leaseBlocked := True\<rparr>)"
    and "\<And>h h' scope leaseID r' res committed. circuit_Allow e (dp_ID d) (dp_CredentialID d) (ru_hist r) = (h, True) \<Longrightarrow>
      acquireLease e s d (dp_CredentialID d) h = (h', Inr (scope, leaseID, True)) \<Longrightarrow>
      leased_call e s d (dp_CredentialID d) scope leaseID (r\<lparr>ru_hist := h'\<rparr>) = (r', res, committed) \<Longrightarrow>
      flow_ok I J (plan_result e stop d n res committed r')"
  shows "flow_ok I J (plan_attempt e stop s d n r)"
  using assms by (auto simp: plan_attempt_def Let_def split: prod.split sum.split)

lemma pool_attempt_rule:
  assumes "\<And>h. circuit_Allow e (dp_ID d) c (ru_hist r) = (h, False) \<Longrightarrow> I (r\<lparr>ru_hist := h\<rparr>)"
    and "\<And>h h' err. circuit_Allow e (dp_ID d) c (ru_hist r) = (h, True) \<Longrightarrow>
      acquireLease e s d c h = (h', Inl err) \<Longrightarrow> J (r\<lparr>ru_hist := h'\<rparr>) (Inl (LeaseError err))"
    and "\<And>h h' scope leaseID. circuit_Allow e (dp_ID d) c (ru_hist r) = (h, True) \<Longrightarrow>
      acquireLease e s d c h = (h', Inr (scope, leaseID, False)) \<Longrightarrow> I (r\<lparr>ru_hist := h', ru_leaseBlocked := True\<rparr>)"
    and "\<And>h h' scope leaseID. circuit_Allow e (dp_ID d) c (ru_hist r) = (h, True) \<Longrightarrow>
      acquireLease e s d c h = (h', Inr (scope, leaseID, True)) \<Longrightarrow> I (r\<lparr>ru_hist := releaseLease e scope leaseID h'\<rparr>)"
    and "\<And>h h' scope leaseID r' res committed. circuit_Allow e (dp_ID d) c (ru_hist r) = (h, True) \<Longrightarrow>
      acquireLease e s d c h = (h', Inr (scope, leaseID, True)) \<Longrightarrow>
      leased_call e s d c scope leaseID (r\<lparr>ru_hist := h'\<rparr>) = (r', res, committed) \<Longrightarrow>
      flow_ok I J (pool_result e d c n res r')"
  shows "flow_ok I J (pool_attempt e resolve s d c n r)"
  using assms by (auto simp: pool_attempt_def Let_def split: prod.split sum.split)

lemma plan_attempts_rule:
  assumes "\<forall>n r. I r \<longrightarrow> ru_calls r < rt_MaxTotalCalls (xe_policy e) \<longrightarrow> flow_ok I J (plan_attempt e stop s d n r)" "I r"
  shows "loop_ok I J (plan_attempts e stop s d n r)"
  using assms
proof (induction e stop s d n r rule: plan_attempts.induct)
  case (1 e stop s d n r)
  show ?case
  proof (cases "n \<le> rt_MaxAttemptsPerDeployment (xe_policy e) \<and> ru_calls r < rt_MaxTotalCalls (xe_policy e)")
    case True
    then have ok: "flow_ok I J (plan_attempt e stop s d n r)" using "1.prems" by blast
    show ?thesis
    proof (cases "plan_attempt e stop s d n r")
      case (Next r')
      have "loop_ok I J (plan_attempts e stop s d (n + 1) r')"
        using True Next ok by (intro "1.IH" "1.prems"(1)) auto
      then show ?thesis using True Next by (subst plan_attempts.simps) simp
    qed (use True ok in \<open>subst plan_attempts.simps, simp\<close>)+
  qed (use "1.prems" in \<open>subst plan_attempts.simps, auto\<close>)
qed

lemma pool_attempts_rule:
  assumes "\<forall>n c r. I r \<longrightarrow> ru_calls r < rt_MaxTotalCalls (xe_policy e) \<longrightarrow> flow_ok I J (pool_attempt e resolve s d c n r)" "I r"
  shows "loop_ok I J (pool_attempts e resolve s d n pk r)"
  using assms
proof (induction e resolve s d n pk r rule: pool_attempts.induct)
  case (1 e resolve s d n pk r)
  show ?case
  proof (cases "n \<le> rt_MaxAttemptsPerDeployment (xe_policy e) \<and> ru_calls r < rt_MaxTotalCalls (xe_policy e)")
    case True
    obtain pk' x where pk: "picker_Next pk = (pk', x)" by fastforce
    show ?thesis
    proof (cases x)
      case (Inr c)
      have ok: "flow_ok I J (pool_attempt e resolve s d c n r)" using True "1.prems" by blast
      show ?thesis
      proof (cases "pool_attempt e resolve s d c n r")
        case (Next r')
        have "loop_ok I J (pool_attempts e resolve s d (n + 1) pk' r')"
          using True Next ok pk Inr by (intro "1.IH" "1.prems"(1)) auto
        then show ?thesis using True Next pk Inr by (subst pool_attempts.simps) simp
      qed (use True ok pk Inr in \<open>subst pool_attempts.simps, simp\<close>)+
    qed (use True pk "1.prems" in \<open>subst pool_attempts.simps, simp\<close>)
  qed (use "1.prems" in \<open>subst pool_attempts.simps, auto\<close>)
qed

locale request_contract =
  fixes I :: "run \<Rightarrow> bool" and J :: "run \<Rightarrow> outcome \<Rightarrow> bool"
  assumes init: "I init_run"
    and finish: "I r \<Longrightarrow> J r (snd (exhausted (Inl r)))"
begin

lemma over_fallback_ok:
  assumes "\<And>i r. I r \<Longrightarrow> loop_ok I J (body i r)" "I r"
  shows "loop_ok I J (over_fallback body ids r)"
  using assms(2)
proof (induction ids arbitrary: r)
  case (Cons i ids)
  have "loop_ok I J (body i r)" using assms(1) Cons.prems .
  then show ?case using Cons.IH by (cases "body i r") auto
qed simp

lemma request_ok:
  assumes "\<And>i r. I r \<Longrightarrow> loop_ok I J (body i r)" "exhausted (over_fallback body ids init_run) = (r, out)"
  shows "J r out"
proof -
  have "loop_ok I J (over_fallback body ids init_run)" using assms(1) init by (rule over_fallback_ok)
  then show ?thesis
    using assms(2) finish by (cases "over_fallback body ids init_run") (auto simp: exhausted_def)
qed

end

locale plan_contract = request_contract +
  fixes e :: exec_env and stop :: bool and s :: tenant_snapshot
  assumes attempt: "I r \<Longrightarrow> ru_calls r < rt_MaxTotalCalls (xe_policy e) \<Longrightarrow> flow_ok I J (plan_attempt e stop s d n r)"
begin

lemma plan_request: "runPlan e stop s fallback = (r, out) \<Longrightarrow> J r out"
  unfolding runPlan_def
  by (rule request_ok [of "plan_body e stop s"])
     (auto simp: plan_body_def attempt intro!: plan_attempts_rule split: option.split)

end

locale pool_contract = plan_contract I J e False s for I J e s +
  assumes pool_step: "I r \<Longrightarrow> ru_calls r < rt_MaxTotalCalls (xe_policy e) \<Longrightarrow> flow_ok I J (pool_attempt e resolve s d c n r)"
begin

lemma pool_request: "ExecuteWithPool e s fallback = (r, out) \<Longrightarrow> J r out"
proof (cases "xe_ResolveCredential e")
  case (Some resolve)
  assume "ExecuteWithPool e s fallback = (r, out)"
  with Some have "exhausted (over_fallback (pool_body e resolve s) fallback init_run) = (r, out)"
    by (simp add: ExecuteWithPool_def)
  then show ?thesis
    by (rule request_ok [rotated])
       (auto simp: pool_body_def pool_step intro!: pool_attempts_rule split: option.split)
qed (simp add: ExecuteWithPool_def exec_Execute_def plan_request)

end

subsection \<open>Leases and in-flight counts\<close>

text \<open>How often a lease is held and a scope is counted after a history.\<close>

definition held :: "history \<Rightarrow> string \<Rightarrow> string \<Rightarrow> int" where
  "held h scope leaseID =
     (\<Sum>ev \<leftarrow> h. case ev of
        XAcquire sc _ _ (Inr (True, l)) \<Rightarrow> (if sc = scope \<and> l = leaseID \<and> l \<noteq> '''' then 1 else 0)
      | XRelease sc l \<Rightarrow> (if sc = scope \<and> l = leaseID then - 1 else 0)
      | _ \<Rightarrow> 0)"

definition in_flight :: "history \<Rightarrow> string \<Rightarrow> int" where
  "in_flight h scope =
     (\<Sum>ev \<leftarrow> h. case ev of XIncr sc \<Rightarrow> (if sc = scope then 1 else 0) | XDecr sc \<Rightarrow> (if sc = scope then - 1 else 0) | _ \<Rightarrow> 0)"

definition balanced :: "history \<Rightarrow> bool" where
  "balanced h \<longleftrightarrow> (\<forall>scope leaseID. held h scope leaseID = 0) \<and> (\<forall>scope. in_flight h scope = 0)"

lemma held_app [simp]: "held (h @ h') sc l = held h sc l + held h' sc l"
  by (simp add: held_def)

lemma in_flight_app [simp]: "in_flight (h @ h') sc = in_flight h sc + in_flight h' sc"
  by (simp add: in_flight_def)

lemma balanced_app: "balanced h \<Longrightarrow> balanced h' \<Longrightarrow> balanced (h @ h')"
  by (simp add: balanced_def)

lemma balanced_neutral [simp]:
  "balanced []" "balanced [XAllow d c ok]" "balanced [XRecord d c ok]" "balanced [XSleep t res]"
  "balanced [XAcquire sc d c (Inl err)]" "balanced [XAcquire sc d c (Inr (False, l))]" "balanced [XAcquire sc d c (Inr (True, ''''))]"
  by (simp_all add: balanced_def held_def in_flight_def)

lemma balanced_Allow: "balanced h \<Longrightarrow> balanced (fst (circuit_Allow e d c h))"
  by (auto simp: circuit_Allow_def intro: balanced_app split: option.splits)

lemma balanced_Record: "balanced h \<Longrightarrow> balanced (circuit_Record e d c ok h)"
  by (auto simp: circuit_Record_def intro: balanced_app split: option.splits)

text \<open>What an acquisition adds to the history: nothing that is held, or the lease it returns.\<close>

lemma acquireLease_cases:
  assumes "acquireLease e s d c h = (h', lease)"
  obtains ev where "h' = h @ ev" "balanced ev" "\<And>scope leaseID. lease = Inr (scope, leaseID, True) \<Longrightarrow> scope = '''' \<or> leaseID = ''''"
  | scope leaseID where "h' = h @ [XAcquire scope (dp_ID d) c (Inr (True, leaseID))]" "lease = Inr (scope, leaseID, True)"
      "xe_Acquire e \<noteq> None" "scope \<noteq> ''''" "leaseID \<noteq> ''''"
proof (cases "xe_Acquire e")
  case None
  then show ?thesis using that(1) [of "[]"] assms by (auto simp: acquireLease_def)
next
  case (Some acquire)
  have sc: "lease_scope s d \<noteq> ''''" by (simp add: lease_scope_def)
  show ?thesis
  proof (cases "snap_Lease s (dp_ID d)")
    case None
    then show ?thesis using that(1) [of "[]"] assms Some by (auto simp: acquireLease_def)
  next
    case L: (Some l)
    show ?thesis
    proof (cases "lc_Capacity l \<le> 0 \<or> lc_TTLSeconds l \<le> 0")
      case True
      then show ?thesis using that(1) [of "[]"] assms Some L by (auto simp: acquireLease_def)
    next
      case False
      define res where "res = acquire h (lease_scope s d) (dp_ID d) c (lc_Capacity l) (i64 (lc_TTLSeconds l * second))"
      have eq: "h' = h @ [XAcquire (lease_scope s d) (dp_ID d) c res]"
        "lease = (case res of Inl err \<Rightarrow> Inl err | Inr (ok, i) \<Rightarrow> Inr (if ok then (lease_scope s d, i, True) else ('''', '''', False)))"
        using assms Some L False by (auto simp: acquireLease_def Let_def res_def [symmetric] split: sum.splits prod.splits)
      consider err where "res = Inl err" | i where "res = Inr (False, i)" | i where "res = Inr (True, i)"
        by (metis (full_types) surj_pair sum.exhaust)
      then show ?thesis
      proof cases
        case 3
        then show ?thesis using that eq Some sc by (cases "i = ''''") auto
      qed (use that(1) eq in auto)
    qed
  qed
qed

text \<open>A call returns what it was given: the history grows by a balanced block and the release of its lease.\<close>

definition call_block :: "exec_env \<Rightarrow> tenant_snapshot \<Rightarrow> deployment \<Rightarrow> string \<Rightarrow> call_error + string \<Rightarrow> bool \<Rightarrow> history" where
  "call_block e s d c res committed =
     (let sc = inflightScope (ts_TenantID s) (dp_ID d) c
      in if xe_inflight e then [XIncr sc, XCall (dp_ID d) c res committed, XDecr sc] else [XCall (dp_ID d) c res committed])"

lemma balanced_call_block [simp]: "balanced (call_block e s d c res committed)"
  by (simp add: call_block_def Let_def balanced_def held_def in_flight_def)

lemma leased_call_run:
  assumes "leased_call e s d c scope leaseID r = (r', res, committed)"
  shows "r' = r\<lparr>ru_hist := releaseLease e scope leaseID (ru_hist r @ call_block e s d c res committed), ru_calls := ru_calls r + 1\<rparr>"
  using assms
  by (auto simp: leased_call_def Let_def trackInflight_def untrackInflight_def call_block_def split: prod.splits if_splits)

lemma acquire_call_balanced:
  assumes "acquireLease e s d c h = (h', Inr (scope, leaseID, True))" "balanced h" "balanced ev"
  shows "balanced (releaseLease e scope leaseID (h' @ ev))"
  using assms(1)
proof (cases rule: acquireLease_cases)
  case (1 ev')
  then have "scope = '''' \<or> leaseID = ''''" by blast
  then show ?thesis using 1 assms(2,3) by (auto simp: releaseLease_def intro!: balanced_app)
next
  case (2 sc l)
  then show ?thesis using assms(2,3) by (auto simp: releaseLease_def balanced_def held_def in_flight_def)
qed

lemma acquire_balanced:
  assumes "acquireLease e s d c h = (h', lease)" "balanced h" "\<And>scope leaseID. lease \<noteq> Inr (scope, leaseID, True)"
  shows "balanced h'"
  using assms(1) by (cases rule: acquireLease_cases) (use assms(2,3) in \<open>auto intro: balanced_app\<close>)

lemma add_attempt_balanced: "balanced (ru_hist r) \<Longrightarrow> balanced (ru_hist (add_attempt e d c n code re ok r))"
  by (simp add: add_attempt_def balanced_Record)

lemma backoff_balanced:
  "balanced (ru_hist r) \<Longrightarrow> flow_ok (\<lambda>r. balanced (ru_hist r)) (\<lambda>r out. balanced (ru_hist r)) (backoff_sleep e n r)"
  by (auto simp: backoff_sleep_def Let_def intro: balanced_app split: option.split)

lemma leased_call_balanced:
  assumes "balanced h" "acquireLease e s d c h = (h', Inr (scope, leaseID, True))"
    "leased_call e s d c scope leaseID (r\<lparr>ru_hist := h'\<rparr>) = (r', res, committed)"
  shows "balanced (ru_hist r')"
  using acquire_call_balanced [OF assms(2,1) balanced_call_block] by (simp add: leased_call_run [OF assms(3)])

lemma plan_result_balanced:
  "balanced (ru_hist r) \<Longrightarrow>
   flow_ok (\<lambda>r. balanced (ru_hist r)) (\<lambda>r out. balanced (ru_hist r)) (plan_result e stop d n res committed r)"
  by (auto simp: plan_result_def Let_def intro!: add_attempt_balanced backoff_balanced split: sum.split prod.split)

lemma pool_result_balanced:
  "balanced (ru_hist r) \<Longrightarrow>
   flow_ok (\<lambda>r. balanced (ru_hist r)) (\<lambda>r out. balanced (ru_hist r)) (pool_result e d c n res r)"
  by (auto simp: pool_result_def Let_def intro!: add_attempt_balanced backoff_balanced split: sum.split prod.split)

lemma allow_balanced: "circuit_Allow e d c h = (h', ok) \<Longrightarrow> balanced h \<Longrightarrow> balanced h'"
  using balanced_Allow [of h e d c] by simp

lemma attempt_balanced:
  assumes "balanced (ru_hist r)"
  shows "flow_ok (\<lambda>r. balanced (ru_hist r)) (\<lambda>r out. balanced (ru_hist r)) (plan_attempt e stop s d n r)"
    and "flow_ok (\<lambda>r. balanced (ru_hist r)) (\<lambda>r out. balanced (ru_hist r)) (pool_attempt e resolve s d c n r)"
proof -
  note a = allow_balanced [OF _ assms]
  show "flow_ok (\<lambda>r. balanced (ru_hist r)) (\<lambda>r out. balanced (ru_hist r)) (plan_attempt e stop s d n r)"
    by (rule plan_attempt_rule)
       (use a in \<open>auto intro: acquire_balanced\<close>, blast intro: a plan_result_balanced leased_call_balanced)
  show "flow_ok (\<lambda>r. balanced (ru_hist r)) (\<lambda>r out. balanced (ru_hist r)) (pool_attempt e resolve s d c n r)"
    by (rule pool_attempt_rule)
       (use a acquire_call_balanced [where ev = "[]"] in \<open>auto intro: acquire_balanced\<close>,
        blast intro: a pool_result_balanced leased_call_balanced)
qed

interpretation bal: plan_contract "\<lambda>r. balanced (ru_hist r)" "\<lambda>r out. balanced (ru_hist r)" e stop s for e stop s
  by unfold_locales (auto simp: init_run_def attempt_balanced)

interpretation pbal: pool_contract "\<lambda>r. balanced (ru_hist r)" "\<lambda>r out. balanced (ru_hist r)" e s for e s
  by unfold_locales (auto simp: attempt_balanced)

text \<open>C11: A request gives back what it takes. When an execution returns, in any mode and whatever the breaker,
  the lease coordinator, the upstream and the deadlines did, every lease it was granted has been
  released exactly once and every in-flight count has been undone.\<close>

theorem exec_balanced:
  "(\<forall>stop. balanced (ru_hist (fst (runPlan e stop s fallback)))) \<and> balanced (ru_hist (fst (ExecuteWithPool e s fallback)))"
  using bal.plan_request [where e = e and s = s] pbal.pool_request [where e = e and s = s]
  by (metis prod.collapse)

subsection \<open>Calls: bounds and replay\<close>

definition calls_of :: "history \<Rightarrow> history" where
  "calls_of h = filter (\<lambda>ev. case ev of XCall _ _ _ _ \<Rightarrow> True | _ \<Rightarrow> False) h"

text \<open>A call after which another one is allowed: it failed and, for a stream, nothing was committed.\<close>

definition retried :: "bool \<Rightarrow> exec_event \<Rightarrow> bool" where
  "retried stop ev = (case ev of XCall _ _ (Inl _) committed \<Rightarrow> stop \<longrightarrow> \<not> committed | _ \<Rightarrow> False)"

definition counted :: "exec_env \<Rightarrow> run \<Rightarrow> bool" where
  "counted e r \<longleftrightarrow> length (ru_attempts r) = length (calls_of (ru_hist r)) \<and> int (length (calls_of (ru_hist r))) = ru_calls r
     \<and> ru_calls r \<le> max 0 (rt_MaxTotalCalls (xe_policy e))"

definition running_ok :: "exec_env \<Rightarrow> bool \<Rightarrow> run \<Rightarrow> bool" where
  "running_ok e stop r \<longleftrightarrow> counted e r \<and> list_all (retried stop) (calls_of (ru_hist r))"

definition finished_ok :: "exec_env \<Rightarrow> bool \<Rightarrow> run \<Rightarrow> outcome \<Rightarrow> bool" where
  "finished_ok e stop r out \<longleftrightarrow> counted e r \<and> list_all (retried stop) (butlast (calls_of (ru_hist r)))
     \<and> (case out of Inl _ \<Rightarrow> list_all (retried False) (calls_of (ru_hist r))
        | Inr (response, d) \<Rightarrow> \<exists>c b cs. calls_of (ru_hist r) = cs @ [XCall d c (Inr response) b])"

lemma calls_of_simps [simp]:
  "calls_of [] = []" "calls_of (h @ h') = calls_of h @ calls_of h'"
  "calls_of [XAllow d c ok] = []" "calls_of [XRecord d c ok] = []" "calls_of [XSleep t serr] = []"
  "calls_of [XRelease sc l] = []" "calls_of [XAcquire sc d c res'] = []"
  "calls_of (call_block e s dp c res b) = [XCall (dp_ID dp) c res b]"
  by (auto simp: calls_of_def call_block_def Let_def)

lemma calls_of_ops [simp]:
  "calls_of (circuit_Record e d c ok h) = calls_of h" "calls_of (releaseLease e sc l h) = calls_of h"
  by (auto simp: circuit_Record_def releaseLease_def split: option.split)

lemma calls_of_Allow: "circuit_Allow e d c h = (h', ok) \<Longrightarrow> calls_of h' = calls_of h"
  by (auto simp: circuit_Allow_def split: option.splits)

lemma calls_of_acquire: "acquireLease e s d c h = (h', lease) \<Longrightarrow> calls_of h' = calls_of h"
  by (auto simp: acquireLease_def Let_def split: option.splits if_splits sum.splits prod.splits)

lemma retried_XCall: "retried stop (XCall d c res b) \<longleftrightarrow> (\<exists>err. res = Inl err) \<and> (stop \<longrightarrow> \<not> b)"
  by (cases res) (auto simp: retried_def)

lemma retried_weaken: "retried stop ev \<Longrightarrow> retried False ev"
  by (auto simp: retried_def split: exec_event.splits sum.splits)

lemma counted_hist: "calls_of h = calls_of (ru_hist r) \<Longrightarrow> counted e (r\<lparr>ru_hist := h\<rparr>) = counted e r"
  by (simp add: counted_def)

lemma backoff_running:
  "running_ok e stop r \<Longrightarrow> flow_ok (running_ok e stop) (finished_ok e stop) (backoff_sleep e n r)"
  by (auto simp: backoff_sleep_def Let_def running_ok_def finished_ok_def counted_def list_all_iff
      intro: retried_weaken dest: in_set_butlastD split: option.split)

text \<open>The run after a call: one call and one attempt more.\<close>

lemma called_run:
  assumes "running_ok e stop r" "ru_calls r < rt_MaxTotalCalls (xe_policy e)" "calls_of h = calls_of (ru_hist r)"
    "leased_call e s d c scope leaseID (r\<lparr>ru_hist := h\<rparr>) = (r', res, b)"
  shows "counted e (add_attempt e d c n code re ok r') \<and> counted e (add_attempt e d c n code re ok (r'\<lparr>ru_last := l\<rparr>))
    \<and> calls_of (ru_hist r') = calls_of (ru_hist r) @ [XCall (dp_ID d) c res b]"
  using assms(1,2,3) by (auto simp: leased_call_run [OF assms(4)] running_ok_def counted_def add_attempt_def)

definition clean_first_token :: "exec_env \<Rightarrow> bool" where
  "clean_first_token e \<longleftrightarrow> (\<forall>h d c t. xe_Call e h d c \<noteq> (Inl (FirstTokenTimeout t), True))"

lemma leased_call_clean:
  "clean_first_token e \<Longrightarrow> leased_call e s d c scope leaseID r = (r', Inl err, b) \<Longrightarrow> is_first_token err \<Longrightarrow> \<not> b"
  by (auto simp: clean_first_token_def leased_call_def Let_def is_first_token_def split: prod.splits call_error.splits)

lemma ru_hist_add_attempt [simp]:
  "calls_of (ru_hist (add_attempt e d c n code re ok r)) = calls_of (ru_hist r)"
  by (simp add: add_attempt_def)

lemma plan_result_running:
  assumes r: "running_ok e stop r" "ru_calls r < rt_MaxTotalCalls (xe_policy e)" "calls_of h = calls_of (ru_hist r)"
    and call: "leased_call e s d (dp_CredentialID d) scope leaseID (r\<lparr>ru_hist := h\<rparr>) = (r', res, b)"
    and clean: "stop \<longrightarrow> clean_first_token e"
  shows "flow_ok (running_ok e stop) (finished_ok e stop) (plan_result e stop d n res b r')"
proof (cases res)
  case (Inr response)
  with called_run [OF r call] r(1) show ?thesis
    by (auto simp: plan_result_def Let_def finished_ok_def running_ok_def)
next
  case (Inl err)
  obtain code re where nz: "xe_NormalizeError e (dp_ID d) err = (code, re)" by fastforce
  let ?ft = "is_first_token err"
  let ?r = "add_attempt e d (dp_CredentialID d) n (if ?ft then ''first_token_timeout'' else code) (?ft \<or> re) False
     (r'\<lparr>ru_last := Some (CallError err)\<rparr>)"
  have c: "counted e ?r" "calls_of (ru_hist ?r) = calls_of (ru_hist r) @ [XCall (dp_ID d) (dp_CredentialID d) (Inl err) b]"
    using called_run [OF r call] Inl by auto
  have old: "list_all (retried stop) (calls_of (ru_hist r))" using r(1) by (simp add: running_ok_def)
  have fin: "finished_ok e stop ?r (Inl (CallError err))"
    using c old retried_weaken by (auto simp: finished_ok_def retried_def list_all_iff)
  have go: "running_ok e stop ?r" if "\<not> (stop \<and> b)"
    using c old that by (auto simp: running_ok_def retried_def)
  have "?ft \<longrightarrow> \<not> (stop \<and> b)" using leased_call_clean [of e, OF _ call [unfolded Inl]] clean by blast
  with fin go backoff_running [OF go] show ?thesis by (auto simp: plan_result_def Inl nz Let_def)
qed

lemma pool_result_running:
  assumes r: "running_ok e False r" "ru_calls r < rt_MaxTotalCalls (xe_policy e)" "calls_of h = calls_of (ru_hist r)"
    and call: "leased_call e s d c scope leaseID (r\<lparr>ru_hist := h\<rparr>) = (r', res, b)"
  shows "flow_ok (running_ok e False) (finished_ok e False) (pool_result e d c n res r')"
proof (cases res)
  case (Inr response)
  with called_run [OF r call] r(1) show ?thesis
    by (auto simp: pool_result_def Let_def finished_ok_def running_ok_def)
next
  case (Inl err)
  obtain code re where nz: "xe_NormalizeError e (dp_ID d) err = (code, re)" by fastforce
  let ?r = "add_attempt e d c n code re False (r'\<lparr>ru_last := Some (CallError err)\<rparr>)"
  have c: "counted e ?r" "calls_of (ru_hist ?r) = calls_of (ru_hist r) @ [XCall (dp_ID d) c (Inl err) b]"
    using called_run [OF r call] Inl by auto
  have go: "running_ok e False ?r" using c r(1) by (auto simp: running_ok_def retried_def)
  then have "finished_ok e False ?r (Inl (CallError err))"
    by (auto simp: finished_ok_def running_ok_def list_all_iff dest: in_set_butlastD)
  with go backoff_running [OF go] show ?thesis by (auto simp: pool_result_def Inl nz Let_def)
qed

lemma attempt_running:
  assumes "running_ok e stop r" "ru_calls r < rt_MaxTotalCalls (xe_policy e)"
  shows "stop \<longrightarrow> clean_first_token e \<Longrightarrow> flow_ok (running_ok e stop) (finished_ok e stop) (plan_attempt e stop s d n r)"
    and "\<not> stop \<Longrightarrow> flow_ok (running_ok e stop) (finished_ok e stop) (pool_attempt e resolve s d c n r)"
proof -
  have calls: "calls_of h' = calls_of (ru_hist r)"
    if "circuit_Allow e d c (ru_hist r) = (h, ok)" "acquireLease e s d' c' h = (h', lease)" for d c h ok h' lease d' c'
    using that by (metis calls_of_Allow calls_of_acquire)
  have keep: "running_ok e stop (r\<lparr>ru_hist := h\<rparr>)" "running_ok e stop (r\<lparr>ru_hist := h, ru_leaseBlocked := True\<rparr>)"
    "finished_ok e stop (r\<lparr>ru_hist := h\<rparr>) (Inl err)"
    if "calls_of h = calls_of (ru_hist r)" for h err
    using assms(1) that
    by (auto simp: running_ok_def finished_ok_def counted_def list_all_iff intro: retried_weaken dest: in_set_butlastD)
  show "flow_ok (running_ok e stop) (finished_ok e stop) (plan_attempt e stop s d n r)"
    if "stop \<longrightarrow> clean_first_token e"
    by (rule plan_attempt_rule) (use that assms in \<open>blast intro: keep calls calls_of_Allow plan_result_running\<close>)+
  show "flow_ok (running_ok e stop) (finished_ok e stop) (pool_attempt e resolve s d c n r)" if "\<not> stop"
  proof -
    have f: "stop = False" using that by simp
    show ?thesis
      by (rule pool_attempt_rule)
         (use assms in \<open>auto simp: f intro!: keep [unfolded f] intro: calls calls_of_Allow pool_result_running\<close>)
  qed
qed

lemma running_contract: "stop \<longrightarrow> clean_first_token e \<Longrightarrow> plan_contract (running_ok e stop) (finished_ok e stop) e stop s"
  by unfold_locales
     (auto simp: init_run_def running_ok_def finished_ok_def counted_def exhausted_def list_all_iff
        intro: attempt_running retried_weaken dest: in_set_butlastD)

interpretation cnt: pool_contract "running_ok e False" "finished_ok e False" e s for e s
  using running_contract [of False e s]
  by (simp add: pool_contract_def pool_contract_axioms_def attempt_running)

text \<open>C35: Executions are bounded and never repeat a successful call. Whatever the other parties do, a request over
  a plan or a credential pool makes at most \<^verbatim>\<open>MaxTotalCalls\<close> upstream calls and reports one attempt
  per call; every call before the last one failed; and the result is the response of the last call,
  or an error when all calls failed.\<close>

theorem exec_calls_bounded:
  "(case runPlan e False s fallback of (r, out) \<Rightarrow>
      length (ru_attempts r) = length (calls_of (ru_hist r))
      \<and> int (length (calls_of (ru_hist r))) \<le> max 0 (rt_MaxTotalCalls (xe_policy e))
      \<and> list_all (retried False) (butlast (calls_of (ru_hist r)))
      \<and> (case out of Inl _ \<Rightarrow> list_all (retried False) (calls_of (ru_hist r))
         | Inr (response, d) \<Rightarrow> \<exists>c b cs. calls_of (ru_hist r) = cs @ [XCall d c (Inr response) b]))
   \<and> (case ExecuteWithPool e s fallback of (r, out) \<Rightarrow>
      length (ru_attempts r) = length (calls_of (ru_hist r))
      \<and> int (length (calls_of (ru_hist r))) \<le> max 0 (rt_MaxTotalCalls (xe_policy e))
      \<and> list_all (retried False) (butlast (calls_of (ru_hist r)))
      \<and> (case out of Inl _ \<Rightarrow> list_all (retried False) (calls_of (ru_hist r))
         | Inr (response, d) \<Rightarrow> \<exists>c b cs. calls_of (ru_hist r) = cs @ [XCall d c (Inr response) b]))"
proof -
  obtain r out where p: "runPlan e False s fallback = (r, out)" by fastforce
  obtain r' out' where q: "ExecuteWithPool e s fallback = (r', out')" by fastforce
  from cnt.plan_request [OF p] cnt.pool_request [OF q] show ?thesis
    by (simp add: p q finished_ok_def counted_def)
qed


subsection \<open>Termination\<close>

text \<open>An attempt adds at most eight events.\<close>

lemma hist_lengths:
  "length (fst (circuit_Allow e d c h)) \<le> length h + 1" "length (circuit_Record e d c ok h) \<le> length h + 1"
  "length (releaseLease e sc l h) \<le> length h + 1" "length (fst (acquireLease e s dp c h)) \<le> length h + 1"
  "length (call_block e s dp c res b) \<le> 3"
  by (auto simp: circuit_Allow_def circuit_Record_def releaseLease_def acquireLease_def call_block_def Let_def
      split: option.split sum.split prod.split)

definition flow_run :: "flow \<Rightarrow> run" where
  "flow_run f = (case f of Next r \<Rightarrow> r | Break r \<Rightarrow> r | Return r _ \<Rightarrow> r)"

definition loop_run :: "run + run \<times> outcome \<Rightarrow> run" where
  "loop_run x = (case x of Inl r \<Rightarrow> r | Inr (r, _) \<Rightarrow> r)"

lemma flow_run_simps [simp]: "flow_run (Next r) = r" "flow_run (Break r) = r" "flow_run (Return r out) = r"
  by (simp_all add: flow_run_def)

lemma flow_ok_run: "flow_ok P (\<lambda>r _. P r) f \<longleftrightarrow> P (flow_run f)"
  by (simp add: flow_ok_def flow_run_def split: flow.split)

lemma backoff_length: "length (ru_hist (flow_run (backoff_sleep e n r))) \<le> length (ru_hist r) + 1"
  by (auto simp: backoff_sleep_def Let_def flow_run_def split: option.split)

lemma add_attempt_length: "length (ru_hist (add_attempt e d c n code re ok r)) \<le> length (ru_hist r) + 1"
  using hist_lengths(2) by (simp add: add_attempt_def)

lemma result_length:
  "length (ru_hist (flow_run (plan_result e stop d n res b r))) \<le> length (ru_hist r) + 2"
  "length (ru_hist (flow_run (pool_result e d c n res r))) \<le> length (ru_hist r) + 2"
proof -
  have aux: "length (ru_hist (flow_run (backoff_sleep e n (add_attempt e d c n code re ok r')))) \<le> length (ru_hist r') + 2"
    and aux2: "length (ru_hist (add_attempt e d c n code re ok r')) \<le> length (ru_hist r') + 2" for c code re ok r'
    using backoff_length [of e n "add_attempt e d c n code re ok r'"] add_attempt_length [of e d c n code re ok r'] by linarith+
  let ?l = "\<lambda>err. r\<lparr>ru_last := Some (CallError err)\<rparr>"
  have l: "length (ru_hist (?l err)) = length (ru_hist r)" for err by simp
  note le = aux [of _ _ _ _ "?l err" for err, unfolded l] aux2 [of _ _ _ _ "?l err" for err, unfolded l] aux2 [of _ _ _ _ r]
  show "length (ru_hist (flow_run (plan_result e stop d n res b r))) \<le> length (ru_hist r) + 2"
    by (cases res; cases "xe_NormalizeError e (dp_ID d) (projl res)") (simp_all add: plan_result_def Let_def le [simplified])
  show "length (ru_hist (flow_run (pool_result e d c n res r))) \<le> length (ru_hist r) + 2"
    by (cases res; cases "xe_NormalizeError e (dp_ID d) (projl res)") (simp_all add: pool_result_def Let_def le [simplified])
qed

lemma attempt_length:
  "length (ru_hist (flow_run (plan_attempt e stop s d n r))) \<le> length (ru_hist r) + 8"
  "length (ru_hist (flow_run (pool_attempt e resolve s d c n r))) \<le> length (ru_hist r) + 8"
proof -
  let ?P = "\<lambda>r'. length (ru_hist r') \<le> length (ru_hist r) + 8"
  have a: "length h \<le> length (ru_hist r) + 1" if "circuit_Allow e d c (ru_hist r) = (h, ok)" for d c h ok
    using hist_lengths(1) [of e d c "ru_hist r"] that by simp
  have l: "length h' \<le> length (ru_hist r) + 2"
    if "circuit_Allow e d' c' (ru_hist r) = (h, ok)" "acquireLease e s d c h = (h', lease)" for d' c' d c h ok h' lease
    using hist_lengths(4) [of e s d c h] a [OF that(1)] that(2) by simp
  have call: "length (ru_hist r') \<le> length (ru_hist r) + 6"
    if "circuit_Allow e d' c' (ru_hist r) = (h, ok)" "acquireLease e s d c h = (h', lease)"
      "leased_call e s d c scope leaseID (r\<lparr>ru_hist := h'\<rparr>) = (r', res, b)" for d' c' d c h ok h' lease scope leaseID r' res b
    using l [OF that(1,2)] hist_lengths(3) [of e scope leaseID "h' @ call_block e s d c res b"] hist_lengths(5) [of e s d c res b]
    by (simp add: leased_call_run [OF that(3)])
  have "flow_ok ?P (\<lambda>r _. ?P r) (plan_attempt e stop s d n r)"
  proof (rule plan_attempt_rule, goal_cases)
    case (1 h)
    from a [OF this] show ?case by simp
  next
    case (2 h h' err)
    from l [OF this] show ?case by simp
  next
    case (3 h h' scope leaseID)
    from l [OF this] show ?case by simp
  next
    case (4 h h' scope leaseID r' res committed)
    from call [OF this] result_length(1) [of e stop d n res committed r'] show ?case by (simp add: flow_ok_run)
  qed
  then show "length (ru_hist (flow_run (plan_attempt e stop s d n r))) \<le> length (ru_hist r) + 8" by (simp add: flow_ok_run)
  have "flow_ok ?P (\<lambda>r _. ?P r) (pool_attempt e resolve s d c n r)"
  proof (rule pool_attempt_rule, goal_cases)
    case (1 h)
    from a [OF this] show ?case by simp
  next
    case (2 h h' err)
    from l [OF this] show ?case by simp
  next
    case (3 h h' scope leaseID)
    from l [OF this] show ?case by simp
  next
    case (4 h h' scope leaseID)
    from l [OF this] hist_lengths(3) [of e scope leaseID h'] show ?case by simp
  next
    case (5 h h' scope leaseID r' res committed)
    from call [OF this] result_length(2) [of e d c n res r'] show ?case by (simp add: flow_ok_run)
  qed
  then show "length (ru_hist (flow_run (pool_attempt e resolve s d c n r))) \<le> length (ru_hist r) + 8" by (simp add: flow_ok_run)
qed

lemma loop_run_simps [simp]: "loop_run (Inl r) = r" "loop_run (Inr (r, out)) = r"
  by (simp_all add: loop_run_def)

lemma nat_steps: "n \<le> m \<Longrightarrow> nat (m + 1 - n) = Suc (nat (m + 1 - (n + 1)))"
  for n m :: int
  by simp

lemma plan_attempts_length:
  "length (ru_hist (loop_run (plan_attempts e stop s d n r)))
     \<le> length (ru_hist r) + 8 * nat (rt_MaxAttemptsPerDeployment (xe_policy e) + 1 - n)"
proof (induction e stop s d n r rule: plan_attempts.induct)
  case (1 e stop s d n r)
  note len = attempt_length(1) [of e stop s d n r]
  show ?case
  proof (cases "n \<le> rt_MaxAttemptsPerDeployment (xe_policy e) \<and> ru_calls r < rt_MaxTotalCalls (xe_policy e)")
    case True
    then show ?thesis
      using 1 [OF True] len nat_steps [of n "rt_MaxAttemptsPerDeployment (xe_policy e)"]
      by (subst plan_attempts.simps) (cases "plan_attempt e stop s d n r"; force)
  qed (subst plan_attempts.simps, auto)
qed

lemma pool_attempts_length:
  "length (ru_hist (loop_run (pool_attempts e resolve s d n pk r)))
     \<le> length (ru_hist r) + 8 * nat (rt_MaxAttemptsPerDeployment (xe_policy e) + 1 - n)"
proof (induction e resolve s d n pk r rule: pool_attempts.induct)
  case (1 e resolve s d n pk r)
  show ?case
  proof (cases "n \<le> rt_MaxAttemptsPerDeployment (xe_policy e) \<and> ru_calls r < rt_MaxTotalCalls (xe_policy e)")
    case True
    obtain pk' x where pk: "picker_Next pk = (pk', x)" by fastforce
    show ?thesis
    proof (cases x)
      case (Inr c)
      with True pk show ?thesis
        using 1 [OF True pk [symmetric] Inr] attempt_length(2) [of e resolve s d c n r] nat_steps [of n "rt_MaxAttemptsPerDeployment (xe_policy e)"]
        by (subst pool_attempts.simps) (cases "pool_attempt e resolve s d c n r"; force)
    qed (use True pk in \<open>subst pool_attempts.simps, simp\<close>)
  qed (subst pool_attempts.simps, auto)
qed

lemma over_fallback_length:
  assumes "\<And>i r. length (ru_hist (loop_run (body i r))) \<le> length (ru_hist r) + k"
  shows "length (ru_hist (loop_run (over_fallback body ids r))) \<le> length (ru_hist r) + k * length ids"
proof (induction ids arbitrary: r)
  case (Cons i ids)
  show ?case
  proof (cases "body i r")
    case (Inl r')
    then show ?thesis using assms [of i r] Cons [of r'] by simp
  next
    case (Inr x)
    then show ?thesis using assms [of i r] by simp
  qed
qed simp

lemma exhausted_run: "ru_hist (fst (exhausted x)) = ru_hist (loop_run x)"
  by (cases x) (auto simp: exhausted_def)

text \<open>C36: Every request ends. An execution over a plan or a pool interacts with the breaker, the leases, the counters,
  the upstream and the sleeper at most \<open>8 * MaxAttemptsPerDeployment\<close> times per deployment of
  the plan.\<close>

theorem exec_terminates:
  "(\<forall>stop. length (ru_hist (fst (runPlan e stop s fallback)))
      \<le> 8 * nat (rt_MaxAttemptsPerDeployment (xe_policy e)) * length fallback)
   \<and> length (ru_hist (fst (ExecuteWithPool e s fallback)))
      \<le> 8 * nat (rt_MaxAttemptsPerDeployment (xe_policy e)) * length fallback"
proof -
  let ?k = "8 * nat (rt_MaxAttemptsPerDeployment (xe_policy e))"
  have plan: "length (ru_hist (fst (runPlan e stop s fallback))) \<le> ?k * length fallback" for stop
    using over_fallback_length [of "plan_body e stop s" ?k fallback init_run] plan_attempts_length [of e stop s _ 1]
    by (simp add: runPlan_def exhausted_run init_run_def plan_body_def split: option.splits)
  have pool: "length (ru_hist (fst (exhausted (over_fallback (pool_body e resolve s) fallback init_run)))) \<le> ?k * length fallback"
    for resolve
    using over_fallback_length [of "pool_body e resolve s" ?k fallback init_run] pool_attempts_length [of e resolve s _ 1]
    by (simp add: exhausted_run init_run_def pool_body_def split: option.splits)
  from plan pool show ?thesis by (simp add: ExecuteWithPool_def exec_Execute_def split: option.split)
qed

subsection \<open>Backoff\<close>

lemma backoff_loop_closed:
  assumes "0 \<le> v" "v < 2 ^ 62" "mx < 2 ^ 62"
  shows "backoff_loop mx k v = (if k = 0 then v else min mx (v * 2 ^ k))"
  using assms
proof (induction k arbitrary: v)
  case (Suc k)
  have w: "i64 (v * 2) = v * 2" using Suc.prems by (intro i64_id in_i64I) auto
  show ?case
  proof (cases "mx \<le> v * 2")
    case True
    have "v * 2 \<le> v * 2 ^ Suc k" using Suc.prems by (intro mult_left_mono) auto
    with True w show ?thesis by (simp add: Let_def)
  next
    case False
    with w Suc.IH [of "v * 2"] Suc.prems show ?thesis by (auto simp: min_def mult.assoc Let_def)
  qed
qed simp

text \<open>The backoff loop computes the capped exponential: with delays below 2^62 ns and no negative jitter, the delay
  before retry n is the base doubled n - 1 times and capped, plus the jitter, capped again; so it
  never exceeds the configured maximum.\<close>

lemma backoff_closed_form:
  assumes "0 \<le> rt_BaseBackoff p" and "rt_BaseBackoff p < 2 ^ 62" and "0 \<le> rt_MaxBackoff p" and "rt_MaxBackoff p < 2 ^ 62"
    and "0 \<le> jitter" and "jitter < 2 ^ 62" and "1 \<le> n"
  shows "Backoff p n jitter = min (rt_MaxBackoff p) (min (rt_MaxBackoff p) (rt_BaseBackoff p * 2 ^ nat (n - 1)) + jitter)"
proof -
  let ?v = "backoff_loop (rt_MaxBackoff p) (nat (n - 1)) (rt_BaseBackoff p)"
  have v: "?v = (if nat (n - 1) = 0 then rt_BaseBackoff p else min (rt_MaxBackoff p) (rt_BaseBackoff p * 2 ^ nat (n - 1)))"
    using assms by (intro backoff_loop_closed)
  have "0 \<le> rt_BaseBackoff p * 2 ^ nat (n - 1)" using assms(1) by simp
  with v assms have "0 \<le> ?v" "?v < 2 ^ 62" by (auto simp: min_def)
  then have "i64 (?v + jitter) = ?v + jitter" using assms by (intro i64_id in_i64I) auto
  with v assms show ?thesis by (auto simp: Backoff_def Let_def min_def)
qed

lemma default_backoffs:
  "map (\<lambda>n. Backoff DefaultPolicy n 0) [1, 2, 3, 6] = [200 * millisecond, 400 * millisecond, 800 * millisecond, 4 * second]"
proof -
  have "Backoff DefaultPolicy n 0 = min (4 * second) (min (4 * second) (200 * millisecond * 2 ^ nat (n - 1)) + 0)" if "1 \<le> n" for n
    using backoff_closed_form [of DefaultPolicy 0 n] that by (simp add: DefaultPolicy_def)
  then show ?thesis by simp
qed

subsection \<open>A probe that meets a full lease\<close>

text \<open>The breaker as it stands after the events of a history, at a fixed time.\<close>

definition replay :: "(f64 \<Rightarrow> int) \<Rightarrow> gotime \<Rightarrow> breaker \<Rightarrow> history \<Rightarrow> breaker" where
  "replay oor now b h =
     foldl (\<lambda>b ev. case ev of XAllow d c _ \<Rightarrow> fst (breaker_Allow oor b d c now)
              | XRecord d c ok \<Rightarrow> breaker_Record b d c ok now | _ \<Rightarrow> b) b h"

definition uses_breaker :: "(f64 \<Rightarrow> int) \<Rightarrow> gotime \<Rightarrow> breaker \<Rightarrow> exec_env \<Rightarrow> bool" where
  "uses_breaker oor now b e \<longleftrightarrow>
     (\<exists>allow. xe_Allow e = Some allow \<and> (\<forall>h d c. allow h d c = snd (breaker_Allow oor (replay oor now b h) d c now)))"

definition leases_full :: "exec_env \<Rightarrow> bool" where
  "leases_full e \<longleftrightarrow> (\<exists>acquire. xe_Acquire e = Some acquire \<and> (\<forall>h sc d c n t. acquire h sc d c n t = Inr (False, '''')))"

text \<open>C37: A half-open probe that meets a full lease is lost. When the cooldown of the only deployment of a plan has
  elapsed and its lease is at capacity, the request takes the probe, reports \<^verbatim>\<open>LEASE_BUSY\<close> and records
  no outcome; from then on every \<^verbatim>\<open>Allow\<close> for the deployment is refused, at any later time.\<close>

theorem probe_lost_on_busy_lease:
  assumes "snap_Deployment s i = Some d" and "snap_Lease s (dp_ID d) = Some lease"
    and "0 < lc_Capacity lease" and "0 < lc_TTLSeconds lease" and "xe_Resolve e d"
    and "1 \<le> rt_MaxAttemptsPerDeployment (xe_policy e)" and "1 \<le> rt_MaxTotalCalls (xe_policy e)"
    and "leases_full e" and "uses_breaker oor now b e"
    and "e_state (br_get b (dp_ID d) (dp_CredentialID d)) = StateOpen"
    and "\<not> openNow oor (br_config b) (br_get b (dp_ID d) (dp_CredentialID d)) now" and "no_record es"
  shows "snd (exec_Execute e s [i]) = Inl LeaseBusy
    \<and> set (snd (tuple_run oor (replay oor now b (ru_hist (fst (exec_Execute e s [i])))) (dp_ID d) (dp_CredentialID d) es)) \<subseteq> {False}"
proof -
  let ?D = "dp_ID d" and ?C = "dp_CredentialID d"
  let ?b = "fst (breaker_Allow oor b ?D ?C now)"
  have ok: "snd (breaker_Allow oor b ?D ?C now)" and st: "e_state (br_get ?b ?D ?C) = StateHalfOpen" and pt: "e_probeTaken (br_get ?b ?D ?C)"
    using assms(10,11) by (simp_all add: Allow_refines entry_allow_def)
  let ?h = "[XAllow ?D ?C True, XAcquire (lease_scope s d) ?D ?C (Inr (False, ''''))]"
  let ?r = "init_run\<lparr>ru_hist := ?h, ru_leaseBlocked := True\<rparr>"
  have allow: "circuit_Allow e ?D ?C [] = ([XAllow ?D ?C True], True)"
    using assms(9) ok by (auto simp: uses_breaker_def circuit_Allow_def replay_def)
  have acq: "acquireLease e s d ?C [XAllow ?D ?C True] = (?h, Inr ('''', '''', False))"
    using assms(2,3,4,8) by (auto simp: leases_full_def acquireLease_def Let_def)
  have "plan_attempt e False s d 1 init_run = Break ?r"
    by (simp add: plan_attempt_def Let_def init_run_def allow acq)
  then have "plan_attempts e False s d 1 init_run = Inl ?r"
    using assms(6,7) by (subst plan_attempts.simps) (simp add: init_run_def)
  then have "exec_Execute e s [i] = (?r, Inl LeaseBusy)"
    using assms(1,5) by (simp add: exec_Execute_def runPlan_def plan_body_def exhausted_def init_run_def)
  moreover have "replay oor now b ?h = ?b" by (simp add: replay_def)
  moreover have "set (snd (tuple_run oor ?b ?D ?C es)) \<subseteq> {False}"
    using tuple_run_probe_taken [of ?b ?D ?C es oor] st pt assms(12) by auto
  ultimately show ?thesis by simp
qed

subsection \<open>Examples\<close>

definition busy_data :: tenant_data where
  "busy_data = example_data\<lparr>td_Deployments := [example_deployment ''d'' ''enabled'', example_deployment ''f'' ''enabled''],
     td_Leases := [\<lparr>lc_DeploymentID = ''d'', lc_Capacity = 1, lc_TTLSeconds = 60\<rparr>]\<rparr>"

text \<open>An upstream that fails its first call before any output and then streams to the end.\<close>

definition example_env :: exec_env where
  "example_env = \<lparr>xe_policy = DefaultPolicy, xe_Resolve = (\<lambda>_. True), xe_ResolveCredential = None,
     xe_Allow = Some (\<lambda>_ _ _. True), xe_Acquire = Some (\<lambda>_ _ _ _ _ _. Inr (True, ''l'')), xe_inflight = True,
     xe_Call = (\<lambda>h _ _. if calls_of h = [] then (Inl (InvokeError ''reset''), False) else (Inr ''body'', True)),
     xe_NormalizeError = (\<lambda>_ _. (''upstream'', True)), xe_jitter = (\<lambda>_. 0), xe_Sleep = (\<lambda>_ _. None),
     xe_pickerFor = (\<lambda>_. None)\<rparr>"


definition busy_env :: exec_env where
  "busy_env = example_env\<lparr>
     xe_Allow := Some (\<lambda>h d c. snd (breaker_Allow oor_amd64 (replay oor_amd64 (30 * second) open_example h) d c (30 * second))),
     xe_Acquire := Some (\<lambda>_ _ _ _ _ _. Inr (False, ''''))\<rparr>"

theorem probe_lost_on_busy_lease_witness:
  "snd (exec_Execute busy_env (NewTenantSnapshot busy_data) [''d'']) = Inl LeaseBusy
   \<and> set (snd (tuple_run oor_amd64 (replay oor_amd64 (30 * second) open_example
        (ru_hist (fst (exec_Execute busy_env (NewTenantSnapshot busy_data) [''d''])))) ''d'' ''c''
        [(Circuit.EvAllow, 1000 * hour)])) \<subseteq> {False}"
proof -
  let ?s = "NewTenantSnapshot busy_data" and ?d = "example_deployment ''d'' ''enabled''"
  have d: "snap_Deployment ?s ''d'' = Some ?d" "snap_Lease ?s (dp_ID ?d) = Some \<lparr>lc_DeploymentID = ''d'', lc_Capacity = 1, lc_TTLSeconds = 60\<rparr>"
    by (simp_all add: snap_Deployment_def snap_Lease_def NewTenantSnapshot_def busy_data_def example_deployment_def last_with_def)
  have i: "dp_ID ?d = ''d''" "dp_CredentialID ?d = ''c''" by (simp_all add: example_deployment_def)
  have o: "e_state (br_get open_example ''d'' ''c'') = StateOpen"
    "\<not> openNow oor_amd64 (br_config open_example) (br_get open_example ''d'' ''c'') (30 * second)"
    using open_example_openNow by (simp_all add: open_example_simps)
  from probe_lost_on_busy_lease [OF d, of busy_env oor_amd64 "30 * second" open_example "[(Circuit.EvAllow, 1000 * hour)]"] o
  show ?thesis
    by (simp add: i busy_env_def example_env_def DefaultPolicy_def leases_full_def uses_breaker_def no_record_def)
qed

end
