(* ===== verification/Accounting.thy ===== *)
theory Accounting
  imports Response_Cache Execution
begin

text \<open>
  Usage accounting: the immutable facts and the finalizer of \<^verbatim>\<open>internal/finops/accounting\<close>, prices and chargeback of
  \<^verbatim>\<open>internal/finops/pricing\<close>, and the rolling routing metrics of \<^verbatim>\<open>internal/app/routingmetrics.go\<close>. The repository
  that persists facts and the event sink are parameters: they answer each call with success or an error.
\<close>

subsection \<open>Facts\<close>

record acc_attempt =
  aa_DeploymentID :: string
  aa_Outcome :: string
  aa_Number :: int
  aa_Retryable :: bool

record route_evidence =
  rv_DeploymentID :: string
  rv_Eligible :: bool
  rv_Exclusions :: "string list"

record acc_facts =
  fc_UsageEventID :: string
  fc_RequestID :: string
  fc_ParentRequestID :: string
  fc_TenantID :: string
  fc_ProjectID :: string
  fc_KeyID :: string
  fc_LogicalModel :: string
  fc_DeploymentID :: string
  fc_Outcome :: string
  fc_UsageSource :: string
  fc_GuardrailStatus :: string
  fc_InputTokens :: int
  fc_OutputTokens :: int
  fc_CacheReadTokens :: int
  fc_CacheWriteTokens :: int
  fc_CachedInputTokens :: int
  fc_ReasoningTokens :: int
  fc_ToolCalls :: int
  fc_RetryCount :: int
  fc_FallbackCount :: int
  fc_LatencyMS :: int
  fc_SnapshotVersion :: int
  fc_SecurityEpoch :: int
  fc_ProviderCost :: "f64 option"
  fc_ProviderCurrency :: string
  fc_ReceivedAt :: gotime
  fc_CompletedAt :: gotime
  fc_Attempts :: "acc_attempt list"
  fc_RouteEvidence :: "route_evidence list"
  fc_BudgetPolicyID :: string
  fc_ReservationID :: string
  fc_ActualTokens :: "int option"
  fc_UserID :: string
  fc_OrgUnitID :: string
  fc_OrgPathSnapshot :: string
  fc_CostCenterID :: string
  fc_AttributionTrust :: string
  fc_SessionID :: string
  fc_TaskID :: string
  fc_RootTaskID :: string
  fc_ParentTaskID :: string
  fc_AgentID :: string
  fc_AgentVersion :: string
  fc_AgentEndpointID :: string
  fc_Estimated :: bool
  fc_EstimationMethod :: string

text \<open>A composite literal leaves the fields it does not name at their zero value.\<close>

definition facts_zero :: acc_facts where
  "facts_zero = \<lparr>fc_UsageEventID = '''', fc_RequestID = '''', fc_ParentRequestID = '''', fc_TenantID = '''', fc_ProjectID = '''',
     fc_KeyID = '''', fc_LogicalModel = '''', fc_DeploymentID = '''', fc_Outcome = '''', fc_UsageSource = '''', fc_GuardrailStatus = '''',
     fc_InputTokens = 0, fc_OutputTokens = 0, fc_CacheReadTokens = 0, fc_CacheWriteTokens = 0, fc_CachedInputTokens = 0,
     fc_ReasoningTokens = 0, fc_ToolCalls = 0, fc_RetryCount = 0, fc_FallbackCount = 0, fc_LatencyMS = 0, fc_SnapshotVersion = 0,
     fc_SecurityEpoch = 0, fc_ProviderCost = None, fc_ProviderCurrency = '''', fc_ReceivedAt = zero_time, fc_CompletedAt = zero_time,
     fc_Attempts = [], fc_RouteEvidence = [], fc_BudgetPolicyID = '''', fc_ReservationID = '''', fc_ActualTokens = None,
     fc_UserID = '''', fc_OrgUnitID = '''', fc_OrgPathSnapshot = '''', fc_CostCenterID = '''', fc_AttributionTrust = '''',
     fc_SessionID = '''', fc_TaskID = '''', fc_RootTaskID = '''', fc_ParentTaskID = '''', fc_AgentID = '''', fc_AgentVersion = '''',
     fc_AgentEndpointID = '''', fc_Estimated = False, fc_EstimationMethod = ''''\<rparr>"

record domain_event =
  de_ID :: string
  de_Kind :: string
  de_OccurredAt :: gotime
  de_TenantID :: string
  de_ProjectID :: string
  de_RequestID :: string
  de_Attributes :: "(string \<times> string) list"

subsection \<open>The finalizer\<close>

text \<open>
  What the finalizer touches: the repository's state, the enforcer (None when there is no budget) and the events
  emitted so far (None when there is no sink).
\<close>

record ('s, 'r) ledgers =
  lg_budget :: "'s enforcer option"
  lg_repo :: 'r
  lg_events :: "domain_event list option"

type_synonym 'r repository = "'r \<Rightarrow> acc_facts \<Rightarrow> 'r \<times> (gw_error + bool)"

record finalizer =
  fz_facts :: acc_facts
  fz_once :: bool
  fz_created :: bool
  fz_err :: "gw_error option"

definition NewFinalizer :: "acc_facts \<Rightarrow> finalizer" where
  "NewFinalizer f = \<lparr>fz_facts = f, fz_once = False, fz_created = False, fz_err = None\<rparr>"

definition budget_release :: "'s ledger_ops \<Rightarrow> ('s, 'r) ledgers \<Rightarrow> acc_facts \<Rightarrow> ('s, 'r) ledgers" where
  "budget_release ops w f =
     (case lg_budget w of None \<Rightarrow> w
      | Some e \<Rightarrow> if fc_ReservationID f = '''' then w
          else w\<lparr>lg_budget := Some (enforcer_Release ops e (fc_BudgetPolicyID f) (fc_ReservationID f))\<rparr>)"

definition completed_event :: "acc_facts \<Rightarrow> domain_event" where
  "completed_event f = \<lparr>de_ID = fc_UsageEventID f, de_Kind = ''request.completed'', de_OccurredAt = fc_CompletedAt f,
     de_TenantID = fc_TenantID f, de_ProjectID = fc_ProjectID f, de_RequestID = fc_RequestID f,
     de_Attributes = [(''outcome'', fc_Outcome f), (''logical_model'', fc_LogicalModel f), (''deployment_id'', fc_DeploymentID f)]\<rparr>"

definition emit_event :: "('s, 'r) ledgers \<Rightarrow> domain_event \<Rightarrow> ('s, 'r) ledgers" where
  "emit_event w e = w\<lparr>lg_events := map_option (\<lambda>l. l @ [e]) (lg_events w)\<rparr>"

text \<open>
  The function under \<^verbatim>\<open>once.Do\<close>: persist, settle, emit. The deferred release runs when the settlement has not
  succeeded; an error of the sink is only reported.
\<close>

definition finalize_once ::
  "'s ledger_ops \<Rightarrow> 'r repository \<Rightarrow> ('s, 'r) ledgers \<Rightarrow> acc_facts \<Rightarrow> ('s, 'r) ledgers \<times> bool \<times> gw_error option" where
  "finalize_once ops persist w f =
     (case persist (lg_repo w) f of
        (repo, Inl err) \<Rightarrow> (budget_release ops (w\<lparr>lg_repo := repo\<rparr>) f, False, Some err)
      | (repo, Inr created) \<Rightarrow>
          let w = w\<lparr>lg_repo := repo\<rparr>
          in case (lg_budget w, fc_ActualTokens f) of
               (Some e, Some actual) \<Rightarrow>
                 if fc_ReservationID f = '''' then (emit_event w (completed_event f), created, None)
                 else (case enforcer_Reconcile ops e (fc_BudgetPolicyID f) (fc_ReservationID f) actual of
                         (e', None) \<Rightarrow> (emit_event (w\<lparr>lg_budget := Some e'\<rparr>) (completed_event f), created, None)
                       | (e', Some err) \<Rightarrow>
                           (budget_release ops (w\<lparr>lg_budget := Some e'\<rparr>) f, created, Some (OtherError ''budget'')))
             | _ \<Rightarrow> (emit_event (budget_release ops w f) (completed_event f), created, None))"

definition Finalize ::
  "'s ledger_ops \<Rightarrow> 'r repository \<Rightarrow> ('s, 'r) ledgers \<Rightarrow> finalizer \<Rightarrow> ('s, 'r) ledgers \<times> finalizer" where
  "Finalize ops persist w z =
     (if fz_once z then (w, z)
      else let (w', created, err) = finalize_once ops persist w (fz_facts z)
           in (w', z\<lparr>fz_once := True, fz_created := created, fz_err := err\<rparr>))"

subsection \<open>Prices\<close>

record price_rate =
  pr_Model :: string
  pr_Currency :: string
  pr_InputPerMillion :: f64
  pr_OutputPerMillion :: f64
  pr_CacheReadPerMillion :: f64
  pr_CacheWritePerMillion :: f64

record price_version =
  pv_VersionID :: string
  pv_PublishedAt :: gotime
  pv_Rates :: "price_rate list"

definition usd_rate :: "string \<Rightarrow> rat \<Rightarrow> rat \<Rightarrow> rat \<Rightarrow> rat \<Rightarrow> price_rate" where
  "usd_rate model i out cr cw = \<lparr>pr_Model = model, pr_Currency = ''USD'', pr_InputPerMillion = fl i, pr_OutputPerMillion = fl out,
     pr_CacheReadPerMillion = fl cr, pr_CacheWritePerMillion = fl cw\<rparr>"

definition LiteReferencePriceVersion :: price_version where
  "LiteReferencePriceVersion = \<lparr>pv_VersionID = ''lite-reference-v1'', pv_PublishedAt = zero_time, pv_Rates =
     [usd_rate ''gpt-4o-mini'' (15 / 100) (60 / 100) (75 / 1000) 0,
      usd_rate ''gpt-4o'' (5 / 2) 10 (5 / 4) 0,
      usd_rate ''gpt-4.1'' 2 8 (1 / 2) 0,
      usd_rate ''o1-mini'' (11 / 10) (44 / 10) (55 / 100) 0,
      usd_rate ''claude-3-5-sonnet'' 3 15 (3 / 10) (375 / 100),
      usd_rate ''claude-3-5-haiku'' (8 / 10) 4 (8 / 100) 1]\<rparr>"

definition find_rate :: "price_version \<Rightarrow> string \<Rightarrow> string \<Rightarrow> price_rate option" where
  "find_rate v model currency = find (\<lambda>r. pr_Model r = model \<and> pr_Currency r = currency) (pv_Rates v)"

definition per_million :: "int \<Rightarrow> f64 \<Rightarrow> f64" where
  "per_million tokens price = fmul (fdiv (f_of_int tokens) 1000000) price"

definition PriceCached :: "price_version \<Rightarrow> string \<Rightarrow> string \<Rightarrow> int \<Rightarrow> int \<Rightarrow> int \<Rightarrow> int \<Rightarrow> f64 option" where
  "PriceCached v model currency inputTokens outputTokens cacheReadTokens cacheWriteTokens =
     (case find_rate v model currency of None \<Rightarrow> None
      | Some r \<Rightarrow>
          let cacheRead = (if pr_CacheReadPerMillion r \<le> 0 then pr_InputPerMillion r else pr_CacheReadPerMillion r);
              cacheWrite = (if pr_CacheWritePerMillion r \<le> 0 then pr_InputPerMillion r else pr_CacheWritePerMillion r);
              i = per_million inputTokens (pr_InputPerMillion r); out = per_million outputTokens (pr_OutputPerMillion r);
              rd = per_million cacheReadTokens cacheRead; wr = per_million cacheWriteTokens cacheWrite
          in Some (fadd (fadd (fadd i out) rd) wr))"

definition Price :: "price_version \<Rightarrow> string \<Rightarrow> string \<Rightarrow> int \<Rightarrow> int \<Rightarrow> f64 option" where
  "Price v model currency inputTokens outputTokens = PriceCached v model currency inputTokens outputTokens 0 0"

record amounts =
  am_ProviderCost :: f64
  am_CustomerCharge :: f64
  am_Currency :: string
  am_PricingVersion :: string

type_synonym converter = "f64 \<Rightarrow> string \<Rightarrow> string \<Rightarrow> f64 option"

definition StaticConverter :: "(string \<rightharpoonup> f64) option \<Rightarrow> converter" where
  "StaticConverter rates amount src to =
     (if src = to then Some amount
      else case rates of None \<Rightarrow> None
           | Some m \<Rightarrow> (case m (src @ ''-'' @ to) of None \<Rightarrow> None | Some rate \<Rightarrow> Some (fmul amount rate)))"

definition facts_price :: "price_version \<Rightarrow> acc_facts \<Rightarrow> string \<Rightarrow> f64 option" where
  "facts_price v f currency =
     PriceCached v (fc_LogicalModel f) currency (fc_InputTokens f) (fc_OutputTokens f) (fc_CacheReadTokens f) (fc_CacheWriteTokens f)"

definition Derive :: "price_version \<Rightarrow> acc_facts \<Rightarrow> string \<Rightarrow> converter option \<Rightarrow> amounts option" where
  "Derive v f settlementCurrency convert =
     (let currency = (if fc_ProviderCurrency f = '''' then settlementCurrency else fc_ProviderCurrency f)
      in case (case fc_ProviderCost f of Some x \<Rightarrow> Some x | None \<Rightarrow> facts_price v f currency) of
           None \<Rightarrow> None
         | Some cost \<Rightarrow>
             (case facts_price v f settlementCurrency of None \<Rightarrow> None
              | Some charge \<Rightarrow>
                  (case (case convert of None \<Rightarrow> Some cost | Some conv \<Rightarrow> conv cost currency settlementCurrency) of
                     None \<Rightarrow> None
                   | Some cost \<Rightarrow> Some \<lparr>am_ProviderCost = cost, am_CustomerCharge = charge, am_Currency = settlementCurrency,
                       am_PricingVersion = pv_VersionID v\<rparr>)))"

definition Chargeable :: "acc_facts \<Rightarrow> bool" where
  "Chargeable f \<longleftrightarrow> fc_AttributionTrust f \<in> set [''verified'', ''key_bound'', ''delegated'']"

record chargeback_line =
  cb_TenantID :: string
  cb_ProjectID :: string
  cb_ScopeType :: string
  cb_ScopeID :: string
  cb_CustomerCharge :: f64
  cb_PricingVersion :: string

definition charge_row :: "acc_facts \<Rightarrow> amounts \<Rightarrow> string \<Rightarrow> string \<Rightarrow> chargeback_line" where
  "charge_row f a kind ident = \<lparr>cb_TenantID = fc_TenantID f, cb_ProjectID = fc_ProjectID f, cb_ScopeType = kind, cb_ScopeID = ident,
     cb_CustomerCharge = am_CustomerCharge a, cb_PricingVersion = am_PricingVersion a\<rparr>"

definition Chargeback :: "acc_facts \<Rightarrow> amounts \<Rightarrow> chargeback_line list" where
  "Chargeback f a =
     [charge_row f a ''tenant'' (fc_TenantID f), charge_row f a ''project'' (fc_ProjectID f)]
     @ (if \<not> Chargeable f then []
        else (if fc_UserID f \<noteq> '''' then [charge_row f a ''user'' (fc_UserID f)] else [])
             @ (if fc_OrgUnitID f \<noteq> '''' then [charge_row f a ''org_unit'' (fc_OrgUnitID f)] else [])
             @ (if fc_AgentID f \<noteq> '''' then [charge_row f a ''agent'' (fc_AgentID f)] else []))"

subsection \<open>Routing metrics\<close>

abbreviation metricsWindow :: duration where "metricsWindow \<equiv> minute"

record deployment_stats =
  dx_latencyEWMA :: f64
  dx_costEWMA :: f64
  dx_cacheAffinity :: f64
  dx_success :: int
  dx_failed :: int
  dx_inflight :: int
  dx_last :: gotime

type_synonym routing_metrics = "string \<rightharpoonup> deployment_stats"

definition newRoutingMetrics :: routing_metrics where
  "newRoutingMetrics = Map.empty"

definition stateLocked :: "routing_metrics \<Rightarrow> string \<Rightarrow> deployment_stats" where
  "stateLocked m k = (case m k of None \<Rightarrow> \<lparr>dx_latencyEWMA = 0, dx_costEWMA = 0, dx_cacheAffinity = 0, dx_success = 0, dx_failed = 0,
     dx_inflight = 0, dx_last = zero_time\<rparr> | Some s \<Rightarrow> s)"

definition metrics_begin :: "routing_metrics \<Rightarrow> string \<Rightarrow> routing_metrics" where
  "metrics_begin m k = (let s = stateLocked m k in m(k \<mapsto> s\<lparr>dx_inflight := dx_inflight s + 1\<rparr>))"

text \<open>The constants \<^verbatim>\<open>alpha\<close> and \<^verbatim>\<open>1-alpha\<close> are exact until they are converted to a float.\<close>

definition ewma :: "f64 \<Rightarrow> f64 \<Rightarrow> f64" where
  "ewma x old = fadd (fmul (fl (3 / 10)) x) (fmul (fl (7 / 10)) old)"

definition metrics_observe :: "routing_metrics \<Rightarrow> string \<Rightarrow> f64 \<Rightarrow> f64 \<Rightarrow> f64 \<Rightarrow> bool \<Rightarrow> gotime \<Rightarrow> routing_metrics" where
  "metrics_observe m k latencyMS cost cacheHitRatio success now =
     (let s = stateLocked m k; first = (dx_success s + dx_failed s = 0)
      in m(k \<mapsto> \<lparr>dx_latencyEWMA = (if first then latencyMS else ewma latencyMS (dx_latencyEWMA s)),
           dx_costEWMA = (if first then cost else ewma cost (dx_costEWMA s)),
           dx_cacheAffinity = (if first then cacheHitRatio else ewma cacheHitRatio (dx_cacheAffinity s)),
           dx_success = dx_success s + (if success then 1 else 0), dx_failed = dx_failed s + (if success then 0 else 1),
           dx_inflight = (if 0 < dx_inflight s then dx_inflight s - 1 else dx_inflight s), dx_last = now\<rparr>))"

definition metrics_stale :: "deployment_stats \<Rightarrow> gotime \<Rightarrow> bool" where
  "metrics_stale s now \<longleftrightarrow> metricsWindow < t_sub now (dx_last s)"

definition metrics_load :: "deployment_stats \<Rightarrow> f64" where
  "metrics_load s =
     (let total = dx_success s + dx_failed s
      in if 0 < dx_inflight s then 1 else if 0 < total then fdiv (f_of_int (dx_failed s)) (f_of_int total) else 0)"

definition metrics_snapshot :: "routing_metrics \<Rightarrow> gotime \<Rightarrow> routing_metrics \<times> (string \<rightharpoonup> deployment_metrics)" where
  "metrics_snapshot m now =
     (let live = (\<lambda>k. case m k of None \<Rightarrow> None | Some s \<Rightarrow> if metrics_stale s now then None else Some s)
      in (live, \<lambda>k. map_option (\<lambda>s. \<lparr>mt_LatencyMS = dx_latencyEWMA s, mt_Cost = dx_costEWMA s, mt_Load = metrics_load s,
            mt_CacheAffinity = dx_cacheAffinity s\<rparr>) (live k)))"

definition metrics_healthy :: "routing_metrics \<Rightarrow> string \<Rightarrow> gotime \<Rightarrow> bool" where
  "metrics_healthy m k now =
     (case m k of None \<Rightarrow> True
      | Some s \<Rightarrow>
          let total = dx_success s + dx_failed s
          in metrics_stale s now \<or> total < 3 \<or> fdiv (f_of_int (dx_failed s)) (f_of_int total) \<le> 1 / 2)"

definition metrics_hasData :: "routing_metrics \<Rightarrow> string \<Rightarrow> gotime \<Rightarrow> bool" where
  "metrics_hasData m k now = (case m k of None \<Rightarrow> False | Some s \<Rightarrow> \<not> metrics_stale s now)"

subsection \<open>A finalized reservation is closed\<close>

definition reserved_open :: "manager \<Rightarrow> string \<Rightarrow> string \<Rightarrow> bool" where
  "reserved_open m p rid \<longleftrightarrow>
     (case ledgerFor m p rid of None \<Rightarrow> False
      | Some (_, w) \<Rightarrow> (case map_of (wn_reservations w) rid of None \<Rightarrow> False | Some r \<Rightarrow> \<not> rs_final r))"

lemma ledgerFor_put:
  assumes "ledgerFor m p rid = Some (current, w)" "map_of (wn_reservations w') rid \<noteq> None"
  shows "ledgerFor (put_ledger m p current w') p rid = Some (current, w')"
  using assms by (auto simp: ledgerFor_def put_ledger_def split: option.splits if_splits)

lemma settled_closed:
  assumes "ledgerFor m p rid = Some (current, w)" "map_of (wn_reservations w') rid = Some r" "rs_final r"
  shows "\<not> reserved_open (put_ledger m p current w') p rid"
  using ledgerFor_put [OF assms(1), of w'] assms(2,3) by (simp add: reserved_open_def)

lemma Release_closes: "\<not> reserved_open (manager_Release m p rid) p rid"
proof (cases "ledgerFor m p rid")
  case None
  then show ?thesis by (simp add: manager_Release_def reserved_open_def)
next
  case (Some cw)
  obtain current w where cw: "cw = (current, w)" by (cases cw)
  obtain r where r: "map_of (wn_reservations w) rid = Some r" using Some cw by (auto elim: ledgerFor_cases)
  show ?thesis
  proof (cases "rs_final r")
    case True
    then show ?thesis using Some cw r by (simp add: manager_Release_def reserved_open_def Let_def)
  next
    case False
    then show ?thesis using Some cw r
      using settled_closed [of m p rid current w "w\<lparr>wn_reserved := i64 (wn_reserved w - rs_estimate r),
          wn_reservations := AList.update rid (r\<lparr>rs_final := True\<rparr>) (wn_reservations w)\<rparr>" "r\<lparr>rs_final := True\<rparr>"]
      by (simp add: manager_Release_def Let_def update_conv')
  qed
qed

lemma Reconcile_closes: "manager_Reconcile m p rid a = (m', None) \<Longrightarrow> \<not> reserved_open m' p rid"
proof (cases "ledgerFor m p rid")
  case (Some cw)
  assume h: "manager_Reconcile m p rid a = (m', None)"
  obtain current w where cw: "cw = (current, w)" by (cases cw)
  obtain r where r: "map_of (wn_reservations w) rid = Some r" using Some cw by (auto elim: ledgerFor_cases)
  show ?thesis
  proof (cases "rs_final r")
    case True
    then show ?thesis using h Some cw r by (auto simp: manager_Reconcile_def reserved_open_def Let_def split: if_split_asm)
  next
    case False
    then have "m' = put_ledger m p current (settle w rid r a)"
      using h Some cw r by (auto simp: manager_Reconcile_def Let_def split: if_split_asm)
    then show ?thesis using settled_closed [of m p rid current w "settle w rid r a" "r\<lparr>rs_final := True\<rparr>"] Some cw
      by (simp add: settle_def update_conv')
  qed
qed (auto simp: manager_Reconcile_def split: if_split_asm)

lemma enforcer_Release_manager: "en_manager (enforcer_Release ops e p rid) = manager_Release (en_manager e) p rid"
  by (simp add: enforcer_Release_def release_manager_def Let_def split: option.splits)

lemma enforcer_Reconcile_manager:
  assumes "enforcer_Reconcile ops e p rid a = (e', None)"
  shows "manager_Reconcile (en_manager e) p rid a = (en_manager e', None)"
proof -
  obtain m err where m: "manager_Reconcile (en_manager e) p rid a = (m, err)" by fastforce
  with assms show ?thesis by (cases err) (auto simp: enforcer_Reconcile_def Let_def split: option.splits)
qed

definition budget_open :: "'s enforcer option \<Rightarrow> string \<Rightarrow> string \<Rightarrow> bool" where
  "budget_open b p rid \<longleftrightarrow> (case b of None \<Rightarrow> False | Some e \<Rightarrow> reserved_open (en_manager e) p rid)"

lemma budget_release_closes:
  "fc_ReservationID f \<noteq> '''' \<Longrightarrow> \<not> budget_open (lg_budget (budget_release ops w f)) (fc_BudgetPolicyID f) (fc_ReservationID f)"
  by (auto simp: budget_release_def budget_open_def enforcer_Release_manager Release_closes split: option.splits)

text \<open>Whatever the repository and the settlement answer, the finalizer leaves no open reservation.\<close>

lemma finalize_once_closes:
  assumes "fc_ReservationID f \<noteq> ''''"
  shows "\<not> budget_open (lg_budget (fst (finalize_once ops persist w f))) (fc_BudgetPolicyID f) (fc_ReservationID f)"
proof -
  obtain repo ans where p: "persist (lg_repo w) f = (repo, ans)" by fastforce
  let ?w = "w\<lparr>lg_repo := repo\<rparr>"
  note closes = budget_release_closes [OF assms]
  show ?thesis
  proof (cases ans)
    case (Inl err)
    then show ?thesis using closes by (simp add: finalize_once_def p)
  next
    case (Inr created)
    show ?thesis
    proof (cases "\<exists>e actual. lg_budget w = Some e \<and> fc_ActualTokens f = Some actual")
      case False
      then have "finalize_once ops persist w f = (emit_event (budget_release ops ?w f) (completed_event f), created, None)"
        using p Inr by (auto simp: finalize_once_def Let_def split: option.split)
      then show ?thesis using closes [of ops ?w] by (simp add: emit_event_def)
    next
      case True
      then obtain e actual where e: "lg_budget w = Some e" "fc_ActualTokens f = Some actual" by blast
      obtain e' err where rec: "enforcer_Reconcile ops e (fc_BudgetPolicyID f) (fc_ReservationID f) actual = (e', err)" by fastforce
      show ?thesis
      proof (cases err)
        case None
        then have "\<not> reserved_open (en_manager e') (fc_BudgetPolicyID f) (fc_ReservationID f)"
          using rec enforcer_Reconcile_manager Reconcile_closes by metis
        then show ?thesis using p Inr e rec None assms by (simp add: finalize_once_def Let_def emit_event_def budget_open_def)
      next
        case (Some x)
        then show ?thesis using p Inr e rec assms closes by (simp add: finalize_once_def Let_def)
      qed
    qed
  qed
qed

lemma Finalize_idempotent:
  assumes "Finalize ops persist w z = (w', z')"
  shows "Finalize ops persist w'' z' = (w'', z')"
  using assms by (auto simp: Finalize_def Let_def split: if_split_asm prod.split_asm)

subsection \<open>Chargeback rows\<close>

text \<open>Untrusted attribution never reaches a user, unit or agent row, and every row carries the charge of the request.\<close>

lemma chargeback_trusted:
  "row \<in> set (Chargeback f a) \<Longrightarrow> cb_CustomerCharge row = am_CustomerCharge a \<and> cb_TenantID row = fc_TenantID f
     \<and> (cb_ScopeType row \<in> {''user'', ''org_unit'', ''agent''} \<longrightarrow> Chargeable f \<and> cb_ScopeID row \<noteq> '''')"
  by (auto simp: Chargeback_def charge_row_def split: if_splits)

subsection \<open>The load signal\<close>

text \<open>
  The first request of a deployment is in flight without an observation; the next snapshot sees a stale window and
  drops it, so the deployment shows no load while the request runs.
\<close>

lemma first_begin_dropped:
  assumes "m k = None" "0 < now"
  shows "metrics_snapshot (metrics_begin m k) now = (fst (metrics_snapshot m now), snd (metrics_snapshot m now))"
proof -
  have "metrics_stale (stateLocked m k\<lparr>dx_inflight := 1\<rparr>) now" using assms
    by (simp add: metrics_stale_def stateLocked_def t_sub_def zero_time_def)
  then show ?thesis using assms
    by (auto simp: metrics_snapshot_def metrics_begin_def Let_def stateLocked_def fun_eq_iff)
qed

end
