(* ===== verification/Rate_Limit.thy ===== *)
theory Rate_Limit
  imports Go_Float "HOL-Library.Word" "HOL-Library.Signed_Division"
begin

text \<open>
  The request and token limiters of \<^verbatim>\<open>internal/policy/rate/limiter.go\<close>: the sharded token
  bucket limiter (\<^verbatim>\<open>Limiter\<close>) with its eviction sweep, and the fixed-window token meter
  (\<^verbatim>\<open>Meter\<close>) that reserves by estimate and reconciles to actual usage. Each operation runs
  under the lock of its shard or of the meter and is one step. The cross-replica variants
  in \<^verbatim>\<open>redis.go\<close> are scripts of a remote store and are not modelled.
\<close>

unbundle bit_operations_syntax

subsection \<open>Token buckets\<close>

record rate_policy =
  RequestsPerMinute :: int
  Burst :: int

record decision =
  Allowed :: bool
  RetryAfter :: duration

record bucket =
  bk_tokens :: f64
  bk_last :: gotime

abbreviation sweepInterval :: duration where "sweepInterval \<equiv> 60 * second"
abbreviation idleTTL :: duration where "idleTTL \<equiv> 10 * minute"
abbreviation shardCount :: nat where "shardCount \<equiv> 16"

record shard =
  sh_buckets :: "string \<rightharpoonup> bucket"
  sh_lastSweep :: gotime

type_synonym limiter = "shard list"

definition limiter_New :: "gotime \<Rightarrow> limiter" where
  "limiter_New now = replicate shardCount \<lparr>sh_buckets = Map.empty, sh_lastSweep = now\<rparr>"

text \<open>FNV-1a over the bytes of the scope key.\<close>

definition fnv_step :: "32 word \<Rightarrow> char \<Rightarrow> 32 word" where
  "fnv_step h c = (h XOR of_nat (of_char c)) * 16777619"

definition shardIndex :: "string \<Rightarrow> nat" where
  "shardIndex key = unat (foldl fnv_step 2166136261 key mod 16)"

definition sweepLocked :: "shard \<Rightarrow> gotime \<Rightarrow> shard" where
  "sweepLocked s now =
     (if t_sub now (sh_lastSweep s) < sweepInterval then s
      else \<lparr>sh_buckets = (\<lambda>k. case sh_buckets s k of None \<Rightarrow> None
               | Some state \<Rightarrow> if idleTTL \<le> t_sub now (bk_last state) then None else Some state),
            sh_lastSweep = now\<rparr>)"

definition sweepDue :: "limiter \<Rightarrow> gotime \<Rightarrow> limiter" where
  "sweepDue l now = map (\<lambda>s. sweepLocked s now) l"

definition bucketExists :: "limiter \<Rightarrow> string \<Rightarrow> bool" where
  "bucketExists l key \<longleftrightarrow> sh_buckets (l ! shardIndex key) key \<noteq> None"

text \<open>\<^verbatim>\<open>Duration.Minutes\<close>: whole minutes plus the remaining nanoseconds.\<close>

definition dur_minutes :: "duration \<Rightarrow> f64" where
  "dur_minutes d = fadd (f_of_int (d sdiv minute)) (fdiv (f_of_int (d smod minute)) 60000000000)"

definition limiter_Allow ::
  "(f64 \<Rightarrow> int) \<Rightarrow> limiter \<Rightarrow> string \<Rightarrow> string \<Rightarrow> rate_policy \<Rightarrow> gotime \<Rightarrow> limiter \<times> decision" where
  "limiter_Allow oor l tenantID projectID policy now =
     (if RequestsPerMinute policy \<le> 0 \<or> Burst policy \<le> 0
      then (l, \<lparr>Allowed = False, RetryAfter = minute\<rparr>)
      else
        let key = join_colon tenantID projectID;
            l = sweepDue l now;
            s = l ! shardIndex key;
            state = (case sh_buckets s key of
                       None \<Rightarrow> \<lparr>bk_tokens = f_of_int (Burst policy), bk_last = now\<rparr>
                     | Some state \<Rightarrow> state);
            elapsed = dur_minutes (t_sub now (bk_last state));
            elapsed = (if elapsed < 0 then 0 else elapsed);
            tokens = min (f_of_int (Burst policy))
                       (fadd (bk_tokens state) (fmul elapsed (f_of_int (RequestsPerMinute policy))));
            put = (\<lambda>tokens. l[shardIndex key := s\<lparr>sh_buckets := (sh_buckets s)(key \<mapsto>
                     \<lparr>bk_tokens = tokens, bk_last = now\<rparr>)\<rparr>])
        in if 1 \<le> tokens then (put (fsub tokens 1), \<lparr>Allowed = True, RetryAfter = 0\<rparr>)
           else let missing = fsub 1 tokens
                in (put tokens, \<lparr>Allowed = False,
                     RetryAfter = f_to_i64 oor (fmul (fdiv missing (f_of_int (RequestsPerMinute policy)))
                                    (f_of_int minute))\<rparr>))"

subsection \<open>The token meter\<close>

record tpmBucket =
  tb_window :: gotime
  tb_used :: int

type_synonym meter = "(string \<times> tpmBucket) list"

definition scopeKey :: "string \<Rightarrow> string \<Rightarrow> string" where
  "scopeKey tenantID projectID = join_colon tenantID projectID"

text \<open>
  Two instants of the same clock fall into the same minute exactly when their minute number
  agrees; \<^verbatim>\<open>Truncate(time.Minute)\<close> counts from a whole minute as well.
\<close>

definition sameMinute :: "gotime \<Rightarrow> gotime \<Rightarrow> bool" where
  "sameMinute a b \<longleftrightarrow> a div minute = b div minute"

definition nextMinute :: "gotime \<Rightarrow> gotime" where
  "nextMinute now = now div minute * minute + minute"

definition meter_Reserve ::
  "(string \<Rightarrow> string \<Rightarrow> int) option \<Rightarrow> meter \<Rightarrow> string \<Rightarrow> string \<Rightarrow> int \<Rightarrow> gotime
     \<Rightarrow> meter \<times> decision \<times> int" where
  "meter_Reserve policy m tenantID projectID estimated now =
     (let limit = (case policy of None \<Rightarrow> 0 | Some f \<Rightarrow> f tenantID projectID)
      in if limit \<le> 0 \<or> estimated \<le> 0 then (m, \<lparr>Allowed = True, RetryAfter = 0\<rparr>, - 1)
         else
           let key = scopeKey tenantID projectID;
               fresh = \<lparr>tb_window = now, tb_used = 0\<rparr>;
               (m, state) =
                 (case map_of m key of
                    None \<Rightarrow> (AList.update key fresh m, fresh)
                  | Some state \<Rightarrow> if sameMinute (tb_window state) now then (m, state)
                                  else (AList.update key fresh m, fresh))
           in if limit < i64 (tb_used state + estimated)
              then (m, \<lparr>Allowed = False, RetryAfter = t_sub (nextMinute now) now\<rparr>, - 1)
              else let m = AList.update key (state\<lparr>tb_used := i64 (tb_used state + estimated)\<rparr>) m
                   in (m, \<lparr>Allowed = True, RetryAfter = 0\<rparr>, int (length m)))"

definition meter_Reconcile :: "meter \<Rightarrow> string \<Rightarrow> string \<Rightarrow> int \<Rightarrow> int \<Rightarrow> gotime \<Rightarrow> meter" where
  "meter_Reconcile m tenantID projectID estimated actual now =
     (if estimated \<le> 0 \<and> actual \<le> 0 then m
      else let key = scopeKey tenantID projectID
           in case map_of m key of
                None \<Rightarrow> m
              | Some state \<Rightarrow>
                  if \<not> sameMinute (tb_window state) now then m
                  else let used = i64 (i64 (tb_used state - estimated) + actual)
                       in AList.update key (state\<lparr>tb_used := (if used < 0 then 0 else used)\<rparr>) m)"

definition windowState ::
  "(string \<Rightarrow> string \<Rightarrow> int) option \<Rightarrow> meter \<Rightarrow> string \<Rightarrow> string \<Rightarrow> gotime \<times> int \<times> int \<times> bool" where
  "windowState policy m tenantID projectID =
     (let limit = (case policy of None \<Rightarrow> 0 | Some f \<Rightarrow> f tenantID projectID)
      in case map_of m (scopeKey tenantID projectID) of
           None \<Rightarrow> (zero_time, 0, limit, False)
         | Some state \<Rightarrow> (tb_window state, tb_used state, limit, True))"

subsection \<open>One bucket\<close>

text \<open>
  What a call does to the bucket of its scope, apart from the shards: \<open>refilled\<close> is the
  refill, \<open>bucket_of\<close> the bucket a limiter holds for a key.
\<close>

definition refilled :: "rate_policy \<Rightarrow> bucket \<Rightarrow> gotime \<Rightarrow> f64" where
  "refilled policy b now =
     min (f_of_int (Burst policy))
       (fadd (bk_tokens b) (fmul (max 0 (dur_minutes (t_sub now (bk_last b))))
          (f_of_int (RequestsPerMinute policy))))"

definition bucket_of :: "limiter \<Rightarrow> string \<Rightarrow> bucket option" where
  "bucket_of l key = sh_buckets (l ! shardIndex key) key"

definition start_bucket :: "limiter \<Rightarrow> string \<Rightarrow> rate_policy \<Rightarrow> gotime \<Rightarrow> bucket" where
  "start_bucket l key policy now =
     (case bucket_of (sweepDue l now) key of
        None \<Rightarrow> \<lparr>bk_tokens = f_of_int (Burst policy), bk_last = now\<rparr> | Some b \<Rightarrow> b)"

definition valid_policy :: "rate_policy \<Rightarrow> bool" where
  "valid_policy p \<longleftrightarrow> 0 < RequestsPerMinute p \<and> 0 < Burst p"

definition small_policy :: "rate_policy \<Rightarrow> bool" where
  "small_policy p \<longleftrightarrow> valid_policy p \<and> RequestsPerMinute p \<le> 2 ^ 31 \<and> Burst p \<le> 2 ^ 31"

lemma shardIndex_less: "shardIndex key < shardCount"
proof -
  have "unat (w mod 16 :: 32 word) < 16" for w
    using word_mod_less_divisor [of 16 w] by (simp add: word_less_nat_alt)
  then show ?thesis by (simp add: shardIndex_def)
qed

lemma length_sweepDue [simp]: "length (sweepDue l now) = length l"
  by (simp add: sweepDue_def)

lemma bucket_of_sweepDue:
  "length l = shardCount \<Longrightarrow>
   bucket_of (sweepDue l now) key =
     (case bucket_of l key of None \<Rightarrow> None
      | Some b \<Rightarrow> if sweepInterval \<le> t_sub now (sh_lastSweep (l ! shardIndex key))
                     \<and> idleTTL \<le> t_sub now (bk_last b) then None else Some b)"
  using shardIndex_less [of key]
  by (auto simp: bucket_of_def sweepDue_def sweepLocked_def split: option.splits)

lemma limiter_Allow_invalid:
  "\<not> valid_policy p \<Longrightarrow> limiter_Allow oor l t q p now = (l, \<lparr>Allowed = False, RetryAfter = minute\<rparr>)"
  by (auto simp: limiter_Allow_def valid_policy_def)

lemma limiter_Allow_decision:
  assumes "valid_policy p"
  shows "Allowed (snd (limiter_Allow oor l t q p now)) \<longleftrightarrow>
           1 \<le> refilled p (start_bucket l (join_colon t q) p now) now"
  using assms
  by (simp add: limiter_Allow_def valid_policy_def Let_def refilled_def start_bucket_def bucket_of_def max_def not_le not_less)

lemma limiter_Allow_bucket:
  assumes "valid_policy p" and l: "length l = shardCount"
  shows "bucket_of (fst (limiter_Allow oor l t q p now)) key =
           (if key = join_colon t q
            then let r = refilled p (start_bucket l key p now) now
                 in Some \<lparr>bk_tokens = (if 1 \<le> r then fsub r 1 else r), bk_last = now\<rparr>
            else bucket_of (sweepDue l now) key)"
  using assms shardIndex_less [of "join_colon t q"]
  by (cases "shardIndex key = shardIndex (join_colon t q)")
     (auto simp: limiter_Allow_def valid_policy_def Let_def refilled_def start_bucket_def
        bucket_of_def max_def not_le not_less)

lemma length_limiter_Allow [simp]: "length (fst (limiter_Allow oor l t q p now)) = length l"
  by (simp add: limiter_Allow_def Let_def)

subsection \<open>Rounding of the refill\<close>

lemma sdiv_minute: "0 \<le> d \<Longrightarrow> d sdiv minute = d div minute \<and> d smod minute = d mod minute"
  by (cases "d = 0") (auto simp: signed_divide_int_def signed_modulo_int_def sgn_if)

lemma dur_minutes_nonneg: "0 \<le> d \<Longrightarrow> 0 \<le> dur_minutes d"
  by (simp add: dur_minutes_def fadd_def fdiv_def sdiv_minute fl_nonneg f_of_int_nonneg)

lemma dur_minutes_upper:
  assumes "0 \<le> d" and "d < 2 ^ 63"
  shows "dur_minutes d \<le> of_int d / 60000000000 * (1 + 1 / 2 ^ 53) ^ 2 + 3 * ftiny"
proof -
  define q r where "q = d div minute" and "r = d mod minute"
  have q: "0 \<le> q" "q \<le> 2 ^ 53" and r: "0 \<le> r" "r \<le> 2 ^ 53" and d: "d = q * minute + r"
    using assms by (simp_all add: q_def r_def)
  let ?u = "1 + 1 / 2 ^ 53 :: rat"
  have m: "dur_minutes d = fl (of_int q + fl (of_int r / 60000000000))"
    using assms q r by (simp add: dur_minutes_def fadd_def fdiv_def sdiv_minute q_def r_def)
  have m1: "fl (of_int r / 60000000000) \<le> of_int r / 60000000000 * ?u + ftiny"
    using r by (intro fl_upper) simp
  have "fl (of_int q + fl (of_int r / 60000000000))
          \<le> (of_int q + fl (of_int r / 60000000000)) * ?u + ftiny"
    using q r by (intro fl_upper add_nonneg_nonneg fl_nonneg) auto
  also have "\<dots> \<le> (of_int q * ?u + (of_int r / 60000000000 * ?u + ftiny)) * ?u + ftiny"
    using m1 q by (intro add_right_mono mult_right_mono add_mono) (auto simp: algebra_simps)
  also have "\<dots> = (of_int q + of_int r / 60000000000) * ?u ^ 2 + (1 + ?u) * ftiny"
    by (simp add: algebra_simps power2_eq_square)
  also have "\<dots> \<le> (of_int q + of_int r / 60000000000) * ?u ^ 2 + 3 * ftiny"
    using ftiny_pos by (intro add_left_mono mult_right_mono) auto
  also have "(of_int q + of_int r / 60000000000 :: rat) = of_int d / 60000000000"
    by (simp add: d add_divide_distrib)
  finally show ?thesis by (simp add: m)
qed

text \<open>
  The exact value of a bucket at an instant: what it held plus what it earned, at most the
  burst. A missing bucket is worth a full burst.
\<close>

definition earned :: "rate_policy \<Rightarrow> duration \<Rightarrow> rat" where
  "earned p d = of_int d / 60000000000 * of_int (RequestsPerMinute p)"

definition worth :: "rate_policy \<Rightarrow> bucket option \<Rightarrow> gotime \<Rightarrow> rat" where
  "worth p ob now =
     (case ob of None \<Rightarrow> of_int (Burst p)
      | Some b \<Rightarrow> min (of_int (Burst p)) (bk_tokens b + earned p (now - bk_last b)))"

lemma earned_mono: "valid_policy p \<Longrightarrow> d \<le> e \<Longrightarrow> earned p d \<le> earned p e"
  by (simp add: earned_def valid_policy_def mult_right_mono)

lemma earned_nonneg: "valid_policy p \<Longrightarrow> 0 \<le> d \<Longrightarrow> 0 \<le> earned p d"
  by (simp add: earned_def valid_policy_def)

lemma fmul_earned_upper:
  assumes p: "small_policy p" and d: "0 \<le> d" "d < 2 ^ 63"
  shows "fmul (dur_minutes d) (f_of_int (RequestsPerMinute p))
           \<le> earned p d * (1 + 1 / 2 ^ 53) ^ 3 + 2 ^ 34 * ftiny"
proof -
  let ?u = "1 + 1 / 2 ^ 53 :: rat" and ?R = "of_int (RequestsPerMinute p) :: rat"
  have R: "0 \<le> ?R" "?R \<le> 2 ^ 31" "f_of_int (RequestsPerMinute p) = ?R"
    using p of_int_le_iff [of "RequestsPerMinute p" "2 ^ 31", where 'a = rat]
    by (auto simp: small_policy_def valid_policy_def)
  have "fmul (dur_minutes d) ?R \<le> dur_minutes d * ?R * ?u + ftiny"
    unfolding fmul_def using R d by (intro fl_upper mult_nonneg_nonneg dur_minutes_nonneg)
  also have "\<dots> \<le> (of_int d / 60000000000 * ?u ^ 2 + 3 * ftiny) * ?R * ?u + ftiny"
    using R d by (intro add_right_mono mult_right_mono dur_minutes_upper) auto
  also have "\<dots> = earned p d * ?u ^ 3 + (3 * ?R * ?u + 1) * ftiny"
    by (simp add: earned_def algebra_simps power2_eq_square power3_eq_cube)
  also have "\<dots> \<le> earned p d * ?u ^ 3 + 2 ^ 34 * ftiny"
    using R ftiny_pos by (intro add_left_mono mult_right_mono) auto
  finally show ?thesis by (simp add: R)
qed

lemma refilled_bounds:
  assumes p: "small_policy p" and b: "0 \<le> bk_tokens b"
  shows "0 \<le> refilled p b now" and "refilled p b now \<le> of_int (Burst p)"
proof -
  have B: "f_of_int (Burst p) = of_int (Burst p)" "0 < Burst p" "0 < RequestsPerMinute p"
    using p by (auto simp: small_policy_def valid_policy_def)
  have "0 \<le> fmul (max 0 (dur_minutes (t_sub now (bk_last b)))) (f_of_int (RequestsPerMinute p))"
    unfolding fmul_def using B by (intro fl_nonneg mult_nonneg_nonneg f_of_int_nonneg) auto
  then show "0 \<le> refilled p b now"
    using B b unfolding refilled_def fadd_def by (auto intro!: fl_nonneg)
  show "refilled p b now \<le> of_int (Burst p)"
    using B by (simp add: refilled_def)
qed

lemma refilled_upper:
  assumes p: "small_policy p" and b: "0 \<le> bk_tokens b" "bk_last b \<le> now"
  shows "refilled p b now \<le> worth p (Some b) now + 6 / 2 ^ 22"
proof (cases "of_int (Burst p) \<le> bk_tokens b + earned p (now - bk_last b)")
  case True
  then have "worth p (Some b) now = of_int (Burst p)" by (simp add: worth_def)
  then show ?thesis using refilled_bounds(2) [OF p b(1)] by (simp add: add_increasing2)
next
  case False
  define d where "d = t_sub now (bk_last b)"
  have d: "0 \<le> d" "d < 2 ^ 63" "d \<le> now - bk_last b"
    using b by (auto simp: d_def t_sub_def)
  have v: "valid_policy p" using p by (simp add: small_policy_def)
  let ?u = "1 + 1 / 2 ^ 53 :: rat" and ?E = "earned p d"
    and ?m = "fmul (dur_minutes d) (f_of_int (RequestsPerMinute p))"
  have E: "0 \<le> ?E" "?E \<le> earned p (now - bk_last b)"
    using d v by (auto intro: earned_nonneg earned_mono)
  have a: "bk_tokens b + ?E \<le> 2 ^ 31"
  proof -
    have "of_int (Burst p) \<le> (2 ^ 31 :: rat)"
      using p of_int_le_iff [of "Burst p" "2 ^ 31", where 'a = rat] by (simp add: small_policy_def)
    with False E show ?thesis by linarith
  qed
  have m0: "0 \<le> ?m" unfolding fmul_def
    using d v by (intro fl_nonneg mult_nonneg_nonneg dur_minutes_nonneg f_of_int_nonneg)
      (auto simp: valid_policy_def)
  have "fadd (bk_tokens b) ?m \<le> (bk_tokens b + ?m) * ?u + ftiny"
    unfolding fadd_def using m0 b by (intro fl_upper) simp
  also have "\<dots> \<le> (bk_tokens b * ?u ^ 3 + (?E * ?u ^ 3 + 2 ^ 34 * ftiny)) * ?u + ftiny"
  proof (intro add_right_mono mult_right_mono add_mono)
    show "bk_tokens b \<le> bk_tokens b * ?u ^ 3" using b by (intro mult_left_le_one_le mult_le_cancel_left1 [THEN iffD2]) auto
  qed (use fmul_earned_upper [OF p d(1,2)] in auto)
  also have "\<dots> = (bk_tokens b + ?E) * ?u ^ 4 + (2 ^ 34 * ?u + 1) * ftiny"
    by (simp add: algebra_simps power3_eq_cube power4_eq_xxxx)
  also have "\<dots> \<le> (bk_tokens b + ?E) * (1 + 5 / 2 ^ 53) + 2 ^ 35 * ftiny"
    using b E ftiny_pos by (intro add_mono mult_left_mono mult_right_mono) (auto simp: power4_eq_xxxx)
  also have "\<dots> = bk_tokens b + ?E + (bk_tokens b + ?E) * (5 / 2 ^ 53) + 2 ^ 35 * ftiny"
    by (simp only: distrib_left mult_1_right)
  also have "\<dots> \<le> bk_tokens b + ?E + 2 ^ 31 * (5 / 2 ^ 53) + 1 / 2 ^ 65"
    using a ftiny_small by (intro add_mono mult_right_mono) auto
  also have "\<dots> \<le> bk_tokens b + ?E + 6 / 2 ^ 22" by simp
  finally have "fadd (bk_tokens b) ?m \<le> bk_tokens b + ?E + 6 / 2 ^ 22" .
  moreover have "refilled p b now \<le> fadd (bk_tokens b) ?m"
    using d by (simp add: refilled_def dur_minutes_nonneg flip: d_def)
  moreover have "worth p (Some b) now = bk_tokens b + earned p (now - bk_last b)"
    using False by (simp add: worth_def)
  ultimately show ?thesis using E by linarith
qed

subsection \<open>Sequences of calls\<close>

record rpm_call =
  rc_tenant :: string
  rc_project :: string
  rc_policy :: rate_policy
  rc_now :: gotime

abbreviation rc_key :: "rpm_call \<Rightarrow> string" where
  "rc_key c \<equiv> join_colon (rc_tenant c) (rc_project c)"

abbreviation rc_allow :: "(f64 \<Rightarrow> int) \<Rightarrow> limiter \<Rightarrow> rpm_call \<Rightarrow> limiter \<times> decision" where
  "rc_allow oor l c \<equiv> limiter_Allow oor l (rc_tenant c) (rc_project c) (rc_policy c) (rc_now c)"

text \<open>How many calls of one scope a sequence of calls of all scopes admits.\<close>

fun admitted :: "(f64 \<Rightarrow> int) \<Rightarrow> string \<Rightarrow> limiter \<Rightarrow> rpm_call list \<Rightarrow> nat" where
  "admitted oor key l [] = 0"
| "admitted oor key l (c # cs) =
     (let r = rc_allow oor l c
      in (if rc_key c = key \<and> Allowed (snd r) then 1 else 0) + admitted oor key (fst r) cs)"

definition bucket_ok :: "bucket option \<Rightarrow> gotime \<Rightarrow> bool" where
  "bucket_ok ob now \<longleftrightarrow> (case ob of None \<Rightarrow> True | Some b \<Rightarrow> 0 \<le> bk_tokens b \<and> bk_last b \<le> now)"

lemma bucket_ok_later: "bucket_ok ob now \<Longrightarrow> now \<le> now' \<Longrightarrow> bucket_ok ob now'"
  by (auto simp: bucket_ok_def split: option.splits)

lemma bucket_ok_sweep:
  "length l = shardCount \<Longrightarrow> bucket_ok (bucket_of l key) now \<Longrightarrow>
   bucket_ok (bucket_of (sweepDue l now') key) now"
  by (auto simp: bucket_ok_def bucket_of_sweepDue split: option.splits if_splits)

lemma worth_advance:
  assumes "valid_policy p" and "now \<le> now'"
  shows "worth p ob now' \<le> worth p ob now + earned p (now' - now)"
proof (cases ob)
  case None
  then show ?thesis using earned_nonneg [OF assms(1), of "now' - now"] assms(2)
    by (simp add: worth_def)
next
  case (Some b)
  have "earned p (now' - bk_last b) = earned p (now - bk_last b) + earned p (now' - now)"
    by (simp add: earned_def diff_divide_distrib algebra_simps)
  moreover have "0 \<le> earned p (now' - now)"
    using assms by (simp add: earned_nonneg)
  ultimately show ?thesis by (simp add: worth_def Some)
qed

text \<open>Evicting an idle bucket gives nothing away when the idle time earns a full burst.\<close>

lemma worth_sweep:
  assumes p: "valid_policy p" "Burst p \<le> 10 * RequestsPerMinute p" and l: "length l = shardCount"
    and ok: "bucket_ok (bucket_of l key) now"
  shows "worth p (bucket_of (sweepDue l now) key) now \<le> worth p (bucket_of l key) now"
proof -
  have "of_int (Burst p) \<le> bk_tokens b + earned p (now - bk_last b)"
    if "bucket_of l key = Some b" and idle: "idleTTL \<le> t_sub now (bk_last b)" for b
  proof -
    have "idleTTL \<le> now - bk_last b" using idle by (simp add: t_sub_def)
    then have "earned p idleTTL \<le> earned p (now - bk_last b)"
      using p by (intro earned_mono) auto
    moreover have "of_int (Burst p) \<le> earned p idleTTL"
      using p of_int_le_iff [of "Burst p" "10 * RequestsPerMinute p", where 'a = rat]
      by (simp add: earned_def)
    ultimately show ?thesis using that ok by (simp add: bucket_ok_def)
  qed
  then show ?thesis
    by (auto simp: bucket_of_sweepDue [OF l] worth_def split: option.splits)
qed

lemma start_bucket_worth:
  assumes "bucket_ok (bucket_of (sweepDue l now) key) now"
    and "small_policy p"
  shows "worth p (Some (start_bucket l key p now)) now = worth p (bucket_of (sweepDue l now) key) now"
    and "0 \<le> bk_tokens (start_bucket l key p now)" and "bk_last (start_bucket l key p now) \<le> now"
  using assms
  by (auto simp: start_bucket_def worth_def earned_def bucket_ok_def small_policy_def valid_policy_def
        f_of_int_nonneg split: option.splits)

lemma fsub_one_upper:
  assumes "1 \<le> r" and "r \<le> 2 ^ 31"
  shows "fsub r 1 \<le> r - 1 + 2 / 2 ^ 22" and "0 \<le> fsub r 1"
proof -
  have "fsub r 1 \<le> (r - 1) * (1 + 1 / 2 ^ 53) + ftiny"
    unfolding fsub_def using assms by (intro fl_upper) simp
  also have "\<dots> = (r - 1) + (r - 1) * (1 / 2 ^ 53) + ftiny"
    by (simp only: distrib_left mult_1_right)
  also have "\<dots> \<le> (r - 1) + 2 ^ 31 * (1 / 2 ^ 53) + 1 / 2 ^ 100"
    using assms ftiny_small by (intro add_mono mult_right_mono) auto
  finally show "fsub r 1 \<le> r - 1 + 2 / 2 ^ 22" by simp
  show "0 \<le> fsub r 1" unfolding fsub_def using assms by (intro fl_nonneg) simp
qed

lemma small_valid: "small_policy p \<Longrightarrow> valid_policy p"
  by (simp add: small_policy_def)

text \<open>One call of the scope: what it takes and what it leaves are covered by the worth.\<close>

lemma own_call_worth:
  fixes oor
  assumes p: "small_policy p" "Burst p \<le> 10 * RequestsPerMinute p" and l: "length l = shardCount"
    and ok: "bucket_ok (bucket_of l (join_colon t q)) now"
  defines "r \<equiv> limiter_Allow oor l t q p now"
  shows "(if Allowed (snd r) then 1 else 0) + worth p (bucket_of (fst r) (join_colon t q)) now
           \<le> worth p (bucket_of l (join_colon t q)) now + 1 / 2 ^ 19"
    and "bucket_ok (bucket_of (fst r) (join_colon t q)) now"
proof -
  let ?k = "join_colon t q" and ?b = "start_bucket l (join_colon t q) p now"
  define x where "x = refilled p ?b now"
  note v = small_valid [OF p(1)]
  have swept: "bucket_ok (bucket_of (sweepDue l now) ?k) now"
    using ok l by (rule bucket_ok_sweep [rotated])
  note sb = start_bucket_worth [OF swept p(1)]
  have x: "0 \<le> x" "x \<le> of_int (Burst p)" "x \<le> worth p (bucket_of l ?k) now + 6 / 2 ^ 22"
    using refilled_bounds [OF p(1) sb(2)] refilled_upper [OF p(1) sb(2,3)]
      worth_sweep [OF v p(2) l ok] sb(1) by (auto simp: x_def)
  have "of_int (Burst p) \<le> (2 ^ 31 :: rat)"
    using p of_int_le_iff [of "Burst p" "2 ^ 31", where 'a = rat] by (simp add: small_policy_def)
  with x have x31: "x \<le> 2 ^ 31" by linarith
  have new: "bucket_of (fst r) ?k = Some \<lparr>bk_tokens = (if 1 \<le> x then fsub x 1 else x), bk_last = now\<rparr>"
    using limiter_Allow_bucket [OF v l] by (simp add: r_def x_def Let_def)
  have adm: "Allowed (snd r) \<longleftrightarrow> 1 \<le> x"
    using limiter_Allow_decision [OF v] by (simp add: r_def x_def)
  show "bucket_ok (bucket_of (fst r) ?k) now"
    using x fsub_one_upper(2) [OF _ x31] by (simp add: new bucket_ok_def)
  have "worth p (bucket_of (fst r) ?k) now \<le> (if 1 \<le> x then fsub x 1 else x)"
    by (simp add: new worth_def earned_def)
  then show "(if Allowed (snd r) then 1 else 0) + worth p (bucket_of (fst r) ?k) now
               \<le> worth p (bucket_of l ?k) now + 1 / 2 ^ 19"
    using x(3) fsub_one_upper(1) [OF _ x31] by (auto simp: adm split: if_splits)
qed

text \<open>A call of another scope can only evict.\<close>

lemma other_call_worth:
  fixes oor p'
  assumes p: "valid_policy p" "Burst p \<le> 10 * RequestsPerMinute p" and l: "length l = shardCount"
    and ok: "bucket_ok (bucket_of l key) now" and other: "key \<noteq> join_colon t q"
  defines "r \<equiv> limiter_Allow oor l t q p' now"
  shows "worth p (bucket_of (fst r) key) now \<le> worth p (bucket_of l key) now"
    and "bucket_ok (bucket_of (fst r) key) now"
proof -
  have "bucket_of (fst r) key = bucket_of l key \<or> bucket_of (fst r) key = bucket_of (sweepDue l now) key"
    using limiter_Allow_bucket [OF _ l, of p' oor t q now key] limiter_Allow_invalid [of p' oor l t q now] other
    by (cases "valid_policy p'") (simp_all add: r_def)
  then show "worth p (bucket_of (fst r) key) now \<le> worth p (bucket_of l key) now"
    and "bucket_ok (bucket_of (fst r) key) now"
    using worth_sweep [OF p l ok] ok bucket_ok_sweep [OF l ok] by auto
qed

abbreviation last_now :: "gotime \<Rightarrow> rpm_call list \<Rightarrow> gotime" where
  "last_now t0 cs \<equiv> last (t0 # map rc_now cs)"

abbreviation calls_of :: "string \<Rightarrow> rpm_call list \<Rightarrow> nat" where
  "calls_of key cs \<equiv> length (filter (\<lambda>c. rc_key c = key) cs)"

lemma worth_nonneg: "valid_policy p \<Longrightarrow> bucket_ok ob now \<Longrightarrow> 0 \<le> worth p ob now"
  using earned_nonneg [of p]
  by (auto simp: worth_def bucket_ok_def valid_policy_def split: option.splits)

lemma worth_le_burst: "worth p ob now \<le> of_int (Burst p)"
  by (auto simp: worth_def split: option.splits)

lemma admitted_worth:
  assumes p: "small_policy p" "Burst p \<le> 10 * RequestsPerMinute p"
  shows "length l = shardCount \<Longrightarrow> bucket_ok (bucket_of l key) t0 \<Longrightarrow> sorted (t0 # map rc_now cs) \<Longrightarrow>
     (\<forall>c \<in> set cs. rc_key c = key \<longrightarrow> rc_policy c = p) \<Longrightarrow>
     of_nat (admitted oor key l cs)
       \<le> worth p (bucket_of l key) t0 + earned p (last_now t0 cs - t0) + of_nat (calls_of key cs) / 2 ^ 19"
proof (induction cs arbitrary: l t0)
  case Nil
  then show ?case using worth_nonneg [OF small_valid [OF p(1)]] by (simp add: earned_def)
next
  case (Cons c cs)
  define now r where "now = rc_now c" and "r = rc_allow oor l c"
  have t: "t0 \<le> now" "sorted (now # map rc_now cs)" using Cons.prems(3) by (auto simp: now_def)
  note v = small_valid [OF p(1)]
  have ok: "bucket_ok (bucket_of l key) now" using bucket_ok_later [OF Cons.prems(2) t(1)] .
  have IH: "of_nat (admitted oor key (fst r) cs)
      \<le> worth p (bucket_of (fst r) key) now + earned p (last_now now cs - now) + of_nat (calls_of key cs) / 2 ^ 19"
    if "bucket_ok (bucket_of (fst r) key) now"
    using Cons.prems(1,4) that t(2) by (intro Cons.IH) (auto simp: r_def)
  have adv: "worth p (bucket_of l key) now \<le> worth p (bucket_of l key) t0 + earned p (now - t0)"
    by (rule worth_advance [OF v t(1)])
  have split: "earned p (last_now t0 (c # cs) - t0) = earned p (now - t0) + earned p (last_now now cs - now)"
    by (simp add: earned_def now_def diff_divide_distrib algebra_simps)
  show ?case
  proof (cases "rc_key c = key")
    case True
    with Cons.prems(4) have "rc_policy c = p" by simp
    with True own_call_worth [OF p Cons.prems(1), of "rc_tenant c" "rc_project c" now oor] ok IH adv
    show ?thesis unfolding split
      by (auto simp: r_def now_def Let_def add_divide_distrib split: if_splits)
  next
    case False
    with other_call_worth [OF v p(2) Cons.prems(1) ok, of "rc_tenant c" "rc_project c" oor "rc_policy c"] IH adv
    show ?thesis unfolding split by (auto simp: r_def now_def Let_def)
  qed
qed

subsection \<open>Properties of the request limiter\<close>


definition example_policy :: rate_policy where
  "example_policy = \<lparr>RequestsPerMinute = 60, Burst = 2\<rparr>"

definition example_calls :: "rpm_call list" where
  "example_calls = map (\<lambda>now. \<lparr>rc_tenant = ''t'', rc_project = ''p'', rc_policy = example_policy,
     rc_now = now\<rparr>) [0, 0, 0, second]"


lemma start_bucket_active:
  assumes l: "length l = shardCount" and b: "bucket_of l key = Some b" and a: "t_sub now (bk_last b) < idleTTL"
  shows "start_bucket l key p now = b"
  using a by (simp add: start_bucket_def bucket_of_sweepDue [OF l] b)

lemma other_call_bucket:
  assumes l: "length l = shardCount" and b: "bucket_of l key = Some b"
    and a: "t_sub now (bk_last b) < idleTTL" and "key \<noteq> join_colon t q"
  shows "bucket_of (fst (limiter_Allow oor l t q p now)) key = Some b"
  using assms by (cases "valid_policy p")
    (simp_all add: limiter_Allow_bucket limiter_Allow_invalid bucket_of_sweepDue)

lemma limiter_Allow_snd:
  assumes "valid_policy p"
  shows "snd (limiter_Allow oor l t q p now) =
     (let r = refilled p (start_bucket l (join_colon t q) p now) now
      in if 1 \<le> r then \<lparr>Allowed = True, RetryAfter = 0\<rparr>
         else \<lparr>Allowed = False, RetryAfter = f_to_i64 oor (fmul (fdiv (fsub 1 r)
                (f_of_int (RequestsPerMinute p))) (f_of_int minute))\<rparr>)"
  using assms
  by (simp add: limiter_Allow_def valid_policy_def Let_def refilled_def start_bucket_def bucket_of_def max_def not_le not_less)

text \<open>C18: Scope isolation. A call of one tenant and project never changes the decision another
  tenant and project gets, including its retry hint, as long as that scope was active within
  the idle time; tenant identifiers hold no colon.\<close>

theorem limiter_scope_isolation:
  assumes "length l = shardCount" and "colon_free t" and "colon_free t'" and "(t, q) \<noteq> (t', q')"
    and "bucket_of l (join_colon t q) = Some b" and "now' \<le> now" and "t_sub now (bk_last b) < idleTTL"
  shows "snd (limiter_Allow oor (fst (limiter_Allow oor l t' q' p' now')) t q p now)
           = snd (limiter_Allow oor l t q p now)"
proof (cases "valid_policy p")
  case True
  let ?l = "fst (limiter_Allow oor l t' q' p' now')"
  have k: "join_colon t q \<noteq> join_colon t' q'"
    using assms(2,3,4) by (auto simp: join_colon_inj)
  have "t_sub now' (bk_last b) \<le> t_sub now (bk_last b)" using assms(6) by (intro t_sub_mono) auto
  then have "bucket_of ?l (join_colon t q) = Some b"
    using other_call_bucket [OF assms(1,5) _ k] assms(7) by simp
  then show ?thesis
    using assms(1,5,7) by (simp add: limiter_Allow_snd [OF True] start_bucket_active)
qed (simp add: limiter_Allow_invalid)

theorem limiter_scope_isolation_witness:
  "snd (limiter_Allow oor_amd64
          (fst (limiter_Allow oor_amd64 (fst (limiter_Allow oor_amd64 (limiter_New 0) ''a'' ''p'' example_policy 0))
             ''b'' ''p'' example_policy 0)) ''a'' ''p'' example_policy 0)
   = snd (limiter_Allow oor_amd64 (fst (limiter_Allow oor_amd64 (limiter_New 0) ''a'' ''p'' example_policy 0))
            ''a'' ''p'' example_policy 0)"
proof -
  let ?l = "fst (limiter_Allow oor_amd64 (limiter_New 0) ''a'' ''p'' example_policy 0)"
  have "bucket_of ?l (join_colon ''a'' ''p'') \<noteq> None \<and>
        bk_last (the (bucket_of ?l (join_colon ''a'' ''p''))) = 0"
    by (simp add: limiter_Allow_bucket example_policy_def valid_policy_def limiter_New_def Let_def)
  then obtain b where "bucket_of ?l (join_colon ''a'' ''p'') = Some b" and "bk_last b = 0" by auto
  then show ?thesis
    by (intro limiter_scope_isolation [where b = b])
       (simp_all add: limiter_New_def colon_free_def t_sub_def)
qed

subsection \<open>The ledger of one minute\<close>

datatype tpm_call =
    TpmReserve (tc_tenant: string) (tc_project: string) (tc_estimated: int) (tc_now: gotime)
  | TpmReconcile (tc_tenant: string) (tc_project: string) (tc_estimated: int) (tc_actual: int) (tc_now: gotime)

fun tpm_step :: "(string \<Rightarrow> string \<Rightarrow> int) \<Rightarrow> meter \<Rightarrow> tpm_call \<Rightarrow> meter \<times> bool" where
  "tpm_step f m (TpmReserve t q e now) =
     (let r = meter_Reserve (Some f) m t q e now in (fst r, Allowed (fst (snd r))))"
| "tpm_step f m (TpmReconcile t q e a now) = (meter_Reconcile m t q e a now, False)"

text \<open>Tokens a sequence of calls reserves for one scope, and tokens its reconciliations hand back.\<close>

fun tpm_admitted :: "(string \<Rightarrow> string \<Rightarrow> int) \<Rightarrow> string \<Rightarrow> meter \<Rightarrow> tpm_call list \<Rightarrow> int" where
  "tpm_admitted f key m [] = 0"
| "tpm_admitted f key m (c # cs) =
     (let r = tpm_step f m c
      in (if scopeKey (tc_tenant c) (tc_project c) = key \<and> snd r then tc_estimated c else 0)
         + tpm_admitted f key (fst r) cs)"

fun tpm_refund :: "string \<Rightarrow> tpm_call \<Rightarrow> int" where
  "tpm_refund key (TpmReserve t q e now) = 0"
| "tpm_refund key (TpmReconcile t q e a now) = (if scopeKey t q = key then max 0 (e - a) else 0)"

definition window_used :: "meter \<Rightarrow> string \<Rightarrow> gotime \<Rightarrow> int" where
  "window_used m key now =
     (case map_of m key of None \<Rightarrow> 0
      | Some s \<Rightarrow> if sameMinute (tb_window s) now then tb_used s else 0)"

definition small_call :: "tpm_call \<Rightarrow> bool" where
  "small_call c \<longleftrightarrow>
     (case c of TpmReserve t q e now \<Rightarrow> 0 < e \<and> e \<le> 2 ^ 31
      | TpmReconcile t q e a now \<Rightarrow> 0 \<le> e \<and> e \<le> 2 ^ 31 \<and> 0 \<le> a \<and> a \<le> 2 ^ 31)"

lemma sameMinute_eq: "sameMinute a now \<Longrightarrow> sameMinute now' now \<Longrightarrow> sameMinute a now'"
  by (simp add: sameMinute_def)

lemma window_used_same: "sameMinute now now' \<Longrightarrow> window_used m key now = window_used m key now'"
  by (simp add: window_used_def sameMinute_def split: option.splits)

lemma window_used_update:
  "window_used (AList.update k s m) key now =
     (if k = key then (if sameMinute (tb_window s) now then tb_used s else 0) else window_used m key now)"
  by (simp add: window_used_def update_conv' split: option.splits)

lemma meter_Reserve_other:
  "scopeKey t q \<noteq> key \<Longrightarrow> window_used (fst (meter_Reserve pol m t q e now)) key now' = window_used m key now'"
  by (auto simp: meter_Reserve_def Let_def window_used_update split: option.splits prod.splits if_splits)

lemma meter_Reserve_own:
  assumes "0 < f t q" "0 < e" and no_wrap: "in_i64 (window_used m (scopeKey t q) now + e)"
  defines "r \<equiv> meter_Reserve (Some f) m t q e now"
  shows "Allowed (fst (snd r)) \<longleftrightarrow> window_used m (scopeKey t q) now + e \<le> f t q"
    and "window_used (fst r) (scopeKey t q) now =
           window_used m (scopeKey t q) now + (if Allowed (fst (snd r)) then e else 0)"
  using assms
  by (auto simp: meter_Reserve_def window_used_def update_conv' sameMinute_def Let_def split: option.splits)

lemma meter_Reconcile_other:
  "scopeKey t q \<noteq> key \<Longrightarrow> window_used (meter_Reconcile m t q e a now) key now' = window_used m key now'"
  by (auto simp: meter_Reconcile_def Let_def window_used_update split: option.splits)

lemma meter_Reconcile_own:
  assumes "0 \<le> e" "0 \<le> a" "0 \<le> window_used m (scopeKey t q) now"
    and "in_i64 (window_used m (scopeKey t q) now - e)"
    and "in_i64 (window_used m (scopeKey t q) now - e + a)"
  defines "u \<equiv> window_used m (scopeKey t q) now"
  shows "window_used (meter_Reconcile m t q e a now) (scopeKey t q) now \<in> {u, max 0 (u - e + a)}"
  using assms
  by (auto simp: meter_Reconcile_def window_used_def update_conv' sameMinute_def Let_def split: option.splits)

text \<open>The effect of one call on the ledger of a scope, as seen from inside one minute.\<close>

lemma tpm_step_used:
  assumes c: "small_call c" "sameMinute (tc_now c) now" "0 < limit" "limit < 2 ^ 62"
    and f: "scopeKey (tc_tenant c) (tc_project c) = key \<longrightarrow> f (tc_tenant c) (tc_project c) = limit"
    and u: "0 \<le> window_used m key now" "window_used m key now + 2 ^ 31 < 2 ^ 62"
  defines "u \<equiv> window_used m key now" and "r \<equiv> tpm_step f m c"
  defines "u' \<equiv> window_used (fst r) key now"
    and "a \<equiv> (if scopeKey (tc_tenant c) (tc_project c) = key \<and> snd r then tc_estimated c else 0)"
  shows "0 \<le> u'" and "u' \<le> u + 2 ^ 31"
    and "u + a + max limit u' - u' \<le> max limit u + tpm_refund key c"
proof -
  have range: "in_i64 (u + e) \<and> in_i64 (u - e) \<and> in_i64 (u - e + e')"
    if "0 \<le> e" "e \<le> 2 ^ 31" "0 \<le> e'" "e' \<le> 2 ^ 31" for e e' :: int
    using that u by (auto simp: in_i64_def u_def)
  have eqw: "window_used m' key (tc_now c) = window_used m' key now" for m'
    by (rule window_used_same [OF c(2)])
  have "0 \<le> u' \<and> u' \<le> u + 2 ^ 31 \<and> u + a + max limit u' - u' \<le> max limit u + tpm_refund key c"
  proof (cases c)
    case (TpmReserve t q e n)
    show ?thesis
    proof (cases "scopeKey t q = key")
      case True
      with meter_Reserve_own [of f t q e m n] TpmReserve c f u range [of e 0] eqw
      show ?thesis by (auto simp: r_def u'_def a_def u_def small_call_def Let_def)
    next
      case False
      with TpmReserve meter_Reserve_other [OF False, of "Some f" m e n now] u
      show ?thesis by (auto simp: r_def u'_def a_def u_def Let_def)
    qed
  next
    case (TpmReconcile t q e b n)
    show ?thesis
    proof (cases "scopeKey t q = key")
      case True
      have w: "window_used m' key n = window_used m' key now" for m'
        using eqw TpmReconcile by simp
      have "u' \<in> {u, max 0 (u - e + b)}"
        using meter_Reconcile_own [of e b m t q n] TpmReconcile c u range [of e b] True
        by (simp add: r_def u'_def u_def small_call_def w)
      moreover have "a = 0" and "tpm_refund key c = max 0 (e - b)" and "0 \<le> e" "b \<le> 2 ^ 31"
        using TpmReconcile True c by (auto simp: a_def r_def small_call_def)
      ultimately show ?thesis using u(1) by (auto simp: u_def)
    next
      case False
      with TpmReconcile meter_Reconcile_other [OF False, of m e b n now] u
      show ?thesis by (auto simp: r_def u'_def a_def u_def)
    qed
  qed
  then show "0 \<le> u'" and "u' \<le> u + 2 ^ 31"
    and "u + a + max limit u' - u' \<le> max limit u + tpm_refund key c" by auto
qed

lemma tpm_run_bound:
  assumes limit: "0 < limit" "limit < 2 ^ 62"
  shows "\<forall>c \<in> set cs. small_call c \<and> sameMinute (tc_now c) now
           \<and> (scopeKey (tc_tenant c) (tc_project c) = key \<longrightarrow> f (tc_tenant c) (tc_project c) = limit) \<Longrightarrow>
         0 \<le> window_used m key now \<Longrightarrow> window_used m key now + 2 ^ 31 * int (length cs) < 2 ^ 62 \<Longrightarrow>
         window_used m key now + tpm_admitted f key m cs
           \<le> max limit (window_used m key now) + sum_list (map (tpm_refund key) cs)"
proof (induction cs arbitrary: m)
  case Nil
  then show ?case by simp
next
  case (Cons c cs)
  let ?m = "fst (tpm_step f m c)"
  have step: "small_call c" "sameMinute (tc_now c) now"
    "scopeKey (tc_tenant c) (tc_project c) = key \<longrightarrow> f (tc_tenant c) (tc_project c) = limit"
    using Cons.prems(1) by auto
  have room: "window_used m key now + 2 ^ 31 < 2 ^ 62" using Cons.prems(3) by simp
  note s = tpm_step_used [of c now limit key f m, OF step(1,2) limit step(3) Cons.prems(2) room]
  have "window_used ?m key now + 2 ^ 31 * int (length cs) < 2 ^ 62"
    using s(2) Cons.prems(3) by (simp add: distrib_left)
  then have "window_used ?m key now + tpm_admitted f key ?m cs
      \<le> max limit (window_used ?m key now) + sum_list (map (tpm_refund key) cs)"
    using Cons.prems(1) s(1) by (intro Cons.IH) auto
  with s(3) show ?case by (simp add: Let_def)
qed

subsection \<open>Properties of the token meter\<close>

text \<open>C19: The meter never overshoots a minute by concurrent reservations. Over any interleaving,
  within one minute, of reservations and reconciliations of all scopes, what one scope is
  granted on top of what its window already holds is at most its limit plus what its
  reconciliations hand back.\<close>

theorem tpm_window_bound:
  assumes "0 < limit" and "limit < 2 ^ 61" and "length cs \<le> 2 ^ 29"
    and "0 \<le> window_used m key now" and "window_used m key now \<le> limit"
    and "\<forall>c \<in> set cs. small_call c \<and> sameMinute (tc_now c) now
           \<and> (scopeKey (tc_tenant c) (tc_project c) = key \<longrightarrow> f (tc_tenant c) (tc_project c) = limit)"
  shows "window_used m key now + tpm_admitted f key m cs \<le> limit + sum_list (map (tpm_refund key) cs)"
proof -
  have "int (length cs) \<le> 2 ^ 29" using assms(3) by (simp add: nat_le_iff)
  then have "window_used m key now + 2 ^ 31 * int (length cs) < 2 ^ 62"
    using assms(2,5) by simp
  moreover have "limit < 2 ^ 62" using assms(2) by simp
  ultimately have "window_used m key now + tpm_admitted f key m cs
      \<le> max limit (window_used m key now) + sum_list (map (tpm_refund key) cs)"
    using assms by (intro tpm_run_bound) auto
  then show ?thesis using assms(5) by simp
qed

definition tpm_example :: "tpm_call list" where
  "tpm_example = [TpmReserve ''t'' ''p'' 60 0, TpmReserve ''t'' ''p'' 60 0,
     TpmReconcile ''t'' ''p'' 60 20 second, TpmReserve ''t'' ''p'' 70 second]"

theorem tpm_window_bound_witness:
  "tpm_admitted (\<lambda>_ _. 100) (scopeKey ''t'' ''p'') [] tpm_example = 130
   \<and> window_used [] (scopeKey ''t'' ''p'') 0 + tpm_admitted (\<lambda>_ _. 100) (scopeKey ''t'' ''p'') [] tpm_example
       \<le> 100 + sum_list (map (tpm_refund (scopeKey ''t'' ''p'')) tpm_example)"
proof (rule conjI)
  show "tpm_admitted (\<lambda>_ _. 100) (scopeKey ''t'' ''p'') [] tpm_example = 130" by code_simp
  show "window_used [] (scopeKey ''t'' ''p'') 0 + tpm_admitted (\<lambda>_ _. 100) (scopeKey ''t'' ''p'') [] tpm_example
       \<le> 100 + sum_list (map (tpm_refund (scopeKey ''t'' ''p'')) tpm_example)"
    by (rule tpm_window_bound)
       (simp_all add: tpm_example_def small_call_def sameMinute_def window_used_def)
qed

text \<open>C20: A reconciliation is charged to the wrong minute. A request that reserved its tokens in the
  previous minute and reconciles after another request has opened the new window takes its
  estimate out of the new window: of a limit of L tokens, 2 L - a are granted in one minute,
  where a is the usage the late reconciliation reports.\<close>

theorem tpm_rollover_overshoot:
  assumes "0 < a" and "a < L" and "L < 2 ^ 61" and "f t q = L" and "now' div minute = now div minute + 1"
    and "now' div minute = n1 div minute" and "n1 div minute = n2 div minute"
  defines "m \<equiv> fst (tpm_step f [] (TpmReserve t q L now))"
  shows "tpm_admitted f (scopeKey t q) m
           [TpmReserve t q L now', TpmReconcile t q L a n1, TpmReserve t q (L - a) n2] = 2 * L - a"
  using assms
  by (simp add: meter_Reserve_def meter_Reconcile_def sameMinute_def in_i64_def Let_def)

theorem tpm_rollover_overshoot_witness:
  "tpm_admitted (\<lambda>_ _. 100) (scopeKey ''t'' ''p'') (fst (tpm_step (\<lambda>_ _. 100) [] (TpmReserve ''t'' ''p'' 100 (59 * second))))
     [TpmReserve ''t'' ''p'' 100 (61 * second), TpmReconcile ''t'' ''p'' 100 1 (62 * second),
      TpmReserve ''t'' ''p'' 99 (63 * second)] = 199"
  using tpm_rollover_overshoot [of 1 100 "\<lambda>_ _. 100" "''t''" "''p''" "61 * second" "59 * second"
      "62 * second" "63 * second"]
  by simp

text \<open>
  An estimate close to the largest 64-bit integer wraps the sum with what the window already
  holds: it is granted under any limit and leaves the window far below zero.
\<close>

lemma tpm_wraps:
  assumes "window_used m (scopeKey t q) now = u" and "0 < u" and "u < 2 ^ 62" and "0 < f t q"
  shows "Allowed (fst (snd (meter_Reserve (Some f) m t q (2 ^ 63 - 1) now)))"
    and "window_used (fst (meter_Reserve (Some f) m t q (2 ^ 63 - 1) now)) (scopeKey t q) now
           = u - 2 ^ 63 - 1"
proof -
  have "i64 (u + (2 ^ 63 - 1)) = u - 2 ^ 63 - 1"
  proof -
    have "u + (2 ^ 63 - 1) + 2 ^ 63 = (u - 1) + 2 ^ 64" by simp
    then have "(u + (2 ^ 63 - 1) + 2 ^ 63) mod 2 ^ 64 = (u - 1) mod 2 ^ 64"
      by (simp only: mod_add_self2)
    also have "\<dots> = u - 1" using assms by (intro mod_pos_pos_trivial) auto
    finally show ?thesis unfolding i64_def by simp
  qed
  then show "Allowed (fst (snd (meter_Reserve (Some f) m t q (2 ^ 63 - 1) now)))"
    and "window_used (fst (meter_Reserve (Some f) m t q (2 ^ 63 - 1) now)) (scopeKey t q) now
           = u - 2 ^ 63 - 1"
    using assms
    by (auto simp: meter_Reserve_def window_used_def update_conv' sameMinute_def Let_def split: option.splits if_splits)
qed

end
