(* ===== verification/Config.thy ===== *)
theory Config
  imports Credential_Pool "HOL-Library.Sublist"
begin

text \<open>
  The control plane's configuration documents, \<^verbatim>\<open>internal/controlplane/config\<close>: the document, its
  validation, the compilation into a tenant snapshot, and the detection of drift. \<open>url_parse\<close> is
  \<^verbatim>\<open>net/url.Parse\<close> and \<open>fold_case\<close> is \<^verbatim>\<open>strings.ToLower(strings.TrimSpace(s))\<close>; both are parameters.
  Where the document uses a structure that is the same as that of the runtime, the record of the
  snapshot is used.
\<close>

subsection \<open>Documents\<close>

record tenant_defaults =
  ty_AllowedDataRegions :: "string list"
  ty_ResidencyEnforcement :: string

record system_config =
  sy_TenantDefaults :: tenant_defaults
  sy_FileMappingRetentionDays :: int

record tenant_resource =
  tr_ID :: string
  tr_PublicRef :: string
  tr_Status :: string
  tr_SecurityEpoch :: int
  tr_AllowedDataRegions :: "string list"
  tr_ResidencyEnforcement :: string

record cfg_project =
  kp_ID :: string
  kp_TenantID :: string
  kp_Status :: string
  kp_AllowedDataRegions :: "string list"
  kp_ResidencyEnforcement :: string
  kp_AgentDefaultsRequireApproval :: bool

record cfg_provider =
  kv_ID :: string
  kv_TenantID :: string
  kv_OwnerScope :: string
  kv_Type :: string
  kv_Endpoint :: string
  kv_Status :: string

record cfg_credential =
  kc_ID :: string
  kc_ProviderID :: string
  kc_TenantID :: string
  kc_OwnerScope :: string
  kc_SecretRef :: string
  kc_Status :: string

record cfg_deployment =
  kd_ID :: string
  kd_TenantID :: string
  kd_ProviderID :: string
  kd_CredentialID :: string
  kd_PoolID :: string
  kd_UpstreamModel :: string
  kd_DataRegion :: string
  kd_Capabilities :: "string list"
  kd_ContextWindow :: int
  kd_Priority :: int
  kd_LeaseCapacity :: int
  kd_LeaseTTLMS :: int
  kd_Status :: string

record cfg_route_policy =
  kr_ID :: string
  kr_TenantID :: string
  kr_ProjectID :: string
  kr_Strategy :: string
  kr_DeploymentIDs :: "string list"
  kr_Weights :: "(string \<times> int) list"
  kr_ScoreWeights :: "(string \<times> f64) list"
  kr_Version :: int

record cfg_logical_model =
  kl_ID :: string
  kl_TenantID :: string
  kl_Alias :: string
  kl_RoutePolicyID :: string

record cfg_budget_policy =
  kb_ID :: string
  kb_TenantID :: string
  kb_ProjectID :: string
  kb_KeyID :: string
  kb_WindowHours :: int
  kb_TokenLimit :: f64
  kb_Mode :: string
  kb_Consistency :: string

record cfg_credential_pool =
  kq_ID :: string
  kq_TenantID :: string
  kq_ProviderID :: string
  kq_Strategy :: string
  kq_Members :: "pool_member list"

record cfg_drift =
  km_GraceMS :: int
  km_Strict :: bool
  km_SecurityEpoch :: int

record cfg_mcp_server =
  kx_ID :: string
  kx_TenantID :: string
  kx_URL :: string
  kx_Status :: string

record cfg_tool =
  kt_ID :: string
  kt_TenantID :: string
  kt_ServerID :: string
  kt_Name :: string
  kt_DataClassification :: string
  kt_Endpoint :: string
  kt_Status :: string
  kt_Schema :: string
  kt_CapabilityTags :: "string list"

record cfg_tool_policy =
  kz_ToolID :: string
  kz_TenantID :: string
  kz_ProjectID :: string
  kz_AllowedAgentIDs :: "string list"
  kz_Allowed :: bool
  kz_RequireApproval :: bool

record cfg_agent =
  kg_ID :: string
  kg_TenantID :: string
  kg_ProjectID :: string
  kg_Name :: string
  kg_Status :: string
  kg_CurrentVersion :: string
  kg_Capabilities :: "string list"
  kg_RequireApproval :: bool
  kg_ApprovalMode :: string

record cfg_agent_endpoint =
  ke_ID :: string
  ke_TenantID :: string
  ke_AgentID :: string
  ke_Version :: string
  ke_URL :: string
  ke_Protocol :: string
  ke_AuthScheme :: string
  ke_SecretRef :: string
  ke_Headers :: "(string \<times> string) list"
  ke_DataClassification :: string
  ke_Capabilities :: "string list"

record cfg_federated_agent =
  kf_ID :: string
  kf_TenantID :: string
  kf_Name :: string
  kf_ExternalSubject :: string
  kf_TrustBoundary :: string
  kf_Status :: string

record cfg_relationship =
  kh_ID :: string
  kh_TenantID :: string
  kh_ExternalAgentID :: string
  kh_Status :: string
  kh_AssuranceLevel :: string
  kh_HasVerifiedAnchor :: bool
  kh_Direction :: string
  kh_ProjectGrants :: "string list"
  kh_CapabilityGrants :: "string list"
  kh_BoundaryStatus :: string
  kh_ProcessingRegions :: "string list"
  kh_ApprovedVersion :: string

record cfg_guardrail_policy =
  kw_Mode :: string
  kw_Rules :: "guardrail_rule list"
  kw_Judge :: guardrail_judge
  kw_Groundedness :: guardrail_groundedness

record tenant_config =
  tc_SchemaVersion :: string
  tc_Tenant :: tenant_resource
  tc_Projects :: "cfg_project list"
  tc_Providers :: "cfg_provider list"
  tc_Credentials :: "cfg_credential list"
  tc_Deployments :: "cfg_deployment list"
  tc_RoutePolicies :: "cfg_route_policy list"
  tc_LogicalModels :: "cfg_logical_model list"
  tc_BudgetPolicies :: "cfg_budget_policy list"
  tc_CredentialPools :: "cfg_credential_pool list"
  tc_Circuit :: rt_circuit_config
  tc_Drift :: cfg_drift
  tc_AccountingSpool :: spool_policy
  tc_Cache :: cache_policy
  tc_MCPServers :: "cfg_mcp_server list"
  tc_Tools :: "cfg_tool list"
  tc_ToolPolicies :: "cfg_tool_policy list"
  tc_Agents :: "cfg_agent list"
  tc_AgentEndpoints :: "cfg_agent_endpoint list"
  tc_FederatedAgents :: "cfg_federated_agent list"
  tc_FederationRelationships :: "cfg_relationship list"
  tc_Guardrail :: cfg_guardrail_policy

record api_key_record =
  kk_ID :: string
  kk_PublicID :: string
  kk_TenantID :: string
  kk_ProjectID :: string
  kk_Name :: string
  kk_HMACDigest :: string
  kk_PepperVersion :: int
  kk_Fingerprint :: string
  kk_ApplicationID :: string
  kk_AgentID :: string
  kk_ServiceAccountID :: string
  kk_Status :: string
  kk_ExpiresAt :: "gotime option"
  kk_ModelAllowlist :: "string list"
  kk_IPAllowlist :: "string list"
  kk_CreatedAt :: gotime
  kk_KeyCiphertext :: string

subsection \<open>Defaults and capabilities\<close>

definition ApplySystemDefaults :: "system_config \<Rightarrow> tenant_config \<Rightarrow> tenant_config" where
  "ApplySystemDefaults system doc =
     (let t = tc_Tenant doc; d = sy_TenantDefaults system;
          t = (if tr_AllowedDataRegions t = [] \<and> ty_AllowedDataRegions d \<noteq> []
               then t\<lparr>tr_AllowedDataRegions := ty_AllowedDataRegions d\<rparr> else t);
          t = (if tr_ResidencyEnforcement t = '''' then t\<lparr>tr_ResidencyEnforcement := ty_ResidencyEnforcement d\<rparr> else t)
      in doc\<lparr>tc_Tenant := t\<rparr>)"

definition inheritTenantProjectPolicy :: "tenant_resource \<Rightarrow> cfg_project \<Rightarrow> cfg_project" where
  "inheritTenantProjectPolicy t p =
     (let p = (if kp_AllowedDataRegions p = [] \<and> tr_AllowedDataRegions t \<noteq> []
               then p\<lparr>kp_AllowedDataRegions := tr_AllowedDataRegions t\<rparr> else p)
      in if kp_ResidencyEnforcement p = '''' then p\<lparr>kp_ResidencyEnforcement := tr_ResidencyEnforcement t\<rparr> else p)"

definition effectiveAgentRequireApproval :: "cfg_project list \<Rightarrow> cfg_agent \<Rightarrow> bool" where
  "effectiveAgentRequireApproval projects a =
     (if kg_ApprovalMode a = ''inherit_project'' then
        (case last_with kp_ID projects (kg_ProjectID a) of None \<Rightarrow> False | Some p \<Rightarrow> kp_AgentDefaultsRequireApproval p)
      else if kg_ApprovalMode a = ''always'' then True
      else if kg_ApprovalMode a = ''never'' then False
      else kg_RequireApproval a)"

definition leaseTTLSeconds :: "int \<Rightarrow> int" where
  "leaseTTLSeconds ms = (if ms \<le> 0 then 60 else if ms < 1000 then 1 else ms div 1000)"

definition capabilityAliases :: "string \<Rightarrow> string option" where
  "capabilityAliases = map_of
     [(''embeddings'', ''embedding''), (''embed'', ''embedding''), (''multimodal'', ''vision''),
      (''vision-language'', ''vision''), (''vlm'', ''vision''), (''image'', ''vision''),
      (''function_calling'', ''tools''), (''function-calling'', ''tools''), (''tool_calling'', ''tools''),
      (''tool-calling'', ''tools''), (''stt'', ''audio''), (''transcription'', ''audio''), (''translation'', ''audio''),
      (''asr'', ''audio''), (''tts'', ''speech''), (''text-to-speech'', ''speech''), (''speech-synthesis'', ''speech'')]"

definition NormalizeCapability :: "(string \<Rightarrow> string) \<Rightarrow> string \<Rightarrow> string" where
  "NormalizeCapability fold_case raw =
     (let v = fold_case raw in case capabilityAliases v of None \<Rightarrow> v | Some alias \<Rightarrow> alias)"

definition CanonicalCapabilities :: "(string \<Rightarrow> string) \<Rightarrow> string list \<Rightarrow> string list" where
  "CanonicalCapabilities fold_case values =
     foldl (\<lambda>out raw. let v = NormalizeCapability fold_case raw in if v = '''' \<or> v \<in> set out then out else out @ [v]) [] values"

definition CapabilityVocabulary :: "string list" where
  "CapabilityVocabulary = [''chat'', ''vision'', ''reasoning'', ''tools'', ''embedding'', ''rerank'', ''audio'', ''speech'']"

definition KnownCapability :: "string \<Rightarrow> bool" where
  "KnownCapability v \<longleftrightarrow> v \<in> set CapabilityVocabulary"

definition HasCapability :: "(string \<Rightarrow> string) \<Rightarrow> string list \<Rightarrow> string \<Rightarrow> bool" where
  "HasCapability fold_case values want \<longleftrightarrow>
     list_ex (\<lambda>v. NormalizeCapability fold_case v = NormalizeCapability fold_case want) values"

text \<open>\<^verbatim>\<open>strings.Contains\<close>.\<close>

definition str_contains :: "string \<Rightarrow> string \<Rightarrow> bool" where
  "str_contains s sub \<longleftrightarrow> list_ex (prefix sub) (suffixes s)"

definition InferCapabilities :: "(string \<Rightarrow> string) \<Rightarrow> string \<Rightarrow> string list" where
  "InferCapabilities fold_case model =
     (let lower = fold_case model; has = list_ex (str_contains lower)
      in if lower = '''' then [''chat'']
         else if has [''whisper'', ''-asr'', ''transcrib''] then [''audio'']
         else if has [''tts'', ''speech''] then [''speech'']
         else if has [''rerank''] then [''rerank'']
         else if has [''embed'', ''bge-'', ''text-embedding''] then [''embedding'']
         else [''chat'']
              @ (if has [''vision'', ''gpt-4o'', ''gpt-4.1'', ''gpt-5'', ''claude-3'', ''claude-4'', ''gemini'', ''omni''] then [''vision''] else [])
              @ (if has [''o1'', ''o3'', ''o4'', ''reason'', ''deepseek-r''] then [''reasoning''] else []))"

lemma str_contains_iff: "str_contains s sub \<longleftrightarrow> (\<exists>a b. s = a @ sub @ b)"
  by (simp add: str_contains_def list_ex_iff Bex_def prefix_def suffix_def) blast

text \<open>Inferred capabilities are canonical: recognised, and unchanged by a normalisation that leaves
  lower-case tokens alone.\<close>

lemma inferred_known: "list_all KnownCapability (InferCapabilities fold_case model)"
  by (simp add: InferCapabilities_def Let_def KnownCapability_def CapabilityVocabulary_def)

lemma canonical_distinct: "distinct (CanonicalCapabilities fold_case caps) \<and> '''' \<notin> set (CanonicalCapabilities fold_case caps)"
proof -
  let ?f = "\<lambda>out raw. let v = NormalizeCapability fold_case raw in if v = '''' \<or> v \<in> set out then out else out @ [v]"
  have "distinct (foldl ?f acc xs) \<and> '''' \<notin> set (foldl ?f acc xs)" if "distinct acc \<and> '''' \<notin> set acc" for acc xs
    using that by (induction xs arbitrary: acc) (auto simp: Let_def)
  then show ?thesis by (simp add: CanonicalCapabilities_def)
qed

subsection \<open>Validation\<close>

datatype severity = SeverityError | SeverityWarning

record diagnostic =
  dg_Severity :: severity
  dg_Code :: string
  dg_Path :: string
  dg_MessageKey :: string
  dg_Params :: "(string \<times> string) list"

definition add_diag :: "string \<Rightarrow> string \<Rightarrow> (string \<times> string) list \<Rightarrow> diagnostic" where
  "add_diag code path params = \<lparr>dg_Severity = SeverityError, dg_Code = code, dg_Path = path,
     dg_MessageKey = ''config.validation.'' @ code, dg_Params = params\<rparr>"

definition warn_diag :: "string \<Rightarrow> string \<Rightarrow> diagnostic" where
  "warn_diag code path = \<lparr>dg_Severity = SeverityWarning, dg_Code = code, dg_Path = path,
     dg_MessageKey = ''config.validation.'' @ code, dg_Params = []\<rparr>"

text \<open>A check that adds a diagnostic when it fails.\<close>

definition must :: "bool \<Rightarrow> string \<Rightarrow> string \<Rightarrow> diagnostic list" where
  "must ok code path = (if ok then [] else [add_diag code path []])"

text \<open>\<^verbatim>\<open>for i, item := range xs\<close>, with the items before the current one.\<close>

definition each :: "('a list \<Rightarrow> nat \<Rightarrow> 'a \<Rightarrow> diagnostic list) \<Rightarrow> 'a list \<Rightarrow> diagnostic list" where
  "each f xs = concat (map (\<lambda>i. f (take i xs) i (xs ! i)) [0..<length xs])"

text \<open>The map built so far has the identifier.\<close>

definition unique_id :: "('a \<Rightarrow> string) \<Rightarrow> 'a list \<Rightarrow> 'a \<Rightarrow> string \<Rightarrow> diagnostic list" where
  "unique_id ident seen item path =
     (if ident item \<in> ident ` set seen then [add_diag ''duplicate_resource_id'' (path @ ''/id'') [(''id'', ident item)]] else [])"

definition has_id :: "('a \<Rightarrow> string) \<Rightarrow> 'a list \<Rightarrow> string \<Rightarrow> bool" where
  "has_id ident xs k \<longleftrightarrow> k \<in> ident ` set xs"

record parsed_url =
  u_Scheme :: string
  u_HasUser :: bool
  u_Host :: string
  u_Opaque :: string
  u_Path :: string

type_synonym url_parser = "string \<Rightarrow> parsed_url option"

definition validSecretRef :: "url_parser \<Rightarrow> string \<Rightarrow> bool" where
  "validSecretRef url_parse ref =
     (case url_parse ref of None \<Rightarrow> False
      | Some u \<Rightarrow> u_Scheme u \<noteq> '''' \<and> \<not> u_HasUser u \<and> (u_Host u \<noteq> '''' \<or> u_Opaque u \<noteq> '''' \<or> u_Path u \<noteq> ''''))"

abbreviation routeStrategies :: "string list" where
  "routeStrategies \<equiv> [''priority'', ''weighted'', ''round_robin'', ''soft'']"
abbreviation poolStrategies :: "string list" where
  "poolStrategies \<equiv> [''round_robin'', ''weighted'', ''least_inflight'', ''quota_aware'']"
abbreviation budgetModes :: "string list" where
  "budgetModes \<equiv> [''hard'', ''soft'']"
abbreviation budgetConsistency :: "string list" where
  "budgetConsistency \<equiv> [''regional'', ''global_soft'', ''global_hard'']"
abbreviation federationRelationshipDirections :: "string list" where
  "federationRelationshipDirections \<equiv> ['''', ''outbound'', ''inbound'', ''bidirectional'']"
abbreviation agentApprovalModes :: "string list" where
  "agentApprovalModes \<equiv> ['''', ''inherit_project'', ''always'', ''never'']"
abbreviation federationBoundaryStatuses :: "string list" where
  "federationBoundaryStatuses \<equiv> ['''', ''unknown'', ''declared'', ''contractually_bound'']"
abbreviation endpointAuthSchemes :: "string list" where
  "endpointAuthSchemes \<equiv> ['''', ''bearer'', ''x-api-key'']"

text \<open>The groups of checks, in the order of the code. \<open>t\<close> is the identifier of the tenant.\<close>

definition in_tenant :: "string \<Rightarrow> string \<Rightarrow> string \<Rightarrow> diagnostic list" where
  "in_tenant t tenantID path = must (tenantID = t) ''tenant_scope_mismatch'' (path @ ''/tenant_id'')"

definition validate_projects :: "string \<Rightarrow> cfg_project list \<Rightarrow> diagnostic list" where
  "validate_projects t = each (\<lambda>seen i item.
     let path = ''/projects/'' @ show_nat i
     in unique_id kp_ID seen item path @ in_tenant t (kp_TenantID item) path)"

definition validate_providers :: "string \<Rightarrow> cfg_provider list \<Rightarrow> diagnostic list" where
  "validate_providers t = each (\<lambda>seen i item.
     let path = ''/providers/'' @ show_nat i
     in unique_id kv_ID seen item path
        @ must (kv_OwnerScope item = ''SYSTEM_SHARED'' \<and> kv_TenantID item = ''''
                \<or> kv_OwnerScope item = ''TENANT_PRIVATE'' \<and> kv_TenantID item = t)
            ''provider_scope_invalid'' (path @ ''/owner_scope''))"

definition validate_credentials :: "url_parser \<Rightarrow> cfg_provider list \<Rightarrow> cfg_credential list \<Rightarrow> diagnostic list" where
  "validate_credentials url_parse providers = each (\<lambda>seen i item.
     let path = ''/credentials/'' @ show_nat i
     in unique_id kc_ID seen item path
        @ (case last_with kv_ID providers (kc_ProviderID item) of
             None \<Rightarrow> [add_diag ''provider_reference_missing'' (path @ ''/provider_id'') []]
           | Some v \<Rightarrow> must (kc_OwnerScope item = kv_OwnerScope v \<and> kc_TenantID item = kv_TenantID v)
               ''credential_scope_invalid'' (path @ ''/owner_scope''))
        @ must (validSecretRef url_parse (kc_SecretRef item)) ''secret_ref_invalid'' (path @ ''/secret_ref''))"

definition validate_deployments ::
  "string \<Rightarrow> cfg_provider list \<Rightarrow> cfg_credential list \<Rightarrow> cfg_deployment list \<Rightarrow> diagnostic list" where
  "validate_deployments t providers credentials = each (\<lambda>seen i item.
     let path = ''/deployments/'' @ show_nat i
     in unique_id kd_ID seen item path @ in_tenant t (kd_TenantID item) path
        @ must (has_id kv_ID providers (kd_ProviderID item)) ''provider_reference_missing'' (path @ ''/provider_id'')
        @ must (case last_with kc_ID credentials (kd_CredentialID item) of None \<Rightarrow> False
                | Some c \<Rightarrow> kc_ProviderID c = kd_ProviderID item)
            ''credential_reference_invalid'' (path @ ''/credential_id''))"

definition validate_candidates ::
  "string \<Rightarrow> cfg_project option \<Rightarrow> cfg_deployment list \<Rightarrow> string list \<Rightarrow> diagnostic list" where
  "validate_candidates path project deployments = each (\<lambda>_ i ident.
     let p = path @ ''/deployment_ids/'' @ show_nat i
     in case last_with kd_ID deployments ident of
          None \<Rightarrow> [add_diag ''deployment_reference_missing'' p []]
        | Some d \<Rightarrow>
            must (case project of None \<Rightarrow> True
                  | Some j \<Rightarrow> kp_ResidencyEnforcement j = ''strict'' \<longrightarrow> kd_DataRegion d \<in> set (kp_AllowedDataRegions j))
              ''data_residency_violation'' p)"

definition has_enabled :: "cfg_deployment list \<Rightarrow> string list \<Rightarrow> bool" where
  "has_enabled deployments ids \<longleftrightarrow>
     list_ex (\<lambda>ident. case last_with kd_ID deployments ident of None \<Rightarrow> False | Some d \<Rightarrow> kd_Status d = ''enabled'') ids"

definition validate_routes ::
  "string \<Rightarrow> cfg_project list \<Rightarrow> cfg_deployment list \<Rightarrow> cfg_route_policy list \<Rightarrow> diagnostic list" where
  "validate_routes t projects deployments = each (\<lambda>seen i item.
     let path = ''/route_policies/'' @ show_nat i
     in unique_id kr_ID seen item path @ in_tenant t (kr_TenantID item) path
        @ must (kr_ProjectID item = '''' \<or> has_id kp_ID projects (kr_ProjectID item)) ''project_reference_missing'' (path @ ''/project_id'')
        @ must (kr_Strategy item \<in> set routeStrategies) ''route_strategy_invalid'' (path @ ''/strategy'')
        @ validate_candidates path (last_with kp_ID projects (kr_ProjectID item)) deployments (kr_DeploymentIDs item)
        @ must (has_enabled deployments (kr_DeploymentIDs item)) ''route_has_no_eligible_deployment'' (path @ ''/deployment_ids''))"

definition validate_logical_models :: "string \<Rightarrow> cfg_route_policy list \<Rightarrow> cfg_logical_model list \<Rightarrow> diagnostic list" where
  "validate_logical_models t routes models = each (\<lambda>seen i item.
     let path = ''/logical_models/'' @ show_nat i
     in (if kl_ID item \<in> kl_ID ` set seen \<or> kl_Alias item \<in> kl_Alias ` set seen
         then [add_diag ''duplicate_resource_id'' (path @ ''/id'') [(''id'', kl_ID item)]] else [])
        @ in_tenant t (kl_TenantID item) path
        @ must (has_id kr_ID routes (kl_RoutePolicyID item)) ''route_reference_missing'' (path @ ''/route_policy_id'')) models
     @ (if models = [] then [warn_diag ''no_logical_models'' ''/logical_models''] else [])"

definition validate_budgets :: "string \<Rightarrow> cfg_project list \<Rightarrow> cfg_budget_policy list \<Rightarrow> diagnostic list" where
  "validate_budgets t projects = each (\<lambda>seen i item.
     let path = ''/budget_policies/'' @ show_nat i
     in unique_id kb_ID seen item path @ in_tenant t (kb_TenantID item) path
        @ must (0 < kb_WindowHours item \<and> 0 \<le> kb_TokenLimit item \<and> kb_Mode item \<in> set budgetModes) ''budget_policy_invalid'' path
        @ must (kb_Consistency item = '''' \<or> kb_Consistency item \<in> set budgetConsistency) ''budget_consistency_invalid'' (path @ ''/consistency'')
        @ must (kb_ProjectID item = '''' \<or> has_id kp_ID projects (kb_ProjectID item)) ''project_reference_missing'' (path @ ''/project_id''))"

definition validateSpoolPolicy :: "spool_policy \<Rightarrow> diagnostic list" where
  "validateSpoolPolicy p =
     (if sp_Mode p = '''' then []
      else if sp_Mode p \<notin> set budgetModes then [add_diag ''spool_policy_invalid'' ''/accounting_spool/mode'' []]
      else if sp_WarnThreshold p < 0 \<or> sp_CriticalThreshold p < 0 \<or> sp_HardThreshold p < 0 \<or> sp_QuotaBytes p < 0
      then [add_diag ''spool_policy_invalid'' ''/accounting_spool'' []]
      else must (\<not> (0 < sp_WarnThreshold p \<and> 0 < sp_CriticalThreshold p \<and> sp_CriticalThreshold p < sp_WarnThreshold p))
             ''spool_threshold_order'' ''/accounting_spool''
           @ must (\<not> (0 < sp_CriticalThreshold p \<and> 0 < sp_HardThreshold p \<and> sp_HardThreshold p < sp_CriticalThreshold p))
             ''spool_threshold_order'' ''/accounting_spool'')"

definition validateCachePolicy :: "cache_policy \<Rightarrow> diagnostic list" where
  "validateCachePolicy p =
     must (\<not> (cp_Enabled p \<and> (cp_TTLSeconds p < 0 \<or> cp_NamespaceVersion p < 0 \<or> cp_MaxTemperature p < 0)))
       ''cache_policy_invalid'' ''/cache''
     @ must (\<not> (sm_Enabled (cp_Semantic p)
                \<and> (\<not> cp_Enabled p \<or> sm_Model (cp_Semantic p) = '''' \<or> sm_Threshold (cp_Semantic p) < 0 \<or> 1 < sm_Threshold (cp_Semantic p))))
       ''cache_policy_invalid'' ''/cache/semantic''"

definition validateGuardrailPolicy :: "cfg_guardrail_policy \<Rightarrow> diagnostic list" where
  "validateGuardrailPolicy p =
     must (\<not> (gj_Enabled (kw_Judge p)
              \<and> (gj_Model (kw_Judge p) = '''' \<or> gj_Action (kw_Judge p) \<notin> {'''', ''block'', ''mark''})))
       ''guardrail_policy_invalid'' ''/guardrail/judge''
     @ must (\<not> (gg_Enabled (kw_Groundedness p) \<and> (gg_MinOverlap (kw_Groundedness p) \<le> 0 \<or> 1 < gg_MinOverlap (kw_Groundedness p))))
       ''guardrail_policy_invalid'' ''/guardrail/groundedness''"

definition validate_mcp_servers :: "string \<Rightarrow> cfg_mcp_server list \<Rightarrow> diagnostic list" where
  "validate_mcp_servers t = each (\<lambda>_ i item.
     let path = ''/mcp_servers/'' @ show_nat i
     in in_tenant t (kx_TenantID item) path
        @ must (kx_ID item \<noteq> '''' \<and> kx_URL item \<noteq> '''') ''mcp_server_invalid'' path)"

definition validate_tools :: "string \<Rightarrow> cfg_mcp_server list \<Rightarrow> cfg_tool list \<Rightarrow> diagnostic list" where
  "validate_tools t servers = each (\<lambda>_ i item.
     let path = ''/tools/'' @ show_nat i
     in in_tenant t (kt_TenantID item) path
        @ must (kt_ID item \<noteq> '''' \<and> kt_Name item \<noteq> '''' \<and> has_id kx_ID servers (kt_ServerID item)) ''tool_invalid'' path)"

definition validate_tool_policies ::
  "string \<Rightarrow> cfg_project list \<Rightarrow> cfg_tool list \<Rightarrow> cfg_tool_policy list \<Rightarrow> diagnostic list" where
  "validate_tool_policies t projects tools = each (\<lambda>_ i item.
     let path = ''/tool_policies/'' @ show_nat i
     in in_tenant t (kz_TenantID item) path
        @ must (has_id kt_ID tools (kz_ToolID item)) ''tool_reference_missing'' (path @ ''/tool_id'')
        @ must (has_id kp_ID projects (kz_ProjectID item)) ''project_reference_missing'' (path @ ''/project_id''))"

definition validate_agents :: "string \<Rightarrow> cfg_project list \<Rightarrow> cfg_agent list \<Rightarrow> diagnostic list" where
  "validate_agents t projects = each (\<lambda>_ i item.
     let path = ''/agents/'' @ show_nat i
     in in_tenant t (kg_TenantID item) path
        @ must (kg_ID item \<noteq> '''' \<and> kg_Name item \<noteq> '''') ''agent_invalid'' path
        @ must (has_id kp_ID projects (kg_ProjectID item)) ''project_reference_missing'' (path @ ''/project_id'')
        @ must (kg_ApprovalMode item \<in> set agentApprovalModes) ''agent_approval_mode_invalid'' (path @ ''/approval_mode''))"

definition validateAgentEndpoints :: "url_parser \<Rightarrow> string \<Rightarrow> cfg_agent_endpoint list \<Rightarrow> diagnostic list" where
  "validateAgentEndpoints url_parse t = each (\<lambda>_ i item.
     let path = ''/agent_endpoints/'' @ show_nat i
     in in_tenant t (ke_TenantID item) path
        @ must (ke_ID item \<noteq> '''' \<and> ke_AgentID item \<noteq> '''' \<and> ke_URL item \<noteq> '''' \<and> ke_Protocol item \<noteq> '''') ''agent_endpoint_invalid'' path
        @ must (case url_parse (ke_URL item) of None \<Rightarrow> False
                | Some u \<Rightarrow> u_Scheme u \<in> {''http'', ''https''} \<and> u_Host u \<noteq> '''') ''agent_endpoint_url_invalid'' (path @ ''/url'')
        @ must (ke_SecretRef item = '''' \<or> validSecretRef url_parse (ke_SecretRef item)) ''secret_ref_invalid'' (path @ ''/secret_ref'')
        @ must (ke_AuthScheme item \<in> set endpointAuthSchemes) ''agent_endpoint_auth_invalid'' (path @ ''/auth_scheme'')
        @ must (ke_SecretRef item = '''' \<or> ke_AuthScheme item \<noteq> '''') ''agent_endpoint_auth_invalid'' (path @ ''/auth_scheme'')
        @ must (ke_AuthScheme item = '''' \<or> ke_SecretRef item \<noteq> '''') ''agent_endpoint_auth_invalid'' (path @ ''/secret_ref''))"

definition validateFederationRelationships :: "cfg_relationship list \<Rightarrow> diagnostic list" where
  "validateFederationRelationships = each (\<lambda>_ i item.
     let path = ''/federation_relationships/'' @ show_nat i
     in (if kh_Direction item \<in> set federationRelationshipDirections then []
         else [warn_diag ''federation_direction_invalid'' (path @ ''/direction'')])
        @ (if kh_BoundaryStatus item \<in> set federationBoundaryStatuses then []
           else [warn_diag ''federation_boundary_status_invalid'' (path @ ''/boundary_status'')]))"

definition validate_members ::
  "string \<Rightarrow> cfg_provider option \<Rightarrow> cfg_credential list \<Rightarrow> pool_member list \<Rightarrow> diagnostic list" where
  "validate_members path provider credentials = each (\<lambda>_ i member.
     let p = path @ ''/members/'' @ show_nat i
     in case last_with kc_ID credentials (pm_CredentialID member) of
          None \<Rightarrow> [add_diag ''credential_reference_missing'' p []]
        | Some c \<Rightarrow>
            must (case provider of None \<Rightarrow> True | Some v \<Rightarrow> kc_ProviderID c = kv_ID v) ''pool_member_provider_mismatch'' p
            @ must (0 \<le> pm_Weight member) ''pool_member_weight_invalid'' p)"

definition validate_pool ::
  "string \<Rightarrow> cfg_provider list \<Rightarrow> cfg_credential list \<Rightarrow> cfg_credential_pool list \<Rightarrow> nat \<Rightarrow> cfg_credential_pool \<Rightarrow> diagnostic list" where
  "validate_pool t providers credentials seen i item =
     (let path = ''/credential_pools/'' @ show_nat i; provider = last_with kv_ID providers (kq_ProviderID item)
      in unique_id kq_ID seen item path @ in_tenant t (kq_TenantID item) path
         @ must (kq_Strategy item \<in> set poolStrategies) ''pool_strategy_invalid'' (path @ ''/strategy'')
         @ must (provider \<noteq> None) ''provider_reference_missing'' (path @ ''/provider_id'')
         @ validate_members path provider credentials (kq_Members item)
         @ must (kq_Members item \<noteq> []) ''pool_has_no_members'' (path @ ''/members''))"

definition validate_pools ::
  "string \<Rightarrow> cfg_provider list \<Rightarrow> cfg_credential list \<Rightarrow> cfg_credential_pool list \<Rightarrow> diagnostic list" where
  "validate_pools t providers credentials = each (validate_pool t providers credentials)"

definition poolByID :: "tenant_config \<Rightarrow> string \<Rightarrow> cfg_credential_pool option" where
  "poolByID doc ident = find (\<lambda>p. kq_ID p = ident) (tc_CredentialPools doc)"

definition validate_deployment_pools :: "tenant_config \<Rightarrow> diagnostic list" where
  "validate_deployment_pools doc = each (\<lambda>_ i item.
     let path = ''/deployments/'' @ show_nat i @ ''/pool_id''
     in if kd_PoolID item = '''' then []
        else case poolByID doc (kd_PoolID item) of
               None \<Rightarrow> [add_diag ''pool_reference_missing'' path []]
             | Some p \<Rightarrow>
                 must (kq_TenantID p = tr_ID (tc_Tenant doc)) ''tenant_scope_mismatch'' path
                 @ must (kq_ProviderID p = kd_ProviderID item) ''deployment_pool_provider_mismatch'' path) (tc_Deployments doc)"

definition validate_circuit :: "rt_circuit_config \<Rightarrow> diagnostic list" where
  "validate_circuit c =
     must (\<not> (0 < rc_MinSamples c \<and> (rc_MinSamples c < 1 \<or> rc_ErrorRate c \<le> 0 \<or> 1 < rc_ErrorRate c
              \<or> rc_InitialCooldownMS c \<le> 0 \<or> rc_MaxCooldownMS c < rc_InitialCooldownMS c)))
       ''circuit_config_invalid'' ''/circuit''"

definition ValidateWithSystemDefaults :: "url_parser \<Rightarrow> system_config \<Rightarrow> tenant_config \<Rightarrow> diagnostic list" where
  "ValidateWithSystemDefaults url_parse system doc0 =
     (let doc = ApplySystemDefaults system doc0; t = tr_ID (tc_Tenant doc);
          projects = map (inheritTenantProjectPolicy (tc_Tenant doc)) (tc_Projects doc)
      in (if tc_SchemaVersion doc = ''v1'' then []
          else [add_diag ''unsupported_schema'' ''/schema_version'' [(''supported'', ''v1'')]])
         @ must (t \<noteq> '''' \<and> tr_PublicRef (tc_Tenant doc) \<noteq> '''') ''tenant_required'' ''/tenant''
         @ validate_projects t (tc_Projects doc)
         @ validate_providers t (tc_Providers doc)
         @ validate_credentials url_parse (tc_Providers doc) (tc_Credentials doc)
         @ validate_deployments t (tc_Providers doc) (tc_Credentials doc) (tc_Deployments doc)
         @ validate_routes t projects (tc_Deployments doc) (tc_RoutePolicies doc)
         @ validate_logical_models t (tc_RoutePolicies doc) (tc_LogicalModels doc)
         @ validate_budgets t projects (tc_BudgetPolicies doc)
         @ validateSpoolPolicy (tc_AccountingSpool doc)
         @ validateCachePolicy (tc_Cache doc)
         @ validateGuardrailPolicy (tc_Guardrail doc)
         @ validate_mcp_servers t (tc_MCPServers doc)
         @ validate_tools t (tc_MCPServers doc) (tc_Tools doc)
         @ validate_tool_policies t projects (tc_Tools doc) (tc_ToolPolicies doc)
         @ validate_agents t projects (tc_Agents doc)
         @ validateAgentEndpoints url_parse t (tc_AgentEndpoints doc)
         @ validateFederationRelationships (tc_FederationRelationships doc)
         @ validate_pools t (tc_Providers doc) (tc_Credentials doc) (tc_CredentialPools doc)
         @ validate_deployment_pools doc
         @ validate_circuit (tc_Circuit doc)
         @ must (0 \<le> km_GraceMS (tc_Drift doc)) ''drift_config_invalid'' ''/drift/grace_ms'')"

abbreviation empty_system :: system_config where
  "empty_system \<equiv> \<lparr>sy_TenantDefaults = \<lparr>ty_AllowedDataRegions = [], ty_ResidencyEnforcement = ''''\<rparr>, sy_FileMappingRetentionDays = 0\<rparr>"

definition Validate :: "url_parser \<Rightarrow> tenant_config \<Rightarrow> diagnostic list" where
  "Validate url_parse doc = ValidateWithSystemDefaults url_parse empty_system doc"

definition ValidateForTenantWithSystemDefaults ::
  "url_parser \<Rightarrow> system_config \<Rightarrow> tenant_config \<Rightarrow> string \<Rightarrow> diagnostic list" where
  "ValidateForTenantWithSystemDefaults url_parse system doc tenantID =
     ValidateWithSystemDefaults url_parse system doc
     @ must (tr_ID (tc_Tenant doc) = tenantID) ''tenant_scope_mismatch'' ''/tenant/id''"

definition ValidateForTenant :: "url_parser \<Rightarrow> tenant_config \<Rightarrow> string \<Rightarrow> diagnostic list" where
  "ValidateForTenant url_parse doc tenantID = ValidateForTenantWithSystemDefaults url_parse empty_system doc tenantID"

definition HasErrors :: "diagnostic list \<Rightarrow> bool" where
  "HasErrors ds \<longleftrightarrow> list_ex (\<lambda>d. dg_Severity d = SeverityError) ds"

definition ValidateSystemConfig :: "system_config \<Rightarrow> bool" where
  "ValidateSystemConfig doc \<longleftrightarrow>
     0 \<le> sy_FileMappingRetentionDays doc \<and> sy_FileMappingRetentionDays doc \<le> 3650
     \<and> ty_ResidencyEnforcement (sy_TenantDefaults doc) \<in> {'''', ''advisory'', ''strict''}"

subsection \<open>Compilation\<close>

datatype compile_error = ValidationFailed | KeyTenantMismatch | KeyProjectMismatch

definition compile_project :: "cfg_project \<Rightarrow> project" where
  "compile_project p = \<lparr>pj_ID = kp_ID p, pj_Status = kp_Status p, pj_AllowedDataRegions = kp_AllowedDataRegions p,
     pj_ResidencyEnforcement = kp_ResidencyEnforcement p\<rparr>"

definition compile_provider :: "cfg_provider \<Rightarrow> provider" where
  "compile_provider v = \<lparr>pv_ID = kv_ID v, pv_OwnerScope = kv_OwnerScope v, pv_Type = kv_Type v,
     pv_Endpoint = kv_Endpoint v, pv_Status = kv_Status v\<rparr>"

definition compile_credential :: "cfg_credential \<Rightarrow> credential" where
  "compile_credential c = \<lparr>cr_ID = kc_ID c, cr_ProviderID = kc_ProviderID c, cr_OwnerScope = kc_OwnerScope c,
     cr_SecretRef = kc_SecretRef c, cr_Status = kc_Status c\<rparr>"

definition compile_deployment :: "(string \<Rightarrow> string) \<Rightarrow> cfg_deployment \<Rightarrow> deployment" where
  "compile_deployment fold_case d = \<lparr>dp_ID = kd_ID d, dp_ProviderID = kd_ProviderID d, dp_CredentialID = kd_CredentialID d,
     dp_UpstreamModel = kd_UpstreamModel d, dp_DataRegion = kd_DataRegion d, dp_Status = kd_Status d, dp_PoolID = kd_PoolID d,
     dp_Capabilities = CanonicalCapabilities fold_case (kd_Capabilities d), dp_ContextWindow = kd_ContextWindow d,
     dp_Priority = kd_Priority d\<rparr>"

definition compile_lease :: "cfg_deployment \<Rightarrow> lease_config list" where
  "compile_lease d =
     (if 0 < kd_LeaseCapacity d
      then [\<lparr>lc_DeploymentID = kd_ID d, lc_Capacity = kd_LeaseCapacity d, lc_TTLSeconds = leaseTTLSeconds (kd_LeaseTTLMS d)\<rparr>]
      else [])"

definition compile_budget :: "cfg_budget_policy \<Rightarrow> rt_budget_policy" where
  "compile_budget b = \<lparr>rb_ID = kb_ID b, rb_TenantID = kb_TenantID b, rb_ProjectID = kb_ProjectID b, rb_KeyID = kb_KeyID b,
     rb_WindowHours = kb_WindowHours b, rb_TokenLimit = kb_TokenLimit b, rb_Mode = kb_Mode b, rb_Consistency = kb_Consistency b\<rparr>"

definition compile_pool :: "cfg_credential_pool \<Rightarrow> credential_pool" where
  "compile_pool p = \<lparr>cq_ID = kq_ID p, cq_ProviderID = kq_ProviderID p, cq_TenantID = kq_TenantID p, cq_Strategy = kq_Strategy p,
     cq_Members = kq_Members p\<rparr>"

definition compile_route :: "cfg_route_policy \<Rightarrow> route_policy" where
  "compile_route r = \<lparr>rp_ID = kr_ID r, rp_ProjectID = kr_ProjectID r, rp_Strategy = kr_Strategy r,
     rp_DeploymentIDs = kr_DeploymentIDs r, rp_Weights = kr_Weights r, rp_ScoreWeights = kr_ScoreWeights r,
     rp_Version = kr_Version r\<rparr>"

definition compile_logical_model :: "cfg_logical_model \<Rightarrow> logical_model" where
  "compile_logical_model l = \<lparr>lm_ID = kl_ID l, lm_Alias = kl_Alias l, lm_RoutePolicyID = kl_RoutePolicyID l\<rparr>"

definition compile_key :: "api_key_record \<Rightarrow> api_key" where
  "compile_key k = \<lparr>ak_ID = kk_ID k, ak_PublicID = kk_PublicID k, ak_ProjectID = kk_ProjectID k,
     ak_ApplicationID = kk_ApplicationID k, ak_AgentID = kk_AgentID k, ak_ServiceAccountID = kk_ServiceAccountID k,
     ak_Status = kk_Status k, ak_HMACDigest = kk_HMACDigest k, ak_PepperVersion = kk_PepperVersion k,
     ak_ExpiresAt = kk_ExpiresAt k, ak_ModelAllowlist = kk_ModelAllowlist k, ak_IPAllowlist = kk_IPAllowlist k\<rparr>"

fun compile_keys :: "tenant_config \<Rightarrow> api_key_record list \<Rightarrow> compile_error + api_key list" where
  "compile_keys doc [] = Inr []"
| "compile_keys doc (k # ks) =
     (if kk_TenantID k \<noteq> tr_ID (tc_Tenant doc) then Inl KeyTenantMismatch
      else if \<not> has_id kp_ID (tc_Projects doc) (kk_ProjectID k) then Inl KeyProjectMismatch
      else case compile_keys doc ks of Inl e \<Rightarrow> Inl e | Inr r \<Rightarrow> Inr (compile_key k # r))"

definition compile_agent :: "cfg_project list \<Rightarrow> cfg_agent \<Rightarrow> agent" where
  "compile_agent projects a = \<lparr>ag_ID = kg_ID a, ag_ProjectID = kg_ProjectID a, ag_Name = kg_Name a, ag_Status = kg_Status a,
     ag_CurrentVersion = kg_CurrentVersion a, ag_Capabilities = kg_Capabilities a,
     ag_RequireApproval = effectiveAgentRequireApproval projects a\<rparr>"

definition compile_endpoint :: "cfg_agent_endpoint \<Rightarrow> agent_endpoint" where
  "compile_endpoint e = \<lparr>ae_ID = ke_ID e, ae_AgentID = ke_AgentID e, ae_Version = ke_Version e, ae_URL = ke_URL e,
     ae_Protocol = ke_Protocol e, ae_AuthScheme = ke_AuthScheme e, ae_SecretRef = ke_SecretRef e, ae_Headers = ke_Headers e,
     ae_DataClassification = ke_DataClassification e, ae_Capabilities = ke_Capabilities e\<rparr>"

definition compile_relationship :: "cfg_relationship \<Rightarrow> federation_relationship" where
  "compile_relationship r = \<lparr>fr_ID = kh_ID r, fr_ExternalAgentID = kh_ExternalAgentID r, fr_Status = kh_Status r,
     fr_AssuranceLevel = kh_AssuranceLevel r, fr_HasVerifiedAnchor = kh_HasVerifiedAnchor r, fr_Direction = kh_Direction r,
     fr_ProjectGrants = kh_ProjectGrants r, fr_CapabilityGrants = kh_CapabilityGrants r, fr_BoundaryStatus = kh_BoundaryStatus r,
     fr_ProcessingRegions = kh_ProcessingRegions r, fr_ApprovedVersion = kh_ApprovedVersion r\<rparr>"

definition compile_data ::
  "(string \<Rightarrow> string) \<Rightarrow> tenant_config \<Rightarrow> int \<Rightarrow> gotime \<Rightarrow> api_key list \<Rightarrow> tenant_data" where
  "compile_data fold_case doc version publishedAt keys =
     (let t = tc_Tenant doc; projects = map (inheritTenantProjectPolicy t) (tc_Projects doc); g = tc_Guardrail doc
      in \<lparr>td_TenantID = tr_ID t, td_TenantRef = tr_PublicRef t, td_Status = tr_Status t, td_Version = version,
          td_SecurityEpoch = tr_SecurityEpoch t, td_PublishedAt = publishedAt,
          td_Projects = map compile_project projects,
          td_Providers = map compile_provider (tc_Providers doc),
          td_Credentials = map compile_credential (tc_Credentials doc),
          td_Deployments = map (compile_deployment fold_case) (tc_Deployments doc),
          td_RoutePolicies = map compile_route (tc_RoutePolicies doc),
          td_LogicalModels = map compile_logical_model (tc_LogicalModels doc),
          td_APIKeys = keys,
          td_BudgetPolicies = map compile_budget (tc_BudgetPolicies doc),
          td_CredentialPools = map compile_pool (tc_CredentialPools doc),
          td_Leases = concat (map compile_lease (tc_Deployments doc)),
          td_Circuit = tc_Circuit doc,
          td_Drift = \<lparr>dm_Version = 0, dm_GraceMS = km_GraceMS (tc_Drift doc), dm_Strict = km_Strict (tc_Drift doc),
            dm_SecurityEpoch = tr_SecurityEpoch t\<rparr>,
          td_Spool = tc_AccountingSpool doc, td_Cache = tc_Cache doc,
          td_MCPServers = map (\<lambda>x. \<lparr>ms_ID = kx_ID x, ms_URL = kx_URL x, ms_Status = kx_Status x\<rparr>) (tc_MCPServers doc),
          td_Tools = map (\<lambda>x. \<lparr>tl_ID = kt_ID x, tl_ServerID = kt_ServerID x, tl_Name = kt_Name x,
            tl_DataClassification = kt_DataClassification x, tl_Endpoint = kt_Endpoint x, tl_Status = kt_Status x,
            tl_Schema = kt_Schema x, tl_CapabilityTags = kt_CapabilityTags x\<rparr>) (tc_Tools doc),
          td_ToolPolicies = map (\<lambda>x. \<lparr>tp_ToolID = kz_ToolID x, tp_ProjectID = kz_ProjectID x,
            tp_AllowedAgentIDs = kz_AllowedAgentIDs x, tp_Allowed = kz_Allowed x, tp_RequireApproval = kz_RequireApproval x\<rparr>)
            (tc_ToolPolicies doc),
          td_Agents = map (compile_agent projects) (tc_Agents doc),
          td_AgentEndpoints = map compile_endpoint (tc_AgentEndpoints doc),
          td_FederatedAgents = map (\<lambda>x. \<lparr>fa_ID = kf_ID x, fa_Name = kf_Name x, fa_ExternalSubject = kf_ExternalSubject x,
            fa_Status = kf_Status x, fa_TrustBoundary = kf_TrustBoundary x\<rparr>) (tc_FederatedAgents doc),
          td_FederationRelationships = map compile_relationship (tc_FederationRelationships doc),
          td_Guardrail = \<lparr>gp_Mode = kw_Mode g, gp_SecurityEpoch = tr_SecurityEpoch t, gp_Rules = kw_Rules g,
            gp_Judge = kw_Judge g, gp_Groundedness = kw_Groundedness g\<rparr>\<rparr>)"

definition CompileWithSystemDefaultsAndAPIKeys ::
  "url_parser \<Rightarrow> (string \<Rightarrow> string) \<Rightarrow> system_config \<Rightarrow> tenant_config \<Rightarrow> int \<Rightarrow> gotime \<Rightarrow> api_key_record list
     \<Rightarrow> compile_error + tenant_snapshot" where
  "CompileWithSystemDefaultsAndAPIKeys url_parse fold_case system doc0 version publishedAt keys =
     (let doc = ApplySystemDefaults system doc0
      in if HasErrors (Validate url_parse doc) then Inl ValidationFailed
         else case compile_keys doc keys of Inl e \<Rightarrow> Inl e
              | Inr ks \<Rightarrow> Inr (NewTenantSnapshot (compile_data fold_case doc version publishedAt ks)))"

definition Compile ::
  "url_parser \<Rightarrow> (string \<Rightarrow> string) \<Rightarrow> tenant_config \<Rightarrow> int \<Rightarrow> gotime \<Rightarrow> compile_error + tenant_snapshot" where
  "Compile url_parse fold_case doc version publishedAt =
     CompileWithSystemDefaultsAndAPIKeys url_parse fold_case empty_system doc version publishedAt []"

definition CompileWithSystemDefaults ::
  "url_parser \<Rightarrow> (string \<Rightarrow> string) \<Rightarrow> system_config \<Rightarrow> tenant_config \<Rightarrow> int \<Rightarrow> gotime \<Rightarrow> compile_error + tenant_snapshot" where
  "CompileWithSystemDefaults url_parse fold_case system doc version publishedAt =
     CompileWithSystemDefaultsAndAPIKeys url_parse fold_case system doc version publishedAt []"

definition CompileWithAPIKeys ::
  "url_parser \<Rightarrow> (string \<Rightarrow> string) \<Rightarrow> tenant_config \<Rightarrow> int \<Rightarrow> gotime \<Rightarrow> api_key_record list \<Rightarrow> compile_error + tenant_snapshot" where
  "CompileWithAPIKeys url_parse fold_case doc version publishedAt keys =
     CompileWithSystemDefaultsAndAPIKeys url_parse fold_case empty_system doc version publishedAt keys"

definition CompileGlobalWithPeppers :: "int \<Rightarrow> gotime \<Rightarrow> (int \<times> string) list \<Rightarrow> global_runtime" where
  "CompileGlobalWithPeppers version publishedAt peppers =
     NewGlobalRuntime \<lparr>gd_Version = version, gd_PublishedAt = publishedAt,
       gd_PepperRefs = fold (\<lambda>(v, ref). AList.update v ref) peppers [],
       gd_Drain = \<lparr>dc_DrainTimeoutMS = 0, dc_StreamDrainTimeoutMS = 0, dc_ForceShutdownTimeoutMS = 0\<rparr>,
       gd_SecretCache = \<lparr>sk_TTLMS = 0, sk_StaleGraceMS = 0, sk_RotationOverlapMS = 0\<rparr>\<rparr>"

definition CompileGlobal :: "int \<Rightarrow> gotime \<Rightarrow> global_runtime" where
  "CompileGlobal version publishedAt = CompileGlobalWithPeppers version publishedAt []"

subsection \<open>Drift\<close>

datatype drift_level = DriftNone | DriftWarn | DriftCritical

record drift_report =
  dr_Level :: drift_level
  dr_LiveVersion :: int
  dr_PublishedVersion :: int
  dr_VersionAgeMS :: int
  dr_GraceMS :: int
  dr_BeyondGrace :: bool
  dr_EpochStale :: bool
  dr_Strict :: bool
  dr_HasSnapshot :: bool
  dr_Reasons :: "string list"

text \<open>\<^verbatim>\<open>Duration.Milliseconds\<close> truncates.\<close>

definition dur_milliseconds :: "duration \<Rightarrow> int" where
  "dur_milliseconds d = sgn d * (\<bar>d\<bar> div millisecond)"

definition DetectDrift :: "tenant_snapshot option \<Rightarrow> int \<Rightarrow> drift_metadata \<Rightarrow> gotime \<Rightarrow> drift_report" where
  "DetectDrift snapshot publishedVersion drift now =
     (case snapshot of
        None \<Rightarrow> \<lparr>dr_Level = DriftCritical, dr_LiveVersion = 0, dr_PublishedVersion = publishedVersion, dr_VersionAgeMS = 0,
                dr_GraceMS = dm_GraceMS drift, dr_BeyondGrace = False, dr_EpochStale = False, dr_Strict = dm_Strict drift,
                dr_HasSnapshot = False, dr_Reasons = [''no_active_snapshot'']\<rparr>
      | Some s \<Rightarrow>
          let age = dur_milliseconds (t_sub now (ts_PublishedAt s));
              beyond = 0 < dm_GraceMS drift \<and> dm_GraceMS drift < age;
              stale = dm_Strict drift \<and> ts_SecurityEpoch s < dm_SecurityEpoch drift;
              reasons = (if ts_Version s \<noteq> publishedVersion then [''version_mismatch''] else [])
                @ (if beyond then [''beyond_grace''] else []) @ (if stale then [''security_epoch_stale''] else [])
          in \<lparr>dr_Level = (if stale then DriftCritical else if beyond then DriftCritical
                         else if reasons \<noteq> [] then DriftWarn else DriftNone),
              dr_LiveVersion = ts_Version s, dr_PublishedVersion = publishedVersion, dr_VersionAgeMS = age,
              dr_GraceMS = dm_GraceMS drift, dr_BeyondGrace = beyond, dr_EpochStale = stale, dr_Strict = dm_Strict drift,
              dr_HasSnapshot = True, dr_Reasons = reasons\<rparr>)"

definition drift_IsReady :: "drift_report \<Rightarrow> bool" where
  "drift_IsReady r \<longleftrightarrow>
     dr_HasSnapshot r \<and> \<not> dr_BeyondGrace r \<and> \<not> (dr_Strict r \<and> dr_EpochStale r) \<and> dr_Level r \<in> {DriftNone, DriftWarn}"

text \<open>A gateway is ready exactly when it has a snapshot that is neither too old nor behind the security epoch;
  a version mismatch alone does not stop it.\<close>

lemma drift_ready_iff:
  "drift_IsReady (DetectDrift snapshot v drift now) \<longleftrightarrow>
     (\<exists>s. snapshot = Some s
        \<and> (dm_GraceMS drift \<le> 0 \<or> dur_milliseconds (t_sub now (ts_PublishedAt s)) \<le> dm_GraceMS drift)
        \<and> (dm_Strict drift \<longrightarrow> dm_SecurityEpoch drift \<le> ts_SecurityEpoch s))"
  by (cases snapshot) (auto simp: drift_IsReady_def DetectDrift_def Let_def)

subsection \<open>What a document without errors guarantees\<close>

lemma HasErrors_simps [simp]:
  "\<not> HasErrors []" "HasErrors (a @ b) \<longleftrightarrow> HasErrors a \<or> HasErrors b" "HasErrors (must ok code path) \<longleftrightarrow> \<not> ok"
  "HasErrors [add_diag code path params]" "\<not> HasErrors [warn_diag code path]"
  by (auto simp: HasErrors_def must_def add_diag_def warn_diag_def)

lemma HasErrors_each: "\<not> HasErrors (each f xs) \<longleftrightarrow> (\<forall>i < length xs. \<not> HasErrors (f (take i xs) i (xs ! i)))"
  by (auto simp: HasErrors_def each_def list_ex_iff)

lemma each_all:
  assumes "\<not> HasErrors (each f xs)" "x \<in> set xs"
  obtains seen i where "\<not> HasErrors (f seen i x)"
  using assms unfolding HasErrors_each in_set_conv_nth by blast

lemma unique_id_errors [simp]: "HasErrors (unique_id ident seen item path) \<longleftrightarrow> ident item \<in> ident ` set seen"
  by (simp add: unique_id_def)

lemma each_unique:
  assumes "\<not> HasErrors (each f xs)"
    and "\<And>seen i x. \<not> HasErrors (f seen i x) \<Longrightarrow> ident x \<notin> ident ` set seen"
  shows "distinct (map ident xs)"
proof -
  have "ident (xs ! j) \<noteq> ident (xs ! i)" if "j < i" "i < length xs" for i j
  proof -
    have "xs ! j \<in> set (take i xs)" using that by (metis in_set_conv_nth length_take min.absorb4 nth_take)
    moreover have "ident (xs ! i) \<notin> ident ` set (take i xs)" using assms that(2) unfolding HasErrors_each by blast
    ultimately show ?thesis by (metis imageI)
  qed
  then show ?thesis by (simp add: distinct_conv_nth) (metis linorder_neqE_nat)
qed

lemma find_map: "find P (map f xs) = map_option f (find (\<lambda>x. P (f x)) xs)"
  by (induction xs) auto

lemma last_with_map: "(\<And>x. key (f x) = key' x) \<Longrightarrow> last_with key (map f xs) k = map_option f (last_with key' xs k)"
  by (simp add: last_with_def rev_map find_map)

lemma last_with_has_id: "last_with key xs k = None \<longleftrightarrow> \<not> has_id key xs k"
  by (auto simp: last_with_def find_None_iff has_id_def)

lemma find_last_with:
  assumes "distinct (map key xs)"
  shows "find (\<lambda>x. key x = k) xs = last_with key xs k"
proof -
  have uniq: "x = y" if "x \<in> set xs" "y \<in> set xs" "key x = key y" for x y
    using assms that by (auto simp: distinct_map inj_on_def)
  show ?thesis
  proof (cases "find (\<lambda>x. key x = k) xs")
    case None
    then have "last_with key xs k = None" by (auto simp: find_None_iff last_with_has_id has_id_def)
    with None show ?thesis by simp
  next
    case (Some x)
    then have x: "x \<in> set xs" "key x = k" by (auto simp: find_Some_iff)
    then obtain y where "last_with key xs k = Some y" using last_with_exists by fast
    with last_with_Some uniq x Some show ?thesis by metis
  qed
qed

text \<open>
  The typing of a snapshot: every reference a request follows resolves to a record of the right
  provider, and the values the data plane dispatches on are in their vocabularies.
\<close>

definition credential_of :: "tenant_snapshot \<Rightarrow> string \<Rightarrow> string \<Rightarrow> bool" where
  "credential_of s provider c \<longleftrightarrow> (\<exists>x. snap_Credential s c = Some x \<and> cr_ProviderID x = provider)"

definition route_typed :: "tenant_snapshot \<Rightarrow> route_policy \<Rightarrow> bool" where
  "route_typed s r \<longleftrightarrow> rp_Strategy r \<in> set routeStrategies
     \<and> (\<forall>i \<in> set (rp_DeploymentIDs r). snap_Deployment s i \<noteq> None)
     \<and> (\<exists>i \<in> set (rp_DeploymentIDs r). \<exists>d. snap_Deployment s i = Some d \<and> dp_Status d = ''enabled'')"

definition pool_typed :: "tenant_snapshot \<Rightarrow> string \<Rightarrow> credential_pool \<Rightarrow> bool" where
  "pool_typed s provider p \<longleftrightarrow> cq_ProviderID p = provider \<and> cq_Strategy p \<in> set poolStrategies \<and> cq_Members p \<noteq> []
     \<and> (\<forall>m \<in> set (cq_Members p). credential_of s provider (pm_CredentialID m) \<and> 0 \<le> pm_Weight m)"

definition deployment_typed :: "tenant_snapshot \<Rightarrow> deployment \<Rightarrow> bool" where
  "deployment_typed s d \<longleftrightarrow> snap_Provider s (dp_ProviderID d) \<noteq> None
     \<and> credential_of s (dp_ProviderID d) (dp_CredentialID d)
     \<and> (dp_PoolID d \<noteq> '''' \<longrightarrow> (\<exists>p. snap_CredentialPool s (dp_PoolID d) = Some p \<and> pool_typed s (dp_ProviderID d) p))"

definition snapshot_typed :: "tenant_snapshot \<Rightarrow> bool" where
  "snapshot_typed s \<longleftrightarrow>
     (\<forall>a m. snap_LogicalModel s a = Some m \<longrightarrow> snap_RoutePolicy s (lm_RoutePolicyID m) \<noteq> None)
     \<and> (\<forall>i r. snap_RoutePolicy s i = Some r \<longrightarrow> route_typed s r)
     \<and> (\<forall>i d. snap_Deployment s i = Some d \<longrightarrow> deployment_typed s d)
     \<and> (\<forall>i l. snap_Lease s i = Some l \<longrightarrow> 0 < lc_Capacity l \<and> 0 < lc_TTLSeconds l \<and> snap_Deployment s i \<noteq> None)
     \<and> (\<forall>i b. snap_BudgetPolicy s i = Some b \<longrightarrow> 0 < rb_WindowHours b \<and> rb_Mode b \<in> set budgetModes)
     \<and> (\<forall>k key. snap_APIKey s k = Some key \<longrightarrow> snap_Project s (ak_ProjectID key) \<noteq> None)"

lemma compile_ids [simp]:
  "pj_ID (compile_project p) = kp_ID p" "pv_ID (compile_provider v) = kv_ID v" "cr_ID (compile_credential c) = kc_ID c"
  "dp_ID (compile_deployment f d) = kd_ID d" "rp_ID (compile_route r) = kr_ID r" "lm_Alias (compile_logical_model l) = kl_Alias l"
  "rb_ID (compile_budget b) = kb_ID b" "cq_ID (compile_pool q) = kq_ID q" "kp_ID (inheritTenantProjectPolicy t p) = kp_ID p"
  by (simp_all add: compile_project_def compile_provider_def compile_credential_def compile_deployment_def compile_route_def
      compile_logical_model_def compile_budget_def compile_pool_def inheritTenantProjectPolicy_def Let_def)

lemma compiled_lookup:
  fixes fold_case doc v t ks
  defines "s \<equiv> NewTenantSnapshot (compile_data fold_case doc v t ks)"
  shows "snap_Provider s k = map_option compile_provider (last_with kv_ID (tc_Providers doc) k)"
    and "snap_Credential s k = map_option compile_credential (last_with kc_ID (tc_Credentials doc) k)"
    and "snap_Deployment s k = map_option (compile_deployment fold_case) (last_with kd_ID (tc_Deployments doc) k)"
    and "snap_RoutePolicy s k = map_option compile_route (last_with kr_ID (tc_RoutePolicies doc) k)"
    and "snap_LogicalModel s k = map_option compile_logical_model (last_with kl_Alias (tc_LogicalModels doc) k)"
    and "snap_BudgetPolicy s k = map_option compile_budget (last_with kb_ID (tc_BudgetPolicies doc) k)"
    and "snap_CredentialPool s k = map_option compile_pool (last_with kq_ID (tc_CredentialPools doc) k)"
    and "snap_Lease s k = last_with lc_DeploymentID (concat (map compile_lease (tc_Deployments doc))) k"
    and "snap_APIKey s k = last_with ak_PublicID ks k"
    and "snap_Project s k = None \<longleftrightarrow> \<not> has_id kp_ID (tc_Projects doc) k"
  by (simp_all add: s_def NewTenantSnapshot_def compile_data_def Let_def snap_Provider_def snap_Credential_def
      snap_Deployment_def snap_RoutePolicy_def snap_LogicalModel_def snap_BudgetPolicy_def snap_CredentialPool_def
      snap_Lease_def snap_APIKey_def snap_Project_def last_with_map [where key' = kv_ID] last_with_map [where key' = kc_ID]
      last_with_map [where key' = kd_ID] last_with_map [where key' = kr_ID] last_with_map [where key' = kl_Alias]
      last_with_map [where key' = kb_ID] last_with_map [where key' = kq_ID] last_with_has_id)
     (auto simp: has_id_def image_image)

lemma valid_routes:
  assumes "\<not> HasErrors (validate_routes t projects deployments routes)" "r \<in> set routes"
  shows "kr_Strategy r \<in> set routeStrategies \<and> (\<forall>i \<in> set (kr_DeploymentIDs r). last_with kd_ID deployments i \<noteq> None)
    \<and> has_enabled deployments (kr_DeploymentIDs r)"
proof -
  from assms(1)[unfolded validate_routes_def] assms(2) obtain path j where
    "kr_Strategy r \<in> set routeStrategies" "has_enabled deployments (kr_DeploymentIDs r)"
    and c: "\<not> HasErrors (validate_candidates path j deployments (kr_DeploymentIDs r))"
    by (rule each_all) (auto simp: Let_def)
  moreover have "last_with kd_ID deployments i \<noteq> None" if "i \<in> set (kr_DeploymentIDs r)" for i
    using c[unfolded validate_candidates_def] that by (rule each_all) (auto simp: Let_def split: option.splits)
  ultimately show ?thesis by blast
qed

lemma valid_deployments:
  assumes "\<not> HasErrors (validate_deployments t providers credentials deployments)" "d \<in> set deployments"
  shows "has_id kv_ID providers (kd_ProviderID d)
    \<and> (\<exists>c. last_with kc_ID credentials (kd_CredentialID d) = Some c \<and> kc_ProviderID c = kd_ProviderID d)"
  using assms(1)[unfolded validate_deployments_def] assms(2)
  by (rule each_all) (auto simp: Let_def split: option.splits)

lemma valid_logical_models:
  assumes "\<not> HasErrors (validate_logical_models t routes models)" "l \<in> set models"
  shows "has_id kr_ID routes (kl_RoutePolicyID l)"
proof -
  from assms(1) have e: "\<not> HasErrors (each (\<lambda>seen i item.
     let path = ''/logical_models/'' @ show_nat i
     in (if kl_ID item \<in> kl_ID ` set seen \<or> kl_Alias item \<in> kl_Alias ` set seen
         then [add_diag ''duplicate_resource_id'' (path @ ''/id'') [(''id'', kl_ID item)]] else [])
        @ in_tenant t (kl_TenantID item) path
        @ must (has_id kr_ID routes (kl_RoutePolicyID item)) ''route_reference_missing'' (path @ ''/route_policy_id'')) models)"
    by (simp add: validate_logical_models_def)
  show ?thesis using e assms(2) by (rule each_all) (simp add: Let_def)
qed

lemma valid_budgets:
  assumes "\<not> HasErrors (validate_budgets t projects budgets)" "b \<in> set budgets"
  shows "0 < kb_WindowHours b \<and> 0 \<le> kb_TokenLimit b \<and> kb_Mode b \<in> set budgetModes"
  using assms(1)[unfolded validate_budgets_def] assms(2) by (rule each_all) (simp add: Let_def)

lemma valid_members:
  assumes "\<not> HasErrors (validate_members path (Some v) credentials members)" "m \<in> set members"
  shows "0 \<le> pm_Weight m \<and> (\<exists>c. last_with kc_ID credentials (pm_CredentialID m) = Some c \<and> kc_ProviderID c = kv_ID v)"
proof -
  obtain i where "i < length members" "members ! i = m" using assms(2) by (auto simp: in_set_conv_nth)
  with assms(1) show ?thesis
    by (cases "last_with kc_ID credentials (pm_CredentialID m)")
       (auto simp: validate_members_def HasErrors_each Let_def)
qed

lemma valid_pools:
  assumes "\<not> HasErrors (validate_pools t providers credentials pools)" "p \<in> set pools"
  shows "kq_Strategy p \<in> set poolStrategies \<and> kq_Members p \<noteq> []
    \<and> (\<forall>m \<in> set (kq_Members p). 0 \<le> pm_Weight m
         \<and> (\<exists>c. last_with kc_ID credentials (pm_CredentialID m) = Some c \<and> kc_ProviderID c = kq_ProviderID p))"
proof -
  obtain seen i where e: "\<not> HasErrors (validate_pool t providers credentials seen i p)"
    using each_all [OF assms(1) [unfolded validate_pools_def] assms(2)] by blast
  note f = e [unfolded validate_pool_def Let_def HasErrors_simps de_Morgan_disj not_not]
  obtain v where v: "last_with kv_ID providers (kq_ProviderID p) = Some v" using f by blast
  then have id: "kv_ID v = kq_ProviderID p" by (simp add: last_with_Some)
  from f have m: "\<not> HasErrors (validate_members (''/credential_pools/'' @ show_nat i) (Some v) credentials (kq_Members p))"
    unfolding v by blast
  from f valid_members [OF m, unfolded id] show ?thesis by blast
qed

lemma valid_pools_distinct:
  assumes "\<not> HasErrors (validate_pools t providers credentials pools)"
  shows "distinct (map kq_ID pools)"
  using assms[unfolded validate_pools_def] by (rule each_unique) (simp add: validate_pool_def Let_def)

lemma valid_deployment_pools:
  assumes "\<not> HasErrors (validate_deployment_pools doc)" "d \<in> set (tc_Deployments doc)" "kd_PoolID d \<noteq> ''''"
  shows "\<exists>p. poolByID doc (kd_PoolID d) = Some p \<and> kq_ProviderID p = kd_ProviderID d"
  using assms(1)[unfolded validate_deployment_pools_def] assms(2)
  by (rule each_all) (use assms(3) in \<open>auto simp: Let_def split: option.splits\<close>)

lemma ApplySystemDefaults_simps [simp]:
  "tr_ID (tc_Tenant (ApplySystemDefaults sy doc)) = tr_ID (tc_Tenant doc)"
  "tc_Projects (ApplySystemDefaults sy doc) = tc_Projects doc" "tc_Providers (ApplySystemDefaults sy doc) = tc_Providers doc"
  "tc_Credentials (ApplySystemDefaults sy doc) = tc_Credentials doc" "tc_Deployments (ApplySystemDefaults sy doc) = tc_Deployments doc"
  "tc_RoutePolicies (ApplySystemDefaults sy doc) = tc_RoutePolicies doc"
  "tc_LogicalModels (ApplySystemDefaults sy doc) = tc_LogicalModels doc"
  "tc_BudgetPolicies (ApplySystemDefaults sy doc) = tc_BudgetPolicies doc"
  "tc_CredentialPools (ApplySystemDefaults sy doc) = tc_CredentialPools doc"
  by (simp_all add: ApplySystemDefaults_def Let_def)

lemma poolByID_defaults [simp]: "poolByID (ApplySystemDefaults sy doc) k = poolByID doc k"
  by (simp add: poolByID_def)

lemma compile_keys_projects:
  "compile_keys doc keys = Inr ks \<Longrightarrow> k \<in> set ks \<Longrightarrow> has_id kp_ID (tc_Projects doc) (ak_ProjectID k)"
  by (induction doc keys arbitrary: ks rule: compile_keys.induct)
     (auto simp: compile_key_def split: if_split_asm sum.split_asm)

definition document_ok :: "tenant_config \<Rightarrow> bool" where
  "document_ok doc \<longleftrightarrow>
     (\<forall>l \<in> set (tc_LogicalModels doc). has_id kr_ID (tc_RoutePolicies doc) (kl_RoutePolicyID l))
     \<and> (\<forall>r \<in> set (tc_RoutePolicies doc). kr_Strategy r \<in> set routeStrategies
          \<and> (\<forall>i \<in> set (kr_DeploymentIDs r). last_with kd_ID (tc_Deployments doc) i \<noteq> None)
          \<and> has_enabled (tc_Deployments doc) (kr_DeploymentIDs r))
     \<and> (\<forall>d \<in> set (tc_Deployments doc). has_id kv_ID (tc_Providers doc) (kd_ProviderID d)
          \<and> (\<exists>c. last_with kc_ID (tc_Credentials doc) (kd_CredentialID d) = Some c \<and> kc_ProviderID c = kd_ProviderID d)
          \<and> (kd_PoolID d \<noteq> '''' \<longrightarrow> (\<exists>p. last_with kq_ID (tc_CredentialPools doc) (kd_PoolID d) = Some p \<and> kq_ProviderID p = kd_ProviderID d)))
     \<and> (\<forall>p \<in> set (tc_CredentialPools doc). kq_Strategy p \<in> set poolStrategies \<and> kq_Members p \<noteq> []
          \<and> (\<forall>m \<in> set (kq_Members p). 0 \<le> pm_Weight m
               \<and> (\<exists>c. last_with kc_ID (tc_Credentials doc) (pm_CredentialID m) = Some c \<and> kc_ProviderID c = kq_ProviderID p)))
     \<and> (\<forall>b \<in> set (tc_BudgetPolicies doc). 0 < kb_WindowHours b \<and> 0 \<le> kb_TokenLimit b \<and> kb_Mode b \<in> set budgetModes)"

lemma Validate_document_ok:
  assumes "\<not> HasErrors (Validate url_parse doc)"
  shows "document_ok doc"
proof -
  let ?t = "tr_ID (tc_Tenant doc)"
  let ?projects = "map (inheritTenantProjectPolicy (tc_Tenant (ApplySystemDefaults empty_system doc))) (tc_Projects doc)"
  have l: "\<not> HasErrors (validate_logical_models ?t (tc_RoutePolicies doc) (tc_LogicalModels doc))"
    and r: "\<not> HasErrors (validate_routes ?t ?projects (tc_Deployments doc) (tc_RoutePolicies doc))"
    and d: "\<not> HasErrors (validate_deployments ?t (tc_Providers doc) (tc_Credentials doc) (tc_Deployments doc))"
    and p: "\<not> HasErrors (validate_pools ?t (tc_Providers doc) (tc_Credentials doc) (tc_CredentialPools doc))"
    and dp: "\<not> HasErrors (validate_deployment_pools (ApplySystemDefaults empty_system doc))"
    and b: "\<not> HasErrors (validate_budgets ?t ?projects (tc_BudgetPolicies doc))"
    using assms by (simp_all add: Validate_def ValidateWithSystemDefaults_def Let_def)
  have pool: "\<exists>p. last_with kq_ID (tc_CredentialPools doc) (kd_PoolID x) = Some p \<and> kq_ProviderID p = kd_ProviderID x"
    if "x \<in> set (tc_Deployments doc)" "kd_PoolID x \<noteq> ''''" for x
    using valid_deployment_pools [OF dp, of x] that find_last_with [OF valid_pools_distinct [OF p]] by (simp add: poolByID_def)
  show ?thesis
    unfolding document_ok_def
  proof (intro conjI)
    show "\<forall>x \<in> set (tc_Deployments doc). has_id kv_ID (tc_Providers doc) (kd_ProviderID x)
        \<and> (\<exists>c. last_with kc_ID (tc_Credentials doc) (kd_CredentialID x) = Some c \<and> kc_ProviderID c = kd_ProviderID x)
        \<and> (kd_PoolID x \<noteq> '''' \<longrightarrow> (\<exists>p. last_with kq_ID (tc_CredentialPools doc) (kd_PoolID x) = Some p \<and> kq_ProviderID p = kd_ProviderID x))"
      using valid_deployments [OF d] pool by simp
  qed (rule ballI, rule valid_logical_models [OF l] valid_routes [OF r] valid_pools [OF p] valid_budgets [OF b], assumption)+
qed

lemma leaseTTLSeconds_pos: "0 < leaseTTLSeconds ms"
  by (simp add: leaseTTLSeconds_def pos_imp_zdiv_pos_iff)

lemma document_snapshot_typed:
  fixes fold_case doc v t ks
  defines "s \<equiv> NewTenantSnapshot (compile_data fold_case doc v t ks)"
  assumes ok: "document_ok doc" and keys: "\<forall>k \<in> set ks. has_id kp_ID (tc_Projects doc) (ak_ProjectID k)"
  shows "snapshot_typed s"
proof -
  note look = compiled_lookup [of fold_case doc v t ks, folded s_def]
  note oks = ok [unfolded document_ok_def]
  note okl = oks [THEN conjunct1] and okr = oks [THEN conjunct2, THEN conjunct1]
    and okd = oks [THEN conjunct2, THEN conjunct2, THEN conjunct1]
    and okp = oks [THEN conjunct2, THEN conjunct2, THEN conjunct2, THEN conjunct1]
    and okb = oks [THEN conjunct2, THEN conjunct2, THEN conjunct2, THEN conjunct2]
  have cred: "credential_of s w c" if "\<exists>x. last_with kc_ID (tc_Credentials doc) c = Some x \<and> kc_ProviderID x = w" for w c
    using that by (auto simp: credential_of_def look compile_credential_def)
  have lm: "snap_RoutePolicy s (lm_RoutePolicyID m) \<noteq> None" if "snap_LogicalModel s a = Some m" for a m
  proof -
    from that obtain x where x: "x \<in> set (tc_LogicalModels doc)" "m = compile_logical_model x"
      by (auto simp: look dest: last_with_Some)
    from okl x(1) have "has_id kr_ID (tc_RoutePolicies doc) (kl_RoutePolicyID x)" by blast
    then show ?thesis by (simp add: look last_with_has_id x(2) compile_logical_model_def)
  qed
  have rt: "route_typed s r" if "snap_RoutePolicy s i = Some r" for i r
  proof -
    from that obtain x where x: "x \<in> set (tc_RoutePolicies doc)" "r = compile_route x"
      by (auto simp: look dest: last_with_Some)
    from okr x(1) have f: "kr_Strategy x \<in> set routeStrategies" "\<forall>i \<in> set (kr_DeploymentIDs x). last_with kd_ID (tc_Deployments doc) i \<noteq> None"
      and e: "has_enabled (tc_Deployments doc) (kr_DeploymentIDs x)" by blast+
    from e obtain j d where "j \<in> set (kr_DeploymentIDs x)" "last_with kd_ID (tc_Deployments doc) j = Some d" "kd_Status d = ''enabled''"
      by (auto simp: has_enabled_def list_ex_iff split: option.splits)
    then have "\<exists>i \<in> set (rp_DeploymentIDs r). \<exists>d. snap_Deployment s i = Some d \<and> dp_Status d = ''enabled''"
      by (intro bexI [of _ j]) (simp_all add: look x(2) compile_route_def compile_deployment_def)
    moreover have "rp_Strategy r \<in> set routeStrategies" "\<forall>i \<in> set (rp_DeploymentIDs r). snap_Deployment s i \<noteq> None"
      using f by (simp_all add: look x(2) compile_route_def)
    ultimately show ?thesis unfolding route_typed_def by blast
  qed
  have dt: "deployment_typed s d" if "snap_Deployment s i = Some d" for i d
  proof -
    from that obtain x where x: "x \<in> set (tc_Deployments doc)" "d = compile_deployment fold_case x"
      by (auto simp: look dest: last_with_Some)
    have f: "dp_ProviderID d = kd_ProviderID x" "dp_CredentialID d = kd_CredentialID x" "dp_PoolID d = kd_PoolID x"
      by (simp_all add: x(2) compile_deployment_def)
    have "\<exists>p. snap_CredentialPool s (kd_PoolID x) = Some p \<and> pool_typed s (kd_ProviderID x) p" if ne: "kd_PoolID x \<noteq> ''''"
    proof -
      obtain q where q: "last_with kq_ID (tc_CredentialPools doc) (kd_PoolID x) = Some q" "kq_ProviderID q = kd_ProviderID x"
        using okd x(1) ne by blast
      then have mem: "q \<in> set (tc_CredentialPools doc)" by (auto dest: last_with_Some)
      have "pool_typed s (kd_ProviderID x) (compile_pool q)"
        unfolding pool_typed_def compile_pool_def credential_pool.simps q(2) [symmetric]
        using bspec [OF okp mem] cred by blast
      then show ?thesis by (simp add: look q)
    qed
    moreover have "has_id kv_ID (tc_Providers doc) (kd_ProviderID x)" using okd x(1) by blast
    then have "snap_Provider s (kd_ProviderID x) \<noteq> None" by (simp add: look last_with_has_id)
    moreover have "credential_of s (kd_ProviderID x) (kd_CredentialID x)" using okd x(1) by (intro cred) blast
    ultimately show ?thesis unfolding deployment_typed_def f by blast
  qed
  have ls: "0 < lc_Capacity l \<and> 0 < lc_TTLSeconds l \<and> snap_Deployment s i \<noteq> None" if "snap_Lease s i = Some l" for i l
  proof -
    from last_with_Some [OF that [unfolded look]] obtain x
      where "x \<in> set (tc_Deployments doc)" "l \<in> set (compile_lease x)" "lc_DeploymentID l = i" by auto
    then show ?thesis
      by (auto simp: compile_lease_def leaseTTLSeconds_pos look last_with_has_id has_id_def split: if_split_asm)
  qed
  have bt: "0 < rb_WindowHours b \<and> rb_Mode b \<in> set budgetModes" if "snap_BudgetPolicy s i = Some b" for i b
  proof -
    from that obtain x where x: "x \<in> set (tc_BudgetPolicies doc)" "b = compile_budget x"
      by (auto simp: look dest: last_with_Some)
    from bspec [OF okb x(1)] show ?thesis by (simp add: x(2) compile_budget_def)
  qed
  have kt: "snap_Project s (ak_ProjectID key) \<noteq> None" if "snap_APIKey s k = Some key" for k key
    using last_with_Some [OF that [unfolded look]] keys by (simp add: look)
  show ?thesis unfolding snapshot_typed_def using lm rt dt ls bt kt by blast
qed

lemma compile_success:
  assumes "CompileWithSystemDefaultsAndAPIKeys url_parse fold_case system doc version publishedAt keys = Inr s"
  shows "\<exists>data. s = NewTenantSnapshot data" "snapshot_typed s"
proof -
  let ?doc = "ApplySystemDefaults system doc"
  from assms obtain ks where v: "\<not> HasErrors (Validate url_parse ?doc)" and k: "compile_keys ?doc keys = Inr ks"
    and s: "s = NewTenantSnapshot (compile_data fold_case ?doc version publishedAt ks)"
    by (auto simp: CompileWithSystemDefaultsAndAPIKeys_def Let_def split: if_split_asm sum.split_asm)
  show "\<exists>data. s = NewTenantSnapshot data" using s by blast
  show "snapshot_typed s" unfolding s
    by (rule document_snapshot_typed [OF Validate_document_ok [OF v]]) (use k in \<open>blast intro: compile_keys_projects\<close>)
qed


definition example_document :: tenant_config where
  "example_document = \<lparr>tc_SchemaVersion = ''v1'',
     tc_Tenant = \<lparr>tr_ID = ''t'', tr_PublicRef = ''t'', tr_Status = ''active'', tr_SecurityEpoch = 1, tr_AllowedDataRegions = [],
       tr_ResidencyEnforcement = ''''\<rparr>,
     tc_Projects = [\<lparr>kp_ID = ''j'', kp_TenantID = ''t'', kp_Status = ''active'', kp_AllowedDataRegions = [],
       kp_ResidencyEnforcement = '''', kp_AgentDefaultsRequireApproval = False\<rparr>],
     tc_Providers = [\<lparr>kv_ID = ''p'', kv_TenantID = ''t'', kv_OwnerScope = ''TENANT_PRIVATE'', kv_Type = ''openai'',
       kv_Endpoint = '''', kv_Status = ''enabled''\<rparr>],
     tc_Credentials = [\<lparr>kc_ID = ''c'', kc_ProviderID = ''p'', kc_TenantID = ''t'', kc_OwnerScope = ''TENANT_PRIVATE'',
       kc_SecretRef = ''env://KEY'', kc_Status = ''enabled''\<rparr>],
     tc_Deployments = [\<lparr>kd_ID = ''d'', kd_TenantID = ''t'', kd_ProviderID = ''p'', kd_CredentialID = ''c'', kd_PoolID = ''q'',
       kd_UpstreamModel = ''m'', kd_DataRegion = ''eu'', kd_Capabilities = [], kd_ContextWindow = 0, kd_Priority = 0,
       kd_LeaseCapacity = 4, kd_LeaseTTLMS = 0, kd_Status = ''enabled''\<rparr>],
     tc_RoutePolicies = [\<lparr>kr_ID = ''r'', kr_TenantID = ''t'', kr_ProjectID = ''j'', kr_Strategy = ''priority'',
       kr_DeploymentIDs = [''d''], kr_Weights = [], kr_ScoreWeights = [], kr_Version = 1\<rparr>],
     tc_LogicalModels = [\<lparr>kl_ID = ''l'', kl_TenantID = ''t'', kl_Alias = ''m'', kl_RoutePolicyID = ''r''\<rparr>],
     tc_BudgetPolicies = [],
     tc_CredentialPools = [\<lparr>kq_ID = ''q'', kq_TenantID = ''t'', kq_ProviderID = ''p'', kq_Strategy = ''weighted'',
       kq_Members = [\<lparr>pm_CredentialID = ''c'', pm_Weight = 1\<rparr>]\<rparr>],
     tc_Circuit = \<lparr>rc_MinSamples = 0, rc_ErrorRate = 0, rc_InitialCooldownMS = 0, rc_MaxCooldownMS = 0, rc_CooldownFactor = 0\<rparr>,
     tc_Drift = \<lparr>km_GraceMS = 0, km_Strict = False, km_SecurityEpoch = 0\<rparr>,
     tc_AccountingSpool = \<lparr>sp_Mode = '''', sp_WarnThreshold = 0, sp_CriticalThreshold = 0, sp_HardThreshold = 0, sp_QuotaBytes = 0\<rparr>,
     tc_Cache = \<lparr>cp_Enabled = False, cp_TTLSeconds = 0, cp_NamespaceVersion = 0, cp_AllowedKinds = [], cp_MaxTemperature = 0,
       cp_Semantic = \<lparr>sm_Enabled = False, sm_Model = '''', sm_Threshold = 0\<rparr>\<rparr>,
     tc_MCPServers = [], tc_Tools = [], tc_ToolPolicies = [], tc_Agents = [], tc_AgentEndpoints = [], tc_FederatedAgents = [],
     tc_FederationRelationships = [],
     tc_Guardrail = \<lparr>kw_Mode = '''', kw_Rules = [], kw_Judge = \<lparr>gj_Enabled = False, gj_Model = '''', gj_Action = ''''\<rparr>,
       kw_Groundedness = \<lparr>gg_Enabled = False, gg_MinOverlap = 0\<rparr>\<rparr>\<rparr>"

definition example_url :: url_parser where
  "example_url s = (if s = ''env://KEY'' then Some \<lparr>u_Scheme = ''env'', u_HasUser = False, u_Host = ''KEY'', u_Opaque = '''', u_Path = ''''\<rparr>
     else None)"

lemma example_document_valid: "Validate example_url example_document = []"
  by code_simp

lemma example_document_compiles:
  "CompileWithSystemDefaultsAndAPIKeys example_url (\<lambda>s. s) empty_system example_document 1 0 [] =
     Inr (NewTenantSnapshot (compile_data (\<lambda>s. s) example_document 1 0 []))"
proof -
  have d: "ApplySystemDefaults empty_system example_document = example_document"
    by (simp add: ApplySystemDefaults_def example_document_def)
  show ?thesis by (simp add: CompileWithSystemDefaultsAndAPIKeys_def Let_def d example_document_valid)
qed


end
