(* ===== verification/Request_Pipeline.thy ===== *)
theory Request_Pipeline
  imports Accounting Circuit Rate_Limit Config
begin

text \<open>
  The seven-stage request pipeline: the runner of \<^verbatim>\<open>internal/kernel/pipeline\<close> and the stages that
  \<^verbatim>\<open>internal/app/pipeline.go\<close> installs. A gateway is the state its requests share: limiter, token meter, budget,
  repository, caches, planner, breaker and metrics. The environment answers for what lies outside: clock and
  identifier generator (the n-th reading of each), approval store, guardrail engine, embedder, provider probe and
  the provider calls of the executor, whose behaviour is the subject of \<^verbatim>\<open>Execution\<close>. Before each stage anything
  else may change the gateway (\<open>ev_others\<close>): other requests, and what the answers of the environment do to it, such
  as the breaker entries the executor records and the auxiliary usage of the embedder. Within one stage the breaker
  is read at one instant. A panic is an answer of a stage. \<^verbatim>\<open>Run\<close> refuses a request without payload or snapshot and no
  stage clears them; the operations below give a default where the code would dereference nil. Tracing and
  process-wide counters are left out.
\<close>

subsection \<open>The runner\<close>

datatype stage = StageAdmission | InputGuardrail | PolicyCostPreflight | Resolution | ExecutionResilience | OutputStreamGuardrail
  | AccountingTelemetry

definition pipeline_Order :: "stage list" where
  "pipeline_Order = [StageAdmission, InputGuardrail, PolicyCostPreflight, Resolution, ExecutionResilience, OutputStreamGuardrail,
     AccountingTelemetry]"

text \<open>The runner works on any state; \<open>set_err\<close> records the error of the stages for the accounting stage.\<close>

datatype stage_answer = Answer directive "gw_error option" | Panics

type_synonym 'w handler = "'w \<Rightarrow> 'w \<times> stage_answer"

record 'w handlers =
  hd_Admission :: "'w handler"
  hd_InputGuardrail :: "'w handler"
  hd_PolicyCostPreflight :: "'w handler"
  hd_Resolution :: "'w handler"
  hd_ExecutionResilience :: "'w handler"
  hd_OutputStreamGuardrail :: "'w handler"
  hd_AccountingAndTelemetry :: "'w handler"

definition stage_String :: "stage \<Rightarrow> string" where
  "stage_String st =
     (case st of StageAdmission \<Rightarrow> ''admission'' | InputGuardrail \<Rightarrow> ''input_guardrail''
      | PolicyCostPreflight \<Rightarrow> ''policy_cost_preflight'' | Resolution \<Rightarrow> ''resolution''
      | ExecutionResilience \<Rightarrow> ''execution_resilience'' | OutputStreamGuardrail \<Rightarrow> ''output_stream_guardrail''
      | AccountingTelemetry \<Rightarrow> ''accounting_telemetry'')"

fun directive_number :: "directive \<Rightarrow> nat" where
  "directive_number Continue = 0"
| "directive_number SkipResolutionExecution = 1"
| "directive_number (Unsupported n) = n"

definition unsupported :: "stage \<Rightarrow> directive \<Rightarrow> gw_error" where
  "unsupported st d =
     OtherError (''pipeline stage '' @ stage_String st @ '' returned unsupported directive '' @ show_nat (directive_number d))"

text \<open>
  How a stage ends. An error is wrapped with the name of the stage, which leaves what it is visible to
  \<^verbatim>\<open>errors.As\<close> and \<^verbatim>\<open>errors.Is\<close>, so the model keeps the error itself.
\<close>

definition opt_list :: "'a option \<Rightarrow> 'a list" where
  "opt_list x = (case x of None \<Rightarrow> [] | Some y \<Rightarrow> [y])"

datatype stage_end = Passed | Failed gw_error | Panicked

definition runStage :: "stage \<Rightarrow> 'w handler \<Rightarrow> 'w \<Rightarrow> 'w \<times> stage_end" where
  "runStage st h w =
     (case h w of (w', Panics) \<Rightarrow> (w', Panicked)
      | (w', Answer d (Some err)) \<Rightarrow> (w', Failed err)
      | (w', Answer d None) \<Rightarrow> if d = Continue then (w', Passed) else (w', Failed (unsupported st d)))"

definition andThen :: "'w \<times> stage_end \<Rightarrow> ('w \<Rightarrow> 'w \<times> stage_end) \<Rightarrow> 'w \<times> stage_end" where
  "andThen r f = (if snd r = Passed then f (fst r) else r)"

definition run_preflight :: "'w handlers \<Rightarrow> 'w \<Rightarrow> 'w \<times> stage_end" where
  "run_preflight hs w =
     (case hd_PolicyCostPreflight hs w of
        (w', Panics) \<Rightarrow> (w', Panicked)
      | (w', Answer d (Some err)) \<Rightarrow> (w', Failed err)
      | (w', Answer Continue None) \<Rightarrow>
          andThen (andThen (runStage Resolution (hd_Resolution hs) w') (runStage ExecutionResilience (hd_ExecutionResilience hs)))
            (runStage OutputStreamGuardrail (hd_OutputStreamGuardrail hs))
      | (w', Answer SkipResolutionExecution None) \<Rightarrow> runStage OutputStreamGuardrail (hd_OutputStreamGuardrail hs) w'
      | (w', Answer d None) \<Rightarrow> (w', Failed (unsupported PolicyCostPreflight d)))"

definition run_stages :: "'w handlers \<Rightarrow> 'w \<Rightarrow> 'w \<times> stage_end" where
  "run_stages hs w =
     andThen (andThen (runStage StageAdmission (hd_Admission hs) w) (runStage InputGuardrail (hd_InputGuardrail hs))) (run_preflight hs)"

definition stage_error :: "stage_end \<Rightarrow> gw_error option" where
  "stage_error e = (case e of Failed err \<Rightarrow> Some err | _ \<Rightarrow> None)"

text \<open>
  The deferred accounting runs on every exit. When a stage panics the named result is still nil, so accounting sees
  no error; then the panic goes on, and the run has no result (\<open>None\<close>). Otherwise the result is the joined errors.
\<close>

definition runner_Run :: "(gw_error option \<Rightarrow> 'w \<Rightarrow> 'w) \<Rightarrow> 'w handlers \<Rightarrow> 'w \<Rightarrow> 'w \<times> gw_error list option" where
  "runner_Run set_err hs w =
     (let (w, e) = run_stages hs w; (w, a) = hd_AccountingAndTelemetry hs (set_err (stage_error e) w)
      in (w, case a of Panics \<Rightarrow> None
             | Answer d accountingErr \<Rightarrow>
                 if e = Panicked then None else Some (opt_list (stage_error e) @ opt_list accountingErr)))"

subsection \<open>The gateway and its environment\<close>

record ('s, 'r) gateway =
  gw_limiter :: limiter
  gw_meter :: meter
  gw_ledgers :: "('s, 'r) ledgers"
  gw_cache :: "memory_cache option"
  gw_index :: "semantic_store option"
  gw_metrics :: routing_metrics
  gw_planner :: planner
  gw_circuit :: breaker
  gw_live :: "(string \<times> string \<times> string \<times> int) list option"
  gw_ids :: nat
  gw_reads :: nat

record exec_answer =
  xa_Attempts :: "attempt list"
  xa_Err :: "gw_error option"
  xa_Response :: "unified_response option"
  xa_DeploymentID :: string
  xa_TTFT :: duration

record ('s, 'r) gw_env =
  ev_clock :: "nat \<Rightarrow> gotime"
  ev_ids :: "nat \<Rightarrow> gw_error + string"
  ev_oor :: "f64 \<Rightarrow> int"
  ev_lower :: "string \<Rightarrow> string"
  ev_trim :: "string \<Rightarrow> string"
  ev_marshal :: tools_encoder
  ev_sha :: "string \<Rightarrow> string"
  ev_log :: "f64 \<Rightarrow> f64"
  ev_ops :: "'s ledger_ops"
  ev_persist :: "'r repository"
  ev_approvals :: "(request_context \<Rightarrow> gw_error + approval_decision) option"
  ev_ratePolicy :: rate_policy
  ev_tpmPolicy :: "(string \<Rightarrow> string \<Rightarrow> int) option"
  ev_tokenizer :: "tok_registry option"
  ev_contextGuard :: "tok_registry option option"
  ev_contextStrict :: bool
  ev_probe :: "(string \<Rightarrow> string \<Rightarrow> string \<Rightarrow> bool) option"
  ev_cacheLib :: cache_lib
  ev_embedder :: "(request_context \<Rightarrow> string \<Rightarrow> f64 list option) option"
  ev_inputGuard :: "request_context \<Rightarrow> ((unified_request \<Rightarrow> unified_request) \<times> gw_error option) option"
  ev_outputGuard :: "request_context \<Rightarrow> ((unified_response \<Rightarrow> unified_response) \<times> gw_error option) option"
  ev_execute :: "route_plan option \<Rightarrow> request_context \<Rightarrow> exec_answer option"
  ev_others :: "stage \<Rightarrow> ('s, 'r) gateway \<Rightarrow> ('s, 'r) gateway"

text \<open>What the closures of one run share: the gateway, the request, the plan, the attempts and the start.\<close>

record ('s, 'r) run =
  rn_gw :: "('s, 'r) gateway"
  rn_ctx :: request_context
  rn_plan :: "route_plan option"
  rn_result :: "attempt list option"
  rn_started :: gotime

definition clock_Now :: "('s, 'r) gw_env \<Rightarrow> ('s, 'r) gateway \<Rightarrow> ('s, 'r) gateway \<times> gotime" where
  "clock_Now env g = (g\<lparr>gw_reads := gw_reads g + 1\<rparr>, ev_clock env (gw_reads g))"

definition ids_New :: "('s, 'r) gw_env \<Rightarrow> ('s, 'r) gateway \<Rightarrow> ('s, 'r) gateway \<times> (gw_error + string)" where
  "ids_New env g = (g\<lparr>gw_ids := gw_ids g + 1\<rparr>, ev_ids env (gw_ids g))"

definition with_budget :: "('s, 'r) gateway \<Rightarrow> 's enforcer option \<Rightarrow> ('s, 'r) gateway" where
  "with_budget g b = g\<lparr>gw_ledgers := (gw_ledgers g)\<lparr>lg_budget := b\<rparr>\<rparr>"

definition limited :: "request_context \<Rightarrow> string \<Rightarrow> string \<Rightarrow> gw_error" where
  "limited c code msg = KernelError \<lparr>ke_Code = code, ke_Message = msg, ke_RequestID = xc_RequestID c, ke_Retryable = True\<rparr>"

subsection \<open>Preflight\<close>

definition effectiveRatePolicy :: "('s, 'r) gw_env \<Rightarrow> rate_policy" where
  "effectiveRatePolicy env =
     (if RequestsPerMinute (ev_ratePolicy env) \<le> 0 then \<lparr>RequestsPerMinute = 600, Burst = 600\<rparr> else ev_ratePolicy env)"

definition estimateTokens :: "('s, 'r) gw_env \<Rightarrow> unified_request option \<Rightarrow> int" where
  "estimateTokens env r = estimateTokensWith (ev_oor env) (ev_lower env) (ev_trim env) (ev_marshal env) r (ev_tokenizer env)"

definition reserve_step :: "('s, 'r) gw_env \<Rightarrow> ('s, 'r) gateway \<Rightarrow> request_context \<Rightarrow> ('s, 'r) gateway \<times> request_context \<times> gw_error option" where
  "reserve_step env g c =
     (if lg_budget (gw_ledgers g) = None \<or> xc_Snapshot c = None \<or> xc_Request c = None \<or> xc_ReservationID c \<noteq> '''' then (g, c, None)
      else
        let (g, now) = clock_Now env g
        in if budgetPolicyFor (ev_oor env) c now = None then (g, c, None)
           else
             let (g, fresh) = ids_New env g; (g, now') = clock_Now env g;
                 (b, c, err) = reserveBudget (ev_oor env) (ev_ops env) (lg_budget (gw_ledgers g)) c (estimateTokens env (xc_Request c))
                   fresh now now'
             in (with_budget g b, c, err))"

definition cache_lookup :: "('s, 'r) gw_env \<Rightarrow> ('s, 'r) gateway \<Rightarrow> request_context \<Rightarrow> ('s, 'r) gateway \<times> request_context \<times> directive" where
  "cache_lookup env g c =
     (let (g, now) = clock_Now env g;
          (store, _, c, d) = cache_Handle (ev_cacheLib env) (gw_cache g) None c now;
          g = g\<lparr>gw_cache := store\<rparr>
      in if d \<noteq> Continue then (g, c, d)
         else case (xc_Snapshot c, store, gw_index g, ev_embedder env) of
                (Some s, Some exact, Some index, Some embedder) \<Rightarrow>
                  if sm_Enabled (cp_Semantic (ts_cache s)) then
                    let (g, now) = clock_Now env g;
                        (index, exact, _, c, d) = semantic_Handle (ev_cacheLib env) (sm_Threshold (cp_Semantic (ts_cache s))) False
                          (embedder c) None index exact c now
                    in (g\<lparr>gw_index := Some index, gw_cache := Some exact\<rparr>, c, d)
                  else (g, c, d)
              | _ \<Rightarrow> (g, c, d))"

definition preflight :: "('s, 'r) gw_env \<Rightarrow> ('s, 'r) gateway \<Rightarrow> request_context \<Rightarrow> ('s, 'r) gateway \<times> request_context \<times> directive \<times> gw_error option" where
  "preflight env g c =
     (case approval_Handle (ev_approvals env) c of
        Some err \<Rightarrow> (g, c, Continue, Some err)
      | None \<Rightarrow>
          let (g, now) = clock_Now env g;
              (l, decision) = limiter_Allow (ev_oor env) (gw_limiter g) (ctx_TenantID c) (ctx_ProjectID c) (effectiveRatePolicy env) now;
              g = g\<lparr>gw_limiter := l\<rparr>
          in if \<not> Allowed decision then (g, c, Continue, Some (limited c ''RATE_LIMITED'' ''rate limit exceeded''))
             else
               let estimate = estimateTokens env (xc_Request c); (g, now) = clock_Now env g;
                   (m, decision, _) = meter_Reserve (ev_tpmPolicy env) (gw_meter g) (ctx_TenantID c) (ctx_ProjectID c) estimate now;
                   g = g\<lparr>gw_meter := m\<rparr>
               in if \<not> Allowed decision then (g, c, Continue, Some (limited c ''TPM_LIMITED'' ''token rate limit exceeded''))
                  else
                    let (g, c, err) = reserve_step env g (c\<lparr>xc_TPMEstimated := estimate\<rparr>)
                    in case err of Some e \<Rightarrow> (g, c, Continue, Some e)
                       | None \<Rightarrow>
                           if (case xc_Request c of None \<Rightarrow> False | Some r \<Rightarrow> ur_Stream r) then (g, c, Continue, None)
                           else let (g, c, d) = cache_lookup env g c in (g, c, d, None))"

subsection \<open>Resolution and execution\<close>

definition health_of :: "('s, 'r) gw_env \<Rightarrow> routing_metrics \<Rightarrow> tenant_snapshot \<Rightarrow> deployment \<Rightarrow> bool \<Rightarrow> gotime \<Rightarrow> bool" where
  "health_of env m s d isopen now =
     (if isopen then False
      else if metrics_hasData m (dp_ID d) now then metrics_healthy m (dp_ID d) now
      else case ev_probe env of None \<Rightarrow> True
           | Some probe \<Rightarrow>
               if dp_Status d \<noteq> ''enabled'' then True
               else case snap_Provider s (dp_ProviderID d) of None \<Rightarrow> True
                    | Some v \<Rightarrow>
                        (case snap_Credential s (dp_CredentialID d) of None \<Rightarrow> False
                         | Some k \<Rightarrow> cr_Status k = ''enabled'' \<and> probe (pv_Type v) (pv_Endpoint v) (cr_SecretRef k)))"

definition routeHealth ::
  "('s, 'r) gw_env \<Rightarrow> routing_metrics \<Rightarrow> breaker \<Rightarrow> tenant_snapshot \<Rightarrow> gotime \<Rightarrow> breaker \<times> (string \<rightharpoonup> bool)" where
  "routeHealth env m b s now =
     foldl (\<lambda>(b, health) d. let (b, isopen) = breaker_Open (ev_oor env) b (dp_ID d) (dp_CredentialID d) now
              in (b, health(dp_ID d \<mapsto> health_of env m s d isopen now)))
       (b, Map.empty) (snap_Deployments s)"

definition breakerConfigFromSnapshot :: "rt_circuit_config \<Rightarrow> circuit_config" where
  "breakerConfigFromSnapshot cc =
     (if rc_MinSamples cc = 0 then DefaultConfig
      else
        let cd = i64 (rc_InitialCooldownMS cc * millisecond); cd = (if cd \<le> 0 then cfg_Cooldown DefaultConfig else cd);
            mx = i64 (rc_MaxCooldownMS cc * millisecond)
        in \<lparr>cfg_MinSamples = rc_MinSamples cc,
            cfg_ErrorRate = (if rc_ErrorRate cc \<le> 0 then cfg_ErrorRate DefaultConfig else rc_ErrorRate cc),
            cfg_Cooldown = cd, cfg_CooldownFactor = rc_CooldownFactor cc, cfg_MaxCooldown = (if mx \<le> 0 then cd else mx),
            cfg_Observer = False\<rparr>)"

definition plan_input_of ::
  "('s, 'r) gw_env \<Rightarrow> request_context \<Rightarrow> breaker \<Rightarrow> (string \<rightharpoonup> bool) \<Rightarrow> (string \<rightharpoonup> deployment_metrics) \<Rightarrow> gotime \<Rightarrow> plan_input" where
  "plan_input_of env c b health metrics now =
     \<lparr>in_Snapshot = xc_Snapshot c, in_Key = xc_Key c, in_LogicalModel = (case xc_Request c of None \<Rightarrow> '''' | Some r \<Rightarrow> ur_Model r),
      in_ProjectID = ctx_ProjectID c, in_RequestID = xc_RequestID c, in_RoutingKey = '''',
      in_RequiredCapabilities = requiredCapabilities (xc_Request c),
      in_RequiresTools = (case xc_Request c of None \<Rightarrow> False | Some r \<Rightarrow> (case ur_Chat r of None \<Rightarrow> False | Some h \<Rightarrow> ch_Tools h \<noteq> [])),
      in_ContextTokens = estimateContextTokensWith (ev_oor env) (ev_lower env) (ev_marshal env) (xc_Request c) (ev_tokenizer env),
      in_Health = health, in_Circuit = Some (\<lambda>d k. snd (breaker_Open (ev_oor env) b d k now)), in_Metrics = metrics\<rparr>"

definition context_exceeded :: "('s, 'r) gw_env \<Rightarrow> request_context \<Rightarrow> string \<Rightarrow> bool" where
  "context_exceeded env c selected =
     (case (ev_contextGuard env, xc_Snapshot c) of
        (Some registry, Some s) \<Rightarrow>
          if \<not> ev_contextStrict env \<or> selected = '''' then False
          else (case snap_Deployment s selected of None \<Rightarrow> False
                | Some d \<Rightarrow> \<not> snd (guard_Check (ev_oor env) (ev_lower env) (ev_marshal env) registry True (xc_Request c)
                      (dp_UpstreamModel d) (dp_ContextWindow d)))
      | _ \<Rightarrow> False)"

definition resolution :: "('s, 'r) gw_env \<Rightarrow> ('s, 'r) run handler" where
  "resolution env q =
     (case xc_Snapshot (rn_ctx q) of None \<Rightarrow> (q, Answer Continue (Some NoEligibleDeployment))
      | Some s \<Rightarrow>
          let c = rn_ctx q; (g, now) = clock_Now env (rn_gw q);
              (b, health) = routeHealth env (gw_metrics g) (gw_circuit g) s now;
              (g, now) = clock_Now env (g\<lparr>gw_circuit := b\<rparr>);
              (m, metrics) = metrics_snapshot (gw_metrics g) now;
              (p, plan, err) = planner_Plan (ev_sha env) (ev_log env) (gw_planner g) (plan_input_of env c b health metrics now);
              q = q\<lparr>rn_gw := g\<lparr>gw_metrics := m, gw_planner := p\<rparr>\<rparr>
          in case err of
               Some SliceBounds \<Rightarrow> (q, Panics)
             | Some ErrNoEligibleDeployment \<Rightarrow> (q\<lparr>rn_plan := plan\<rparr>, Answer Continue (Some NoEligibleDeployment))
             | None \<Rightarrow>
                 let selected = (case plan of None \<Rightarrow> '''' | Some pl \<Rightarrow> pl_selected pl);
                     c = c\<lparr>xc_SelectedDeploymentID := selected\<rparr>
                 in (q\<lparr>rn_plan := plan, rn_ctx := c\<rparr>, Answer Continue
                      (if context_exceeded env c selected
                       then Some (KernelError \<lparr>ke_Code = ''CONTEXT_EXCEEDED'', ke_Message = ''request exceeds the model context window'',
                         ke_RequestID = xc_RequestID c, ke_Retryable = False\<rparr>)
                       else None)))"

definition streaming :: "request_context \<Rightarrow> bool" where
  "streaming c \<longleftrightarrow> xc_HasStreamWriter c \<and> (case xc_Request c of None \<Rightarrow> False | Some r \<Rightarrow> ur_Stream r)"

text \<open>
  A stream that fails leaves the result of the run unset, since the attempts are assigned to a variable of the
  branch; the other branch keeps the attempts of a failed execution.
\<close>

definition exec_failed :: "('s, 'r) run \<Rightarrow> exec_answer \<Rightarrow> duration \<Rightarrow> ('s, 'r) run" where
  "exec_failed q a latency =
     (if streaming (rn_ctx q) then q\<lparr>rn_ctx := (rn_ctx q)\<lparr>xc_Latency := latency, xc_TTFT := xa_TTFT a\<rparr>\<rparr>
      else q\<lparr>rn_ctx := (rn_ctx q)\<lparr>xc_Latency := latency\<rparr>, rn_result := Some (xa_Attempts a)\<rparr>)"

definition exec_selected :: "request_context \<Rightarrow> exec_answer \<Rightarrow> string" where
  "exec_selected c a =
     (if streaming c then (if xa_Attempts a = [] then xc_SelectedDeploymentID c else at_DeploymentID (last (xa_Attempts a)))
      else xa_DeploymentID a)"

definition execution :: "('s, 'r) gw_env \<Rightarrow> ('s, 'r) run handler" where
  "execution env q =
     (let c = rn_ctx q
      in case ev_execute env (rn_plan q) c of None \<Rightarrow> (q, Panics)
         | Some a \<Rightarrow>
             let (g, now) = clock_Now env (rn_gw q); latency = t_sub now (rn_started q); q = q\<lparr>rn_gw := g\<rparr>
             in case xa_Err a of Some err \<Rightarrow> (exec_failed q a latency, Answer Continue (Some err))
                | None \<Rightarrow>
                    let selected = exec_selected c a;
                        c = c\<lparr>xc_Response := xa_Response a, xc_SelectedDeploymentID := selected,
                          xc_Usage := (case xa_Response a of None \<Rightarrow> xc_Usage c | Some r \<Rightarrow> Some (xr_Usage r)),
                          xc_Latency := latency, xc_TTFT := (if streaming c then xa_TTFT a else 0)\<rparr>;
                        m = (if selected = '''' then gw_metrics g else metrics_begin (gw_metrics g) selected)
                    in (q\<lparr>rn_gw := g\<lparr>gw_metrics := m\<rparr>, rn_ctx := c, rn_result := Some (xa_Attempts a)\<rparr>, Answer Continue None))"

subsection \<open>Accounting\<close>

record usage_facts =
  uf_logicalModel :: string
  uf_deploymentID :: string
  uf_outcome :: string
  uf_usageSource :: string
  uf_inputTokens :: int
  uf_outputTokens :: int
  uf_retries :: int
  uf_fallbacks :: int
  uf_latency :: duration
  uf_agentID :: string
  uf_attempts :: "acc_attempt list"
  uf_routeEvidence :: "route_evidence list"
  uf_settle :: bool
  uf_providerCost :: "f64 option"
  uf_providerCurrency :: string
  uf_providerID :: string
  uf_ttft :: duration

definition routeEvidenceFromPlan :: "route_plan option \<Rightarrow> route_evidence list" where
  "routeEvidenceFromPlan plan =
     (case plan of None \<Rightarrow> []
      | Some p \<Rightarrow> map (\<lambda>e. \<lparr>rv_DeploymentID = ce_DeploymentID e, rv_Eligible = ce_Eligible e, rv_Exclusions = ce_Exclusions e\<rparr>) (pl_evidence p))"

definition attemptsFromResult :: "attempt list option \<Rightarrow> acc_attempt list \<times> int \<times> int" where
  "attemptsFromResult result =
     (case result of None \<Rightarrow> ([], 0, 0)
      | Some xs \<Rightarrow>
          (map (\<lambda>a. \<lparr>aa_DeploymentID = at_DeploymentID a, aa_Outcome = at_Outcome a, aa_Number = at_Number a, aa_Retryable = at_Retryable a\<rparr>) xs,
           int (length (filter (\<lambda>a. 1 < at_Number a) xs)),
           int (length (filter (\<lambda>a. at_Number a = 1 \<and> 1 < length xs) xs))))"

definition usageSource :: "string \<Rightarrow> string \<Rightarrow> string" where
  "usageSource source fallback = (if source = '''' then fallback else source)"

definition facts_of :: "request_context \<Rightarrow> usage_facts \<Rightarrow> string \<Rightarrow> gotime \<Rightarrow> acc_facts" where
  "facts_of c f usageID now =
     (let v = facts_zero\<lparr>fc_UsageEventID := usageID, fc_RequestID := xc_RequestID c, fc_TenantID := ctx_TenantID c,
            fc_ProjectID := ctx_ProjectID c, fc_KeyID := ak_ID (xc_Key c), fc_LogicalModel := uf_logicalModel f,
            fc_DeploymentID := uf_deploymentID f, fc_Outcome := uf_outcome f, fc_UsageSource := uf_usageSource f,
            fc_InputTokens := uf_inputTokens f, fc_OutputTokens := uf_outputTokens f, fc_RetryCount := uf_retries f,
            fc_FallbackCount := uf_fallbacks f, fc_LatencyMS := dur_milliseconds (uf_latency f), fc_SnapshotVersion := ctx_SnapshotVersion c,
            fc_SecurityEpoch := (case xc_Snapshot c of None \<Rightarrow> 0 | Some s \<Rightarrow> ts_SecurityEpoch s), fc_ReceivedAt := xc_ReceivedAt c,
            fc_CompletedAt := now, fc_AgentID := uf_agentID f, fc_Attempts := uf_attempts f, fc_RouteEvidence := uf_routeEvidence f,
            fc_BudgetPolicyID := xc_BudgetPolicyID c, fc_ReservationID := xc_ReservationID c\<rparr>;
          v = (case xc_Usage c of None \<Rightarrow> v
               | Some u \<Rightarrow> v\<lparr>fc_CacheReadTokens := xu_CacheReadTokens u, fc_CacheWriteTokens := xu_CacheWriteTokens u,
                   fc_CachedInputTokens := xu_CachedInputTokens u, fc_ReasoningTokens := xu_ReasoningTokens u, fc_ToolCalls := xu_ToolCalls u,
                   fc_Estimated := xu_Estimated u, fc_EstimationMethod := xu_EstimationMethod u\<rparr>);
          v = (if uf_settle f \<and> xc_ReservationID c \<noteq> '''' then v\<lparr>fc_ActualTokens := Some (i64 (uf_inputTokens f + uf_outputTokens f))\<rparr> else v)
      in case uf_providerCost f of None \<Rightarrow> v
         | Some cost \<Rightarrow> v\<lparr>fc_ProviderCost := Some cost, fc_ProviderCurrency := uf_providerCurrency f\<rparr>)"

definition finalize_facts :: "('s, 'r) gw_env \<Rightarrow> ('s, 'r) gateway \<Rightarrow> acc_facts \<Rightarrow> ('s, 'r) gateway \<times> gw_error option" where
  "finalize_facts env g v =
     (let (w, z) = Finalize (ev_ops env) (ev_persist env) (gw_ledgers g) (NewFinalizer v) in (g\<lparr>gw_ledgers := w\<rparr>, fz_err z))"

definition recordUsage :: "('s, 'r) gw_env \<Rightarrow> ('s, 'r) gateway \<Rightarrow> request_context \<Rightarrow> usage_facts \<Rightarrow> ('s, 'r) gateway \<times> gw_error option" where
  "recordUsage env g c f =
     (case ids_New env g of
        (g, Inl err) \<Rightarrow> (g, Some err)
      | (g, Inr usageID) \<Rightarrow>
          let (g, now) = clock_Now env g; v = facts_of c f usageID now; (g, err) = finalize_facts env g v
          in case err of Some e \<Rightarrow> (g, Some e)
             | None \<Rightarrow> (g\<lparr>gw_live := map_option (\<lambda>l. l @ [(xc_RequestID c, fc_Outcome v, fc_DeploymentID v, fc_LatencyMS v)]) (gw_live g)\<rparr>, None))"

definition base_facts :: "('s, 'r) run \<Rightarrow> string \<Rightarrow> usage_facts" where
  "base_facts q outcome =
     (let c = rn_ctx q
      in \<lparr>uf_logicalModel = (case xc_Request c of None \<Rightarrow> '''' | Some r \<Rightarrow> ur_Model r), uf_deploymentID = xc_SelectedDeploymentID c,
          uf_outcome = outcome, uf_usageSource = usageSource (xc_Source c) ''playground'', uf_inputTokens = 0, uf_outputTokens = 0,
          uf_retries = 0, uf_fallbacks = 0, uf_latency = xc_Latency c, uf_agentID = '''',
          uf_attempts = fst (attemptsFromResult (rn_result q)), uf_routeEvidence = routeEvidenceFromPlan (rn_plan q),
          uf_settle = False, uf_providerCost = None, uf_providerCurrency = '''',
          uf_providerID = (case xc_Snapshot c of None \<Rightarrow> '''' | Some s \<Rightarrow>
             (case snap_Deployment s (xc_SelectedDeploymentID c) of None \<Rightarrow> '''' | Some d \<Rightarrow> dp_ProviderID d)),
          uf_ttft = xc_TTFT c\<rparr>)"

definition finalizeFailure :: "('s, 'r) gw_env \<Rightarrow> ('s, 'r) run \<Rightarrow> gw_error \<Rightarrow> ('s, 'r) run \<times> gw_error option" where
  "finalizeFailure env q cause =
     (let (g, err) = recordUsage env (rn_gw q) (rn_ctx q) (base_facts q (outcomeForError cause)) in (q\<lparr>rn_gw := g\<rparr>, err))"

definition usage_or :: "request_context \<Rightarrow> (unified_usage \<Rightarrow> int) \<Rightarrow> int" where
  "usage_or c f = (case xc_Usage c of None \<Rightarrow> 0 | Some u \<Rightarrow> f u)"

definition provider_cost :: "request_context \<Rightarrow> f64 option" where
  "provider_cost c =
     (case xc_Snapshot c of None \<Rightarrow> None
      | Some s \<Rightarrow> (case snap_Deployment s (xc_SelectedDeploymentID c) of None \<Rightarrow> None
          | Some d \<Rightarrow> PriceCached LiteReferencePriceVersion (dp_UpstreamModel d) ''USD'' (usage_or c xu_InputTokens)
              (usage_or c xu_OutputTokens) (usage_or c xu_CacheReadTokens) (usage_or c xu_CacheWriteTokens)))"

definition success_facts :: "('s, 'r) run \<Rightarrow> usage_facts" where
  "success_facts q =
     (let (_, retries, fallbacks) = attemptsFromResult (rn_result q); c = rn_ctx q; cost = provider_cost c
      in (base_facts q ''success'')\<lparr>uf_inputTokens := usage_or c xu_InputTokens, uf_outputTokens := usage_or c xu_OutputTokens,
           uf_retries := retries, uf_fallbacks := fallbacks, uf_settle := True, uf_providerCost := cost,
           uf_providerCurrency := (if cost = None then '''' else ''USD'')\<rparr>)"

definition with_cost :: "request_context \<Rightarrow> request_context" where
  "with_cost c = (case provider_cost c of None \<Rightarrow> c | Some x \<Rightarrow> c\<lparr>xc_ProviderCost := Some x\<rparr>)"

definition write_back :: "('s, 'r) gw_env \<Rightarrow> ('s, 'r) run \<Rightarrow> ('s, 'r) run \<times> gw_error option" where
  "write_back env q =
     (case xc_Snapshot (rn_ctx q) of None \<Rightarrow> (q, None)
      | Some s \<Rightarrow>
          if 0 < cp_TTLSeconds (ts_cache s) then
            let (g, now) = clock_Now env (rn_gw q);
                (store, ok) = WriteBack (ev_cacheLib env) (gw_cache g) (rn_ctx q) (i64 (cp_TTLSeconds (ts_cache s) * second)) now
            in (q\<lparr>rn_gw := g\<lparr>gw_cache := store\<rparr>\<rparr>, if ok then None else Some (OtherError ''marshal''))
          else (q, None))"

definition finalize :: "('s, 'r) gw_env \<Rightarrow> ('s, 'r) run \<Rightarrow> ('s, 'r) run \<times> gw_error option" where
  "finalize env q =
     (let c = with_cost (rn_ctx q); (g, err) = recordUsage env (rn_gw q) c (success_facts q); q = q\<lparr>rn_gw := g, rn_ctx := c\<rparr>
      in if err = None then write_back env q else (q, err))"

definition reconcileTPM :: "('s, 'r) gw_env \<Rightarrow> ('s, 'r) run \<Rightarrow> ('s, 'r) run" where
  "reconcileTPM env q =
     (let c = rn_ctx q; (g, now) = clock_Now env (rn_gw q)
      in q\<lparr>rn_gw := g\<lparr>gw_meter := meter_Reconcile (gw_meter g) (ctx_TenantID c) (ctx_ProjectID c) (xc_TPMEstimated c)
             (usage_or c TotalTokens) now\<rparr>\<rparr>)"

definition recordRoutingMetrics :: "('s, 'r) gw_env \<Rightarrow> ('s, 'r) run \<Rightarrow> bool \<Rightarrow> ('s, 'r) run" where
  "recordRoutingMetrics env q success =
     (let c = rn_ctx q
      in if xc_SelectedDeploymentID c = '''' then q
         else
           let cost = (case xc_ProviderCost c of None \<Rightarrow> 0 | Some x \<Rightarrow> x);
               total = i64 (usage_or c xu_InputTokens + usage_or c xu_CacheReadTokens);
               ratio = (if success \<and> xc_Usage c \<noteq> None \<and> 0 < total
                        then fdiv (f_of_int (usage_or c xu_CacheReadTokens)) (f_of_int total) else 0);
               (g, now) = clock_Now env (rn_gw q)
           in q\<lparr>rn_gw := g\<lparr>gw_metrics := metrics_observe (gw_metrics g) (xc_SelectedDeploymentID c) (f_of_int (dur_milliseconds (xc_Latency c)))
                  cost ratio success now\<rparr>\<rparr>)"

definition emitFileAccessEvent :: "('s, 'r) gw_env \<Rightarrow> ('s, 'r) run \<Rightarrow> ('s, 'r) run" where
  "emitFileAccessEvent env q =
     (let c = rn_ctx q
      in case (lg_events (gw_ledgers (rn_gw q)), xc_Request c) of
           (Some _, Some r) \<Rightarrow>
             (case ur_File r of None \<Rightarrow> q
              | Some f \<Rightarrow>
                  if ur_Kind r \<noteq> ''file'' then q
                  else (case ids_New env (rn_gw q) of
                          (g, Inl _) \<Rightarrow> q\<lparr>rn_gw := g\<rparr>
                        | (g, Inr ident) \<Rightarrow>
                            let operation = (if fi_Operation f = '''' then ''content'' else fi_Operation f);
                                uploaded = (case xc_Response c of None \<Rightarrow> '''' | Some x \<Rightarrow> (case xr_File x of None \<Rightarrow> '''' | Some y \<Rightarrow> fl_ID y));
                                fileID = (if operation = ''upload'' \<and> uploaded \<noteq> '''' then uploaded else fi_ID f);
                                (g, now) = clock_Now env g
                            in q\<lparr>rn_gw := g\<lparr>gw_ledgers := emit_event (gw_ledgers g) \<lparr>de_ID = ident, de_Kind = ''file.access'', de_OccurredAt = now,
                                 de_TenantID = ctx_TenantID c, de_ProjectID = ctx_ProjectID c, de_RequestID = xc_RequestID c,
                                 de_Attributes = [(''operation'', operation), (''file_id'', fileID), (''logical_model'', ur_Model r),
                                   (''deployment_id'', xc_SelectedDeploymentID c), (''outcome'', ''success'')]\<rparr>\<rparr>\<rparr>))
         | _ \<Rightarrow> q)"

definition accounting :: "('s, 'r) gw_env \<Rightarrow> ('s, 'r) run handler" where
  "accounting env q =
     (case xc_Err (rn_ctx q) of
        Some cause \<Rightarrow>
          (case finalizeFailure env q cause of (q, Some err) \<Rightarrow> (q, Answer Continue (Some err))
           | (q, None) \<Rightarrow> (recordRoutingMetrics env (reconcileTPM env q) False, Answer Continue None))
      | None \<Rightarrow>
          if xc_Response (rn_ctx q) = None then (reconcileTPM env q, Answer Continue None)
          else (case finalize env q of (q, Some err) \<Rightarrow> (q, Answer Continue (Some err))
                | (q, None) \<Rightarrow> (recordRoutingMetrics env (reconcileTPM env (emitFileAccessEvent env q)) True, Answer Continue None)))"

subsection \<open>Tool calls and auxiliary calls\<close>

definition targetName :: "unified_request option \<Rightarrow> string \<Rightarrow> string" where
  "targetName request fallback =
     (case request of None \<Rightarrow> fallback
      | Some r \<Rightarrow> if ur_Model r \<noteq> '''' then ur_Model r
          else (case ur_Tool r of None \<Rightarrow> fallback | Some t \<Rightarrow> if tq_Name t \<noteq> '''' then tq_Name t else fallback))"

definition admitTool :: "('s, 'r) gw_env \<Rightarrow> ('s, 'r) gateway \<Rightarrow> request_context \<Rightarrow> ('s, 'r) gateway \<times> request_context \<times> gw_error option" where
  "admitTool env g c =
     (let (g, now) = clock_Now env g;
          (l, decision) = limiter_Allow (ev_oor env) (gw_limiter g) (ctx_TenantID c) (ctx_ProjectID c) (effectiveRatePolicy env) now;
          g = g\<lparr>gw_limiter := l\<rparr>
      in if Allowed decision then reserve_step env g c else (g, c, Some (limited c ''RATE_LIMITED'' ''rate limit exceeded'')))"

definition tool_source :: "request_context \<Rightarrow> string" where
  "tool_source c =
     usageSource (case xc_Interaction c of None \<Rightarrow> xc_Source c | Some i \<Rightarrow> usageSource (ix_Protocol i) (xc_Source c)) ''gateway''"

definition finalizeTool ::
  "('s, 'r) gw_env \<Rightarrow> ('s, 'r) gateway \<Rightarrow> request_context \<Rightarrow> string \<Rightarrow> unified_response option \<Rightarrow> gw_error option
     \<Rightarrow> ('s, 'r) gateway \<times> gw_error option" where
  "finalizeTool env g c targetID response cause =
     (let (g, now) = clock_Now env g
      in recordUsage env g c
        \<lparr>uf_logicalModel = targetName (xc_Request c) targetID, uf_deploymentID = targetID,
         uf_outcome = (case cause of None \<Rightarrow> ''success'' | Some e \<Rightarrow> outcomeForError e), uf_usageSource = tool_source c,
         uf_inputTokens = (case response of None \<Rightarrow> 0 | Some r \<Rightarrow> xu_InputTokens (xr_Usage r)),
         uf_outputTokens = (case response of None \<Rightarrow> 0 | Some r \<Rightarrow> xu_OutputTokens (xr_Usage r)),
         uf_retries = 0, uf_fallbacks = 0, uf_latency = t_sub now (xc_ReceivedAt c),
         uf_agentID = (case xc_Interaction c of None \<Rightarrow> '''' | Some i \<Rightarrow>
            if pf_Type (ix_Caller i) = ''agent'' then pf_ID (ix_Caller i) else ''''),
         uf_attempts = [], uf_routeEvidence = [], uf_settle = (cause = None), uf_providerCost = None, uf_providerCurrency = '''',
         uf_providerID = '''', uf_ttft = 0\<rparr>)"

definition reserveAuxiliary ::
  "('s, 'r) gw_env \<Rightarrow> ('s, 'r) gateway \<Rightarrow> request_context \<Rightarrow> int \<Rightarrow> ('s, 'r) gateway \<times> (gw_error + string \<times> string \<times> int)" where
  "reserveAuxiliary env g c estimated =
     (case lg_budget (gw_ledgers g) of None \<Rightarrow> (g, Inr ('''', '''', 0))
      | Some e \<Rightarrow>
          if xc_Snapshot c = None then (g, Inr ('''', '''', 0))
          else
            let (g, now) = clock_Now env g
            in case budgetPolicyFor (ev_oor env) c now of None \<Rightarrow> (g, Inr ('''', '''', 0))
               | Some policy \<Rightarrow>
                   (case ids_New env g of (g, Inl err) \<Rightarrow> (g, Inl err)
                    | (g, Inr ident) \<Rightarrow>
                        let (g, now) = clock_Now env g
                        in case enforcer_Reserve (ev_ops env) e policy ident (if estimated \<le> 0 then 1 else estimated) now of
                             (e', Inl err) \<Rightarrow> (with_budget g (Some e'), Inl (OtherError ''budget''))
                           | (e', Inr reserved) \<Rightarrow>
                               (with_budget g (Some e'), Inr (rv_PolicyID reserved, rv_ID reserved, rv_EstimatedTokens reserved))))"

text \<open>The auxiliary record has no event sink: the ledgers keep their events.\<close>

definition auxiliary_facts ::
  "request_context \<Rightarrow> string \<Rightarrow> string \<Rightarrow> string \<Rightarrow> unified_usage \<Rightarrow> duration \<Rightarrow> string \<Rightarrow> string \<Rightarrow> gw_error option \<Rightarrow> string \<Rightarrow> gotime
     \<Rightarrow> acc_facts" where
  "auxiliary_facts c kind model deploymentID usage latency policyID reservationID callErr ident now =
     (let cost = (case xc_Snapshot c of None \<Rightarrow> None
            | Some s \<Rightarrow> (case snap_Deployment s deploymentID of None \<Rightarrow> None
                | Some d \<Rightarrow> PriceCached LiteReferencePriceVersion (dp_UpstreamModel d) ''USD'' (xu_InputTokens usage) (xu_OutputTokens usage) 0 0))
      in facts_zero\<lparr>fc_UsageEventID := ident, fc_RequestID := ident, fc_ParentRequestID := xc_RequestID c, fc_TenantID := ctx_TenantID c,
           fc_ProjectID := ctx_ProjectID c, fc_KeyID := ak_ID (xc_Key c), fc_LogicalModel := model, fc_DeploymentID := deploymentID,
           fc_Outcome := (if callErr = None then ''success'' else ''error''), fc_UsageSource := ''auxiliary_'' @ kind,
           fc_InputTokens := xu_InputTokens usage, fc_OutputTokens := xu_OutputTokens usage, fc_LatencyMS := dur_milliseconds latency,
           fc_SnapshotVersion := ctx_SnapshotVersion c,
           fc_SecurityEpoch := (case xc_Snapshot c of None \<Rightarrow> 0 | Some s \<Rightarrow> ts_SecurityEpoch s),
           fc_ReceivedAt := now - latency, fc_CompletedAt := now, fc_BudgetPolicyID := policyID, fc_ReservationID := reservationID,
           fc_ActualTokens := (if callErr = None then Some (TotalTokens usage) else None),
           fc_ProviderCost := cost, fc_ProviderCurrency := (if cost = None then '''' else ''USD'')\<rparr>)"

definition recordAuxiliaryUsage ::
  "('s, 'r) gw_env \<Rightarrow> ('s, 'r) gateway \<Rightarrow> request_context \<Rightarrow> string \<Rightarrow> string \<Rightarrow> string \<Rightarrow> unified_usage \<Rightarrow> duration \<Rightarrow> string \<Rightarrow> string
     \<Rightarrow> gw_error option \<Rightarrow> ('s, 'r) gateway" where
  "recordAuxiliaryUsage env g c kind model deploymentID usage latency policyID reservationID callErr =
     (if xc_Snapshot c = None \<or> xc_Request c = None then g
      else case ids_New env g of
             (g, Inl err) \<Rightarrow> g\<lparr>gw_ledgers := budget_release (ev_ops env) (gw_ledgers g)
                (facts_zero\<lparr>fc_BudgetPolicyID := policyID, fc_ReservationID := reservationID\<rparr>)\<rparr>
           | (g, Inr ident) \<Rightarrow>
               let (g, now) = clock_Now env g; w = gw_ledgers g;
                   v = auxiliary_facts c kind model deploymentID usage latency policyID reservationID callErr ident now;
                   (w', _) = Finalize (ev_ops env) (ev_persist env) (w\<lparr>lg_events := None\<rparr>) (NewFinalizer v)
               in g\<lparr>gw_ledgers := w'\<lparr>lg_events := lg_events w\<rparr>\<rparr>)"

subsection \<open>The whole run\<close>

definition others :: "('s, 'r) gw_env \<Rightarrow> stage \<Rightarrow> ('s, 'r) run \<Rightarrow> ('s, 'r) run" where
  "others env st q = q\<lparr>rn_gw := ev_others env st (rn_gw q)\<rparr>"

text \<open>
  The guardrail handlers rewrite the content of the request or of the response in place and never clear it; what
  they answer is given by the environment.
\<close>

definition input_guard :: "('s, 'r) gw_env \<Rightarrow> ('s, 'r) run handler" where
  "input_guard env q =
     (case ev_inputGuard env (rn_ctx q) of None \<Rightarrow> (q, Panics)
      | Some (f, err) \<Rightarrow> (q\<lparr>rn_ctx := (rn_ctx q)\<lparr>xc_Request := map_option f (xc_Request (rn_ctx q))\<rparr>\<rparr>, Answer Continue err))"

definition output_guard :: "('s, 'r) gw_env \<Rightarrow> ('s, 'r) run handler" where
  "output_guard env q =
     (case ev_outputGuard env (rn_ctx q) of None \<Rightarrow> (q, Panics)
      | Some (f, err) \<Rightarrow> (q\<lparr>rn_ctx := (rn_ctx q)\<lparr>xc_Response := map_option f (xc_Response (rn_ctx q))\<rparr>\<rparr>, Answer Continue err))"

definition preflight_stage :: "('s, 'r) gw_env \<Rightarrow> ('s, 'r) run handler" where
  "preflight_stage env q =
     (let (g, c, d, err) = preflight env (rn_gw q) (rn_ctx q) in (q\<lparr>rn_gw := g, rn_ctx := c\<rparr>, Answer d err))"

definition pipeline_handlers :: "('s, 'r) gw_env \<Rightarrow> ('s, 'r) run handlers" where
  "pipeline_handlers env = \<lparr>
     hd_Admission = (\<lambda>q. (others env StageAdmission q, Answer Continue None)),
     hd_InputGuardrail = (\<lambda>q. input_guard env (others env InputGuardrail q)),
     hd_PolicyCostPreflight = (\<lambda>q. preflight_stage env (others env PolicyCostPreflight q)),
     hd_Resolution = (\<lambda>q. resolution env (others env Resolution q)),
     hd_ExecutionResilience = (\<lambda>q. execution env (others env ExecutionResilience q)),
     hd_OutputStreamGuardrail = (\<lambda>q. output_guard env (others env OutputStreamGuardrail q)),
     hd_AccountingAndTelemetry = (\<lambda>q. accounting env (others env AccountingTelemetry q))\<rparr>"

definition set_Err :: "gw_error option \<Rightarrow> ('s, 'r) run \<Rightarrow> ('s, 'r) run" where
  "set_Err err q = q\<lparr>rn_ctx := (rn_ctx q)\<lparr>xc_Err := err\<rparr>\<rparr>"

text \<open>\<open>draining\<close>: the stream registry refuses a new stream.\<close>

definition pipeline_Run :: "('s, 'r) gw_env \<Rightarrow> bool \<Rightarrow> ('s, 'r) gateway \<Rightarrow> request_context \<Rightarrow> ('s, 'r) run \<times> gw_error list option" where
  "pipeline_Run env draining g c =
     (let start = \<lparr>rn_gw = g, rn_ctx = c, rn_plan = None, rn_result = None, rn_started = zero_time\<rparr>
      in case (xc_Request c, xc_Snapshot c) of
           (Some r, Some s) \<Rightarrow>
             if streaming c \<and> draining then (start, Some [limited c ''DRAINING'' ''server is draining''])
             else
               let g = g\<lparr>gw_circuit := SetConfig (gw_circuit g) (breakerConfigFromSnapshot (ts_circuit s))\<rparr>; (g, now) = clock_Now env g
               in runner_Run set_Err (pipeline_handlers env) (start\<lparr>rn_gw := g, rn_started := now\<rparr>)
         | _ \<Rightarrow> (start, Some [OtherError ''lite pipeline requires a complete request context'']))"

subsection \<open>Accounting settles the reservation\<close>

abbreviation open_in :: "('s, 'r) gateway \<Rightarrow> request_context \<Rightarrow> bool" where
  "open_in g c \<equiv> budget_open (lg_budget (gw_ledgers g)) (xc_BudgetPolicyID c) (xc_ReservationID c)"

lemma facts_of_reservation [simp]:
  "fc_BudgetPolicyID (facts_of c f u now) = xc_BudgetPolicyID c" "fc_ReservationID (facts_of c f u now) = xc_ReservationID c"
  by (simp_all add: facts_of_def Let_def split: option.splits)

lemma finalize_facts_closes:
  assumes "fc_ReservationID v \<noteq> ''''"
  shows "\<not> budget_open (lg_budget (gw_ledgers (fst (finalize_facts env g v)))) (fc_BudgetPolicyID v) (fc_ReservationID v)"
  using finalize_once_closes [OF assms, of "ev_ops env" "ev_persist env" "gw_ledgers g"]
  by (simp add: finalize_facts_def Finalize_def NewFinalizer_def split_beta)

lemma recordUsage_closes:
  assumes "ev_ids env (gw_ids g) = Inr u" "xc_ReservationID c \<noteq> ''''"
  shows "\<not> open_in (fst (recordUsage env g c f)) c"
proof -
  define g' where "g' = g\<lparr>gw_ids := gw_ids g + 1, gw_reads := gw_reads g + 1\<rparr>"
  define v where "v = facts_of c f u (ev_clock env (gw_reads g))"
  have "gw_ledgers (fst (recordUsage env g c f)) = gw_ledgers (fst (finalize_facts env g' v))"
    by (simp add: recordUsage_def ids_New_def clock_Now_def assms(1) Let_def split_beta g'_def v_def split: option.split)
  moreover have "\<not> open_in (fst (finalize_facts env g' v)) c"
    using finalize_facts_closes [of v env g'] assms(2) by (simp add: v_def)
  ultimately show ?thesis by simp
qed

lemma reconcileTPM_keeps [simp]:
  "gw_ledgers (rn_gw (reconcileTPM env q)) = gw_ledgers (rn_gw q)" "rn_ctx (reconcileTPM env q) = rn_ctx q"
  by (simp_all add: reconcileTPM_def Let_def clock_Now_def)

lemma recordRoutingMetrics_keeps [simp]:
  "gw_ledgers (rn_gw (recordRoutingMetrics env q b)) = gw_ledgers (rn_gw q)" "rn_ctx (recordRoutingMetrics env q b) = rn_ctx q"
  by (simp_all add: recordRoutingMetrics_def Let_def clock_Now_def)

lemma emitFileAccessEvent_keeps [simp]:
  "lg_budget (gw_ledgers (rn_gw (emitFileAccessEvent env q))) = lg_budget (gw_ledgers (rn_gw q))"
  "rn_ctx (emitFileAccessEvent env q) = rn_ctx q"
  by (simp_all add: emitFileAccessEvent_def Let_def clock_Now_def ids_New_def emit_event_def split: option.split sum.split)

definition same_request :: "request_context \<Rightarrow> request_context \<Rightarrow> bool" where
  "same_request c c' \<longleftrightarrow> xc_Err c' = xc_Err c \<and> xc_Response c' = xc_Response c \<and> xc_BudgetPolicyID c' = xc_BudgetPolicyID c
     \<and> xc_ReservationID c' = xc_ReservationID c"

lemma same_request_with_cost [simp]: "same_request c (with_cost c)"
  by (simp add: with_cost_def same_request_def split: option.split)

lemma write_back_keeps [simp]:
  "gw_ledgers (rn_gw (fst (write_back env q))) = gw_ledgers (rn_gw q)" "rn_ctx (fst (write_back env q)) = rn_ctx q"
  by (simp_all add: write_back_def Let_def clock_Now_def split_beta split: option.split)

lemma finalize_effect:
  "gw_ledgers (rn_gw (fst (finalize env q))) = gw_ledgers (fst (recordUsage env (rn_gw q) (with_cost (rn_ctx q)) (success_facts q)))"
  "rn_ctx (fst (finalize env q)) = with_cost (rn_ctx q)"
  by (simp_all add: finalize_def Let_def split_beta)

lemma finalizeFailure_effect:
  "gw_ledgers (rn_gw (fst (finalizeFailure env q cause)))
     = gw_ledgers (fst (recordUsage env (rn_gw q) (rn_ctx q) (base_facts q (outcomeForError cause))))"
  "rn_ctx (fst (finalizeFailure env q cause)) = rn_ctx q"
  by (simp_all add: finalizeFailure_def split_beta)

lemma accounting_budget:
  "lg_budget (gw_ledgers (rn_gw (fst (accounting env q)))) =
     (case (xc_Err (rn_ctx q), xc_Response (rn_ctx q)) of
        (Some cause, _) \<Rightarrow> lg_budget (gw_ledgers (rn_gw (fst (finalizeFailure env q cause))))
      | (None, Some _) \<Rightarrow> lg_budget (gw_ledgers (rn_gw (fst (finalize env q))))
      | (None, None) \<Rightarrow> lg_budget (gw_ledgers (rn_gw q)))"
  by (simp add: accounting_def split_beta split: option.split)

lemma accounting_request: "same_request (rn_ctx q) (rn_ctx (fst (accounting env q)))"
  by (simp add: accounting_def split_beta finalize_effect finalizeFailure_effect split: option.split)
    (simp add: same_request_def)

lemma accounting_closes:
  assumes "ev_ids env (gw_ids (rn_gw q)) = Inr u" "xc_ReservationID (rn_ctx q) \<noteq> ''''"
    and "xc_Err (rn_ctx q) \<noteq> None \<or> xc_Response (rn_ctx q) \<noteq> None"
  shows "\<not> open_in (rn_gw (fst (accounting env q))) (rn_ctx (fst (accounting env q)))"
proof -
  note same = accounting_request [of q env]
  have cost: "xc_ReservationID (with_cost (rn_ctx q)) = xc_ReservationID (rn_ctx q)"
    "xc_BudgetPolicyID (with_cost (rn_ctx q)) = xc_BudgetPolicyID (rn_ctx q)"
    using same_request_with_cost [of "rn_ctx q"] by (simp_all add: same_request_def)
  have "\<not> open_in (rn_gw (fst (accounting env q))) (rn_ctx q)"
    using assms(3) recordUsage_closes [OF assms(1), of "with_cost (rn_ctx q)" "success_facts q"]
      recordUsage_closes [OF assms(1,2)]
    by (auto simp: accounting_budget finalize_effect finalizeFailure_effect cost assms(2) split: option.split)
  with same show ?thesis by (simp add: same_request_def)
qed

lemma accounting_answers: "\<exists>err. snd (accounting env q) = Answer Continue err"
  by (simp add: accounting_def split_beta split: option.split)

text \<open>The runner ends every run in the accounting stage, whatever the stages answer.\<close>

lemma runner_ends_in_accounting:
  "fst (runner_Run set_err hs w) = fst (hd_AccountingAndTelemetry hs (set_err (stage_error (snd (run_stages hs w))) (fst (run_stages hs w))))"
  by (simp add: runner_Run_def split_beta)

text \<open>A run whose stages all pass has a response: from the cache or from the execution.\<close>

lemma runStage_passed: "runStage st h w = (w', Passed) \<Longrightarrow> h w = (w', Answer Continue None)"
  by (auto simp: runStage_def split: prod.split_asm stage_answer.split_asm option.split_asm if_split_asm)

lemma andThen_passed: "andThen r f = (w, Passed) \<Longrightarrow> \<exists>w'. r = (w', Passed) \<and> f w' = (w, Passed)"
  by (cases r) (auto simp: andThen_def split: if_split_asm)

lemma run_preflight_passed:
  assumes "run_preflight hs w = (w', Passed)"
  obtains (hit) w1 where "hd_PolicyCostPreflight hs w = (w1, Answer SkipResolutionExecution None)"
      "hd_OutputStreamGuardrail hs w1 = (w', Answer Continue None)"
    | (executed) w2 w3 where "hd_ExecutionResilience hs w2 = (w3, Answer Continue None)"
      "hd_OutputStreamGuardrail hs w3 = (w', Answer Continue None)"
  using assms
  by (auto simp: run_preflight_def dest!: andThen_passed runStage_passed
      split: prod.split_asm stage_answer.split_asm option.split_asm directive.split_asm)

lemma cache_Handle_hit: "cache_Handle L store metrics c now = (st, ms, c', d) \<Longrightarrow> d \<noteq> Continue \<Longrightarrow> xc_Response c' \<noteq> None"
  by (auto simp: cache_Handle_def Let_def with_hit_def split: prod.split_asm option.split_asm if_split_asm)

lemma semantic_Handle_hit:
  "semantic_Handle L t blocked e metrics index exact c now = (ix, ex, ms, c', d) \<Longrightarrow> d \<noteq> Continue \<Longrightarrow> xc_Response c' \<noteq> None"
  by (auto simp: semantic_Handle_def semantic_miss_def Let_def with_hit_def
      split: prod.split_asm option.split_asm if_split_asm list.split_asm)

lemma cache_lookup_hit:
  assumes "cache_lookup env g c = (g', c', d)" "d \<noteq> Continue"
  shows "xc_Response c' \<noteq> None"
proof -
  obtain st ms c1 d1 where h: "cache_Handle (ev_cacheLib env) (gw_cache g) None c (ev_clock env (gw_reads g)) = (st, ms, c1, d1)"
    by (metis prod_cases4)
  show ?thesis
  proof (cases "d1 = Continue")
    case False
    then show ?thesis using assms(1) h cache_Handle_hit [OF h] by (auto simp: cache_lookup_def clock_Now_def)
  next
    case True
    then show ?thesis using assms h
      by (auto simp: cache_lookup_def clock_Now_def Let_def split: prod.split_asm option.split_asm if_split_asm dest: semantic_Handle_hit)
  qed
qed

lemma preflight_hit:
  assumes "preflight env g c = (g', c', SkipResolutionExecution, None)"
  shows "xc_Response c' \<noteq> None"
  using assms cache_lookup_hit
  by (fastforce simp: preflight_def Let_def split: prod.split_asm option.split_asm if_split_asm)

lemma execution_response:
  assumes "\<And>plan c a. ev_execute env plan c = Some a \<Longrightarrow> xa_Err a = None \<Longrightarrow> xa_Response a \<noteq> None"
    and "execution env q = (q', Answer Continue None)"
  shows "xc_Response (rn_ctx q') \<noteq> None"
proof (cases "ev_execute env (rn_plan q) (rn_ctx q)")
  case None
  with assms(2) show ?thesis by (simp add: execution_def)
next
  case (Some a)
  then show ?thesis using assms(2) assms(1) [OF Some]
    by (cases "xa_Err a") (auto simp: execution_def Let_def clock_Now_def)
qed

lemma output_guard_response:
  "output_guard env q = (q', Answer Continue None) \<Longrightarrow> xc_Response (rn_ctx q) \<noteq> None \<Longrightarrow> xc_Response (rn_ctx q') \<noteq> None"
  by (auto simp: output_guard_def split: option.split_asm prod.split_asm)

lemma others_ctx [simp]: "rn_ctx (others env st q) = rn_ctx q"
  by (simp add: others_def)

lemma passed_run_has_response:
  assumes "\<And>plan c a. ev_execute env plan c = Some a \<Longrightarrow> xa_Err a = None \<Longrightarrow> xa_Response a \<noteq> None"
    and "run_stages (pipeline_handlers env) q = (q', Passed)"
  shows "xc_Response (rn_ctx q') \<noteq> None"
proof -
  obtain q0 where "run_preflight (pipeline_handlers env) q0 = (q', Passed)"
    using andThen_passed [of _ "run_preflight (pipeline_handlers env)"] assms(2) unfolding run_stages_def by blast
  then show ?thesis
  proof (cases rule: run_preflight_passed)
    case (hit w1)
    then have "xc_Response (rn_ctx w1) \<noteq> None"
      by (auto simp: pipeline_handlers_def preflight_stage_def dest: preflight_hit split: prod.split_asm)
    with hit(2) show ?thesis by (auto simp: pipeline_handlers_def dest: output_guard_response)
  next
    case (executed w2 w3)
    then have "xc_Response (rn_ctx w3) \<noteq> None"
      using execution_response [OF assms(1)] by (simp add: pipeline_handlers_def)
    with executed(2) show ?thesis by (auto simp: pipeline_handlers_def dest: output_guard_response)
  qed
qed

text \<open>C1: A request that returns never leaves its budget reservation behind. Whatever other requests do to the gateway
  between the stages, and wherever the run stops (any stage failing, a cache hit, an answer of the provider, a failed
  insert into the repository, a failed settlement), when the run returns the reservation it made is settled or
  released, provided the identifier generator answers and an execution without error yields a response.\<close>

theorem run_settles_reservation:
  assumes "\<And>n. \<exists>u. ev_ids env n = Inr u"
    and "\<And>plan c a. ev_execute env plan c = Some a \<Longrightarrow> xa_Err a = None \<Longrightarrow> xa_Response a \<noteq> None"
    and "xc_ReservationID c = ''''" "pipeline_Run env draining g c = (q, Some errs)" "xc_ReservationID (rn_ctx q) \<noteq> ''''"
  shows "\<not> budget_open (lg_budget (gw_ledgers (rn_gw q))) (xc_BudgetPolicyID (rn_ctx q)) (xc_ReservationID (rn_ctx q))"
proof -
  obtain q0 where q0: "runner_Run set_Err (pipeline_handlers env) q0 = (q, Some errs)"
    using assms(3-5) by (auto simp: pipeline_Run_def Let_def split_beta split: option.split_asm if_split_asm)
  obtain q1 e where stages: "run_stages (pipeline_handlers env) q0 = (q1, e)" by fastforce
  define q2 where "q2 = others env AccountingTelemetry (set_Err (stage_error e) q1)"
  have q: "q = fst (accounting env q2)"
    using runner_ends_in_accounting [of set_Err "pipeline_handlers env" q0] q0 stages by (simp add: pipeline_handlers_def q2_def)
  have "e \<noteq> Panicked" using q0 stages by (auto simp: runner_Run_def split: prod.split_asm stage_answer.split_asm if_split_asm)
  then have known: "xc_Err (rn_ctx q2) \<noteq> None \<or> xc_Response (rn_ctx q2) \<noteq> None"
    using passed_run_has_response [OF assms(2)] stages by (cases e) (auto simp: q2_def set_Err_def stage_error_def)
  obtain u where u: "ev_ids env (gw_ids (rn_gw q2)) = Inr u" using assms(1) by blast
  have "same_request (rn_ctx q2) (rn_ctx q)" using accounting_request [of q2 env] q by simp
  then show ?thesis using accounting_closes [OF u _ known] assms(5) q by (simp add: same_request_def)
qed

text \<open>Where the identifier generator fails, the accounting stage leaves the budget as it is, and with it the reservation.\<close>

lemma failed_identifier_keeps_budget:
  assumes "ev_ids env (gw_ids (rn_gw q)) = Inl err" "xc_Err (rn_ctx q) = Some cause"
  shows "lg_budget (gw_ledgers (rn_gw (fst (accounting env q)))) = lg_budget (gw_ledgers (rn_gw q))"
    "snd (accounting env q) = Answer Continue (Some err)"
  using assms by (simp_all add: accounting_def finalizeFailure_def recordUsage_def ids_New_def split_beta)

text \<open>A call of an auxiliary model releases its reservation even then.\<close>

lemma auxiliary_usage_closes:
  assumes "xc_Snapshot c \<noteq> None" "xc_Request c \<noteq> None" "rid \<noteq> ''''"
  shows "\<not> budget_open (lg_budget (gw_ledgers (recordAuxiliaryUsage env g c kind model dep usage latency pid rid callErr))) pid rid"
proof (cases "ev_ids env (gw_ids g)")
  case (Inl err)
  then show ?thesis using assms budget_release_closes [of "facts_zero\<lparr>fc_BudgetPolicyID := pid, fc_ReservationID := rid\<rparr>" "ev_ops env" "gw_ledgers g"]
    by (auto simp: recordAuxiliaryUsage_def ids_New_def)
next
  case (Inr u)
  define v where "v = auxiliary_facts c kind model dep usage latency pid rid callErr u (ev_clock env (gw_reads g))"
  have v: "fc_BudgetPolicyID v = pid" "fc_ReservationID v = rid" by (simp_all add: v_def auxiliary_facts_def Let_def)
  show ?thesis
    using assms Inr finalize_once_closes [of v "ev_ops env" "ev_persist env" "(gw_ledgers g)\<lparr>lg_events := None\<rparr>"] v
    by (auto simp: recordAuxiliaryUsage_def ids_New_def clock_Now_def v_def [symmetric] Finalize_def NewFinalizer_def split_beta Let_def)
qed

definition example_ops :: "unit ledger_ops" where
  "example_ops = \<lparr>lo_Reserve = (\<lambda>s r. (s, Inl ErrLedgerUnavailable)), lo_Reconcile = (\<lambda>s t r a. (s, Inr ())), lo_Release = (\<lambda>s t r. (s, Inr ())),
     lo_Sweep = (\<lambda>s t n. (s, Inr 0))\<rparr>"

definition pipeline_env :: "(unit, unit) gw_env" where
  "pipeline_env = \<lparr>ev_clock = (\<lambda>_. 0), ev_ids = (\<lambda>n. Inr (''id-'' @ show_nat n)), ev_oor = oor_amd64, ev_lower = (\<lambda>s. s), ev_trim = (\<lambda>s. s),
     ev_marshal = (\<lambda>_. None), ev_sha = (\<lambda>s. s), ev_log = (\<lambda>x. x), ev_ops = example_ops,
     ev_persist = (\<lambda>r f. (r, Inl (OtherError ''database unavailable''))), ev_approvals = None,
     ev_ratePolicy = \<lparr>RequestsPerMinute = 0, Burst = 0\<rparr>, ev_tpmPolicy = None, ev_tokenizer = None, ev_contextGuard = None,
     ev_contextStrict = False, ev_probe = None, ev_cacheLib = example_lib, ev_embedder = None,
     ev_inputGuard = (\<lambda>_. Some (\<lambda>r. r, None)), ev_outputGuard = (\<lambda>_. Some (\<lambda>r. r, None)), ev_execute = (\<lambda>_ _. None),
     ev_others = (\<lambda>_ g. g)\<rparr>"

definition example_gateway :: "(unit, unit) gateway" where
  "example_gateway = \<lparr>gw_limiter = limiter_New 0, gw_meter = [],
     gw_ledgers = \<lparr>lg_budget = Some (newBudgetEnforcer (manager_New 0)), lg_repo = (), lg_events = None\<rparr>,
     gw_cache = None, gw_index = None, gw_metrics = newRoutingMetrics, gw_planner = (\<lambda>_. 0), gw_circuit = breaker_New DefaultConfig None,
     gw_live = None, gw_ids = 0, gw_reads = 0\<rparr>"

definition unroutable :: request_context where
  "unroutable = (example_context budget_data)\<lparr>xc_Request := Some (example_request\<lparr>ur_Model := ''none''\<rparr>)\<rparr>"

lemma unroutable_fields:
  "xc_Request unroutable = Some (example_request\<lparr>ur_Model := ''none''\<rparr>)" "xc_Snapshot unroutable = Some (NewTenantSnapshot budget_data)"
  "xc_ReservationID unroutable = ''''" "\<not> streaming unroutable" "ctx_TenantID unroutable = ''t''" "ctx_ProjectID unroutable = ''j''"
  "approval_Handle None unroutable = None"
  by (simp_all add: unroutable_def example_context_def streaming_def ctx_TenantID_def ctx_ProjectID_def approval_Handle_def)

lemma unroutable_model: "snap_LogicalModel (NewTenantSnapshot budget_data) ''none'' = None"
  by code_simp

lemma unroutable_estimate: "estimateTokens pipeline_env (xc_Request unroutable) = 1"
  by code_simp

lemma example_limiter: "Allowed (snd (limiter_Allow oor_amd64 (limiter_New 0) ''t'' ''j'' (effectiveRatePolicy pipeline_env) 0))"
  by code_simp

lemma reserveBudget_keeps:
  "reserveBudget oor ops b c n fresh now now' = (b', c', err) \<Longrightarrow> xc_Request c' = xc_Request c \<and> xc_Snapshot c' = xc_Snapshot c"
  by (auto simp: reserveBudget_def split: option.split_asm prod.split_asm sum.split_asm if_split_asm)

lemma example_reservation:
  "case reserveBudget oor_amd64 example_ops (Some (newBudgetEnforcer (manager_New 0))) (unroutable\<lparr>xc_TPMEstimated := 1\<rparr>) 1 (Inr ''id-0'') 0 0
     of (b, c, err) \<Rightarrow> xc_ReservationID c = ''id-0'' \<and> err = None"
  by code_simp

lemma example_policy: "budgetPolicyFor oor_amd64 (unroutable\<lparr>xc_TPMEstimated := 1\<rparr>) 0 \<noteq> None"
  by code_simp

text \<open>The run reserves, finds no route, cannot store its record, and leaves nothing reserved.\<close>

lemma pipeline_env_fields:
  "ev_clock pipeline_env = (\<lambda>_. 0)" "ev_oor pipeline_env = oor_amd64" "ev_ops pipeline_env = example_ops"
  "ev_approvals pipeline_env = None" "ev_tpmPolicy pipeline_env = None" "ev_others pipeline_env = (\<lambda>_ g. g)"
  "ev_inputGuard pipeline_env = (\<lambda>_. Some (\<lambda>r. r, None))"
  by (simp_all add: pipeline_env_def)

lemma pipeline_env_id: "ev_ids pipeline_env 0 = Inr ''id-0''"
  by code_simp

lemma example_preflight:
  assumes g: "gw_limiter g = limiter_New 0" "lg_budget (gw_ledgers g) = Some (newBudgetEnforcer (manager_New 0))" "gw_ids g = 0" "gw_cache g = None"
  shows "\<exists>g' c'. preflight pipeline_env g unroutable = (g', c', Continue, None) \<and> xc_ReservationID c' = ''id-0''
     \<and> xc_Request c' = xc_Request unroutable \<and> xc_Snapshot c' = xc_Snapshot unroutable"
proof -
  obtain l d where l: "limiter_Allow oor_amd64 (limiter_New 0) ''t'' ''j'' (effectiveRatePolicy pipeline_env) 0 = (l, d)" "Allowed d"
    using example_limiter by (metis prod.collapse)
  let ?c = "unroutable\<lparr>xc_TPMEstimated := 1\<rparr>"
  obtain b c' where r: "reserveBudget oor_amd64 example_ops (Some (newBudgetEnforcer (manager_New 0))) ?c 1 (Inr ''id-0'') 0 0 = (b, c', None)"
    and id0: "xc_ReservationID c' = ''id-0''"
    using example_reservation by (auto split: prod.split_asm)
  note keeps = reserveBudget_keeps [OF r, simplified]
  let ?h = "g\<lparr>gw_limiter := l, gw_reads := gw_reads g + 2\<rparr>"
  obtain g' where step: "reserve_step pipeline_env ?h ?c = (g', c', None)" "gw_cache g' = None"
    using g r example_policy unroutable_estimate
    by (auto simp: reserve_step_def clock_Now_def ids_New_def with_budget_def pipeline_env_fields pipeline_env_id unroutable_fields)
  have stream: "\<not> ur_Stream (example_request\<lparr>ur_Model := ''none''\<rparr>)" by (simp add: example_request_def)
  have "preflight pipeline_env g unroutable = (let (g, c, d) = cache_lookup pipeline_env g' c' in (g, c, d, None))"
    using g l step keeps unroutable_estimate stream
    by (simp add: preflight_def clock_Now_def pipeline_env_fields unroutable_fields meter_Reserve_def numeral_2_eq_2)
  moreover have "\<exists>g''. cache_lookup pipeline_env g' c' = (g'', c', Continue)"
    using step(2) by (simp add: cache_lookup_def cache_Handle_def clock_Now_def Let_def split: option.split)
  ultimately show ?thesis using id0 keeps by auto
qed

lemma resolution_unroutable:
  assumes "xc_Request (rn_ctx q) = xc_Request unroutable" "xc_Snapshot (rn_ctx q) = xc_Snapshot unroutable"
  shows "\<exists>q'. resolution env q = (q', Answer Continue (Some NoEligibleDeployment)) \<and> rn_ctx q' = rn_ctx q"
  using assms unroutable_model
  by (simp add: resolution_def unroutable_fields planner_Plan_def plan_input_of_def clock_Now_def split_beta Let_def)

theorem run_settles_reservation_witness:
  "\<exists>q errs. pipeline_Run pipeline_env False example_gateway unroutable = (q, Some errs) \<and> xc_ReservationID (rn_ctx q) = ''id-0''
     \<and> NoEligibleDeployment \<in> set errs
     \<and> \<not> budget_open (lg_budget (gw_ledgers (rn_gw q))) (xc_BudgetPolicyID (rn_ctx q)) ''id-0''"
proof -
  obtain q0 where run: "pipeline_Run pipeline_env False example_gateway unroutable = runner_Run set_Err (pipeline_handlers pipeline_env) q0"
    and q0: "rn_ctx q0 = unroutable" "gw_limiter (rn_gw q0) = limiter_New 0" "gw_ids (rn_gw q0) = 0" "gw_cache (rn_gw q0) = None"
      "lg_budget (gw_ledgers (rn_gw q0)) = Some (newBudgetEnforcer (manager_New 0))"
    by (simp add: pipeline_Run_def unroutable_fields clock_Now_def example_gateway_def)
  obtain g' c' where p: "preflight pipeline_env (rn_gw q0) unroutable = (g', c', Continue, None)" "xc_ReservationID c' = ''id-0''"
    "xc_Request c' = xc_Request unroutable" "xc_Snapshot c' = xc_Snapshot unroutable"
    using example_preflight q0 by blast
  let ?q = "q0\<lparr>rn_gw := g', rn_ctx := c'\<rparr>"
  obtain q' where q': "resolution pipeline_env ?q = (q', Answer Continue (Some NoEligibleDeployment))" "rn_ctx q' = c'"
    using resolution_unroutable [of ?q pipeline_env] p by auto
  have same: "q\<lparr>rn_gw := rn_gw q\<rparr> = q" "(q :: (unit, unit) run)\<lparr>rn_ctx := (rn_ctx q)\<lparr>xc_Request := xc_Request (rn_ctx q)\<rparr>\<rparr> = q" for q
    by simp_all
  have stages: "run_stages (pipeline_handlers pipeline_env) q0 = (q', Failed NoEligibleDeployment)"
    using p q' q0 by (simp add: run_stages_def andThen_def runStage_def run_preflight_def pipeline_handlers_def others_def pipeline_env_fields
        input_guard_def preflight_stage_def option.map_ident same)
  define q where "q = fst (runner_Run set_Err (pipeline_handlers pipeline_env) q0)"
  obtain err where "snd (accounting pipeline_env (others pipeline_env AccountingTelemetry (set_Err (Some NoEligibleDeployment) q'))) = Answer Continue err"
    using accounting_answers by blast
  then obtain errs where r: "runner_Run set_Err (pipeline_handlers pipeline_env) q0 = (q, Some errs)" "NoEligibleDeployment \<in> set errs"
    using stages unfolding q_def
    by (auto simp: runner_Run_def pipeline_handlers_def stage_error_def opt_list_def split_beta)
  have "same_request ((rn_ctx q')\<lparr>xc_Err := Some NoEligibleDeployment\<rparr>) (rn_ctx q)"
    using stages accounting_request [of "others pipeline_env AccountingTelemetry (set_Err (Some NoEligibleDeployment) q')" pipeline_env]
    by (simp add: q_def runner_ends_in_accounting pipeline_handlers_def stage_error_def set_Err_def)
  then have rid: "xc_ReservationID (rn_ctx q) = ''id-0''" using p q' by (simp add: same_request_def)
  have ids: "\<exists>u. ev_ids pipeline_env n = Inr u" for n by (simp add: pipeline_env_def)
  have answers: "xa_Response a \<noteq> None" if "ev_execute pipeline_env plan c = Some a" for plan c a using that by (simp add: pipeline_env_def)
  have "\<not> budget_open (lg_budget (gw_ledgers (rn_gw q))) (xc_BudgetPolicyID (rn_ctx q)) (xc_ReservationID (rn_ctx q))"
    by (rule run_settles_reservation [where env = pipeline_env and c = unroutable and draining = False and g = example_gateway and errs = errs])
      (use ids answers run r rid unroutable_fields in auto)
  then show ?thesis using run r rid by auto
qed

end
