(* ===== verification/Stream_Attempt.thy ===== *)
theory Stream_Attempt
  imports Execution
begin

text \<open>
  One streaming attempt, \<^verbatim>\<open>streamAttempt\<close> and \<^verbatim>\<open>trackingWriter\<close> of
  \<^verbatim>\<open>internal/gateway/execution/executor.go\<close>. The goroutine that runs the invoker and the select
  loop that watches it are one transition system: an event is a step of either side, and which
  ready case the select takes is up to the schedule. Timers may fire at any time while armed.
\<close>

datatype stream_error =
    SFirstToken duration | SDeadline
  | SContext string \<comment> \<open>\<^verbatim>\<open>ctx.Err()\<close>\<close>
  | SInvoker string

datatype stream_phase =
    Selecting
  | Draining \<comment> \<open>a timer fired: the attempt waits for the goroutine\<close>
  | Returned bool "stream_error option" \<comment> \<open>committed, error\<close>

record stream_state =
  sx_phase :: stream_phase
  sx_firstToken :: bool
  sx_timer :: bool \<comment> \<open>the timer exists\<close>
  sx_timerC :: bool \<comment> \<open>the select listens to it\<close>
  sx_committed :: bool
  sx_activity :: bool \<comment> \<open>the one-place channel holds a signal\<close>
  sx_result :: "stream_error option option" \<comment> \<open>what the goroutine returned\<close>
  sx_written :: nat \<comment> \<open>chunks handed to the client's writer\<close>

datatype stream_event =
    WriteChunk bool \<comment> \<open>the invoker writes; the flag is the success of the client's writer\<close>
  | StreamReturns "stream_error option"
  | TakeResult | TakeActivity | TakeTimer | TakeDrained | TakeContext string

definition first_token_timeout :: "retry_policy \<Rightarrow> duration" where
  "first_token_timeout p =
     (if rt_FirstTokenTimeout p \<le> 0 \<or> 0 < rt_StreamIdleTimeout p \<and> rt_StreamIdleTimeout p < rt_FirstTokenTimeout p
      then rt_StreamIdleTimeout p else rt_FirstTokenTimeout p)"

definition stream_init :: "retry_policy \<Rightarrow> stream_state" where
  "stream_init p = \<lparr>sx_phase = Selecting, sx_firstToken = True, sx_timer = (0 < first_token_timeout p),
     sx_timerC = (0 < first_token_timeout p), sx_committed = False, sx_activity = False, sx_result = None, sx_written = 0\<rparr>"

definition tracking_WriteChunk :: "bool \<Rightarrow> stream_state \<Rightarrow> stream_state" where
  "tracking_WriteChunk ok st =
     st\<lparr>sx_committed := True, sx_written := sx_written st + 1, sx_activity := (ok \<or> sx_activity st)\<rparr>"

text \<open>\<^const>\<open>None\<close> is an event that is not ready.\<close>

fun streamAttempt :: "retry_policy \<Rightarrow> stream_state \<Rightarrow> stream_event \<Rightarrow> stream_state option" where
  "streamAttempt p st (WriteChunk ok) = (if sx_result st = None then Some (tracking_WriteChunk ok st) else None)"
| "streamAttempt p st (StreamReturns err) = (if sx_result st = None then Some (st\<lparr>sx_result := Some err\<rparr>) else None)"
| "streamAttempt p st TakeResult =
     (case (sx_phase st, sx_result st) of
        (Selecting, Some err) \<Rightarrow> Some (st\<lparr>sx_phase := Returned (sx_committed st) err\<rparr>) | _ \<Rightarrow> None)"
| "streamAttempt p st TakeActivity =
     (if sx_phase st = Selecting \<and> sx_activity st
      then Some (st\<lparr>sx_activity := False, sx_firstToken := False,
                   sx_timerC := (if sx_timer st then 0 < rt_StreamIdleTimeout p else sx_timerC st)\<rparr>)
      else None)"
| "streamAttempt p st TakeTimer =
     (if sx_phase st = Selecting \<and> sx_timerC st then Some (st\<lparr>sx_phase := Draining\<rparr>) else None)"
| "streamAttempt p st TakeDrained =
     (if sx_phase st = Draining \<and> sx_result st \<noteq> None
      then Some (st\<lparr>sx_phase := (if sx_committed st then Returned True (Some SDeadline)
                                else if sx_firstToken st then Returned False (Some (SFirstToken (first_token_timeout p)))
                                else Returned False (Some SDeadline))\<rparr>)
      else None)"
| "streamAttempt p st (TakeContext err) =
     (if sx_phase st = Selecting then Some (st\<lparr>sx_phase := Returned (sx_committed st) (Some (SContext err))\<rparr>) else None)"

inductive stream_reach :: "retry_policy \<Rightarrow> stream_state \<Rightarrow> bool" for p where
  init: "stream_reach p (stream_init p)"
| step: "stream_reach p st \<Longrightarrow> streamAttempt p st ev = Some st' \<Longrightarrow> stream_reach p st'"

text \<open>
  The errors an invoker returns are its own: the timeout types are made by the attempt.
\<close>

definition invoker_errors :: "stream_state \<Rightarrow> bool" where
  "invoker_errors st \<longleftrightarrow> (\<forall>t. sx_result st \<noteq> Some (Some (SFirstToken t)))"

definition stream_inv :: "retry_policy \<Rightarrow> stream_state \<Rightarrow> bool" where
  "stream_inv p st \<longleftrightarrow>
     (sx_committed st \<longleftrightarrow> 0 < sx_written st)
     \<and> (\<not> sx_firstToken st \<longrightarrow> sx_committed st) \<and> (sx_activity st \<longrightarrow> sx_committed st)
     \<and> (sx_timer st \<or> sx_timerC st \<longrightarrow> 0 < first_token_timeout p)
     \<and> (case sx_phase st of Returned c err \<Rightarrow>
          (c \<longrightarrow> sx_committed st)
          \<and> (\<forall>t. err = Some (SFirstToken t) \<longrightarrow> sx_result st = Some err
                 \<or> t = first_token_timeout p \<and> 0 < t \<and> sx_result st \<noteq> None \<and> \<not> c \<and> sx_written st = 0)
          \<and> ((\<forall>m. err \<noteq> Some (SContext m)) \<longrightarrow> sx_result st \<noteq> None \<and> c = sx_committed st)
        | Draining \<Rightarrow> 0 < first_token_timeout p | Selecting \<Rightarrow> True)"

lemma stream_inv_step:
  assumes "stream_inv p st" "streamAttempt p st ev = Some st'"
  shows "stream_inv p st'"
proof (cases ev)
  case (WriteChunk ok)
  with assms(2) have "sx_result st = None" "st' = tracking_WriteChunk ok st" by (simp_all split: if_split_asm)
  then show ?thesis using assms(1)
    by (cases "sx_phase st") (auto simp: stream_inv_def tracking_WriteChunk_def)
next
  case (StreamReturns err)
  with assms(2) have "sx_result st = None" "st' = st\<lparr>sx_result := Some err\<rparr>" by (simp_all split: if_split_asm)
  then show ?thesis using assms(1) by (cases "sx_phase st") (auto simp: stream_inv_def)
next
  case TakeResult
  with assms(2) obtain err where "sx_phase st = Selecting" "sx_result st = Some err"
    "st' = st\<lparr>sx_phase := Returned (sx_committed st) err\<rparr>"
    by (auto split: stream_phase.split_asm option.split_asm)
  then show ?thesis using assms(1) by (auto simp: stream_inv_def)
next
  case TakeActivity
  with assms(2) have "sx_phase st = Selecting" "sx_activity st" "sx_timer st \<longrightarrow> 0 < first_token_timeout p"
    "st' = st\<lparr>sx_activity := False, sx_firstToken := False,
       sx_timerC := (if sx_timer st then 0 < rt_StreamIdleTimeout p else sx_timerC st)\<rparr>"
    using assms(1) by (auto simp: stream_inv_def split: if_split_asm)
  then show ?thesis using assms(1) by (auto simp: stream_inv_def)
next
  case TakeTimer
  with assms(2) have "sx_phase st = Selecting" "sx_timerC st" "st' = st\<lparr>sx_phase := Draining\<rparr>"
    by (simp_all split: if_split_asm)
  then show ?thesis using assms(1) by (auto simp: stream_inv_def)
next
  case TakeDrained
  with assms(2) have "sx_phase st = Draining" "sx_result st \<noteq> None"
    "st' = st\<lparr>sx_phase := (if sx_committed st then Returned True (Some SDeadline)
       else if sx_firstToken st then Returned False (Some (SFirstToken (first_token_timeout p)))
       else Returned False (Some SDeadline))\<rparr>"
    by (simp_all split: if_split_asm)
  then show ?thesis using assms(1) by (cases "sx_committed st"; cases "sx_firstToken st") (simp_all add: stream_inv_def)
next
  case (TakeContext err)
  with assms(2) have "sx_phase st = Selecting" "st' = st\<lparr>sx_phase := Returned (sx_committed st) (Some (SContext err))\<rparr>"
    by (simp_all split: if_split_asm)
  then show ?thesis using assms(1) by (auto simp: stream_inv_def)
qed

lemma stream_reach_inv: "stream_reach p st \<Longrightarrow> stream_inv p st"
proof (induction rule: stream_reach.induct)
  case init
  then show ?case by (simp add: stream_inv_def stream_init_def)
qed (rule stream_inv_step)

text \<open>C38: A first-token failover is invisible to the client. When a streaming attempt gives up on its first token, under
  any schedule of the invoker, the select loop and the timers, nothing has been written to the client,
  nothing is reported as committed, the invoker has returned, and the time waited is the configured bound,
  which is positive and never longer than the bound on gaps between chunks.\<close>

theorem first_token_failover_invisible:
  assumes "stream_reach p st" and "sx_phase st = Returned c (Some (SFirstToken t))" and "invoker_errors st"
  shows "sx_written st = 0 \<and> \<not> c \<and> sx_result st \<noteq> None \<and> 0 < t
    \<and> (0 < rt_StreamIdleTimeout p \<longrightarrow> t \<le> rt_StreamIdleTimeout p)"
  using stream_reach_inv [OF assms(1)] assms(2,3)
  by (auto simp: stream_inv_def invoker_errors_def first_token_timeout_def split: if_splits)

definition stalled :: stream_state where
  "stalled = (stream_init DefaultPolicy)\<lparr>sx_result := Some (Some (SInvoker ''canceled'')),
     sx_phase := Returned False (Some (SFirstToken (30 * second)))\<rparr>"

lemma stalled_reach: "stream_reach DefaultPolicy stalled"
proof -
  let ?p = DefaultPolicy
  have t: "first_token_timeout ?p = 30 * second" by (simp add: first_token_timeout_def DefaultPolicy_def)
  have "stream_reach ?p ((stream_init ?p)\<lparr>sx_phase := Draining\<rparr>)"
    by (rule stream_reach.step [OF stream_reach.init, of _ TakeTimer]) (simp add: stream_init_def t)
  then have "stream_reach ?p ((stream_init ?p)\<lparr>sx_phase := Draining, sx_result := Some (Some (SInvoker ''canceled''))\<rparr>)"
    by (rule stream_reach.step [of _ _ "StreamReturns (Some (SInvoker ''canceled''))"]) (simp add: stream_init_def)
  then show ?thesis
    by (rule stream_reach.step [of _ _ TakeDrained]) (simp add: stream_init_def stalled_def t)
qed

theorem first_token_failover_invisible_witness:
  "stream_reach DefaultPolicy stalled \<and> sx_phase stalled = Returned False (Some (SFirstToken (30 * second)))
   \<and> sx_written stalled = 0 \<and> 30 * second \<le> rt_StreamIdleTimeout DefaultPolicy"
proof -
  have "sx_phase stalled = Returned False (Some (SFirstToken (30 * second)))" "invoker_errors stalled"
    by (simp_all add: stalled_def invoker_errors_def)
  from stalled_reach this(1) first_token_failover_invisible [OF stalled_reach this] show ?thesis
    by (simp add: DefaultPolicy_def)
qed

text \<open>An attempt that ends because its context is done does not wait for the invoker, which can still write to the
  client after the attempt has reported that nothing was committed.\<close>

lemma context_return_abandons_writer:
  "\<exists>st. stream_reach p st \<and> sx_phase st = Returned False (Some (SContext ''deadline'')) \<and> 0 < sx_written st"
proof -
  let ?st = "(stream_init p)\<lparr>sx_phase := Returned False (Some (SContext ''deadline''))\<rparr>"
  have "stream_reach p ?st"
    by (rule stream_reach.step [OF stream_reach.init, of _ "TakeContext ''deadline''"]) (simp add: stream_init_def)
  then have "stream_reach p (tracking_WriteChunk True ?st)"
    by (rule stream_reach.step [of _ _ "WriteChunk True"]) (simp add: stream_init_def)
  then show ?thesis by (intro exI [of _ "tracking_WriteChunk True ?st"]) (simp add: tracking_WriteChunk_def)
qed

end
