(* ===== verification/Spec2Isabelle.thy ===== *)
theory Spec2Isabelle
  imports Request_Pipeline Stream_Attempt Config
begin

text \<open>
  LiteAIG is a gateway between applications and model providers, tools and agents, written in Go. A control plane
  validates a tenant's configuration document and compiles it into an immutable snapshot. A data plane runs every
  request through seven stages over one snapshot: admission, input guardrail, policy and cost preflight (rate and token
  limits, budget reservation, approval, cache), resolution (route plan, context guard), execution (attempts over
  deployments and credentials under a circuit breaker and leases), output guardrail, and accounting, which always runs
  and settles the budget.
  This development models these parts and proves what they promise to each other and to the tenant.

  \<^bold>\<open>Conventions.\<close> A Go struct is a record, an enumeration or an error a datatype, a fallible function returns a
  sum or an option, and state is passed explicitly. An \<^verbatim>\<open>int\<close> or \<^verbatim>\<open>int64\<close> is an \<^typ>\<open>int\<close>, wrapped with \<open>i64\<close>
  where the code adds or multiplies amounts that come from outside; a \<^verbatim>\<open>float64\<close> is a rational rounded after every
  operation. An operation that holds a lock in the code is one step here, and runs of steps are arbitrary
  interleavings of the operations. What the code gets from elsewhere is an argument of the definitions: digests, JSON
  encodings, logarithms and square roots, URL parsing, the iteration order of Go maps, random identifiers, clock
  readings, and the answers of providers, remote stores and other services. A property that needs something of such
  an argument says so as a hypothesis, and its witness shows an instance.

  \<^bold>\<open>Theories.\<close> Paths are relative to the root of the repository.

    \<^item> \<^verbatim>\<open>Go_Prelude\<close>: integers, instants, byte order of strings, joined keys, association lists.
    \<^item> \<^verbatim>\<open>Go_Float\<close>: rounding of \<^verbatim>\<open>float64\<close>, with the locale \<open>float_rounding\<close> of the laws the components use
      (monotone, idempotent, exact on integers of 53 bits), interpreted on the rounding function \<open>fl\<close>.
    \<^item> \<^verbatim>\<open>Circuit\<close> (\<^verbatim>\<open>internal/resilience/circuit\<close>): breaker entries, \<^verbatim>\<open>Allow\<close>, \<^verbatim>\<open>Open\<close>, \<^verbatim>\<open>Record\<close>, the cooldown and
      the durable facts. Open entries fail fast, a half-open entry admits one probe, every reachable breaker is well
      formed across configuration swaps and restarts, a restart rebuilds the recorded state, and the cooldown
      escalates until its duration overflows.
    \<^item> \<^verbatim>\<open>Rate_Limit\<close> (\<^verbatim>\<open>internal/policy/rate/limiter.go\<close>): the sharded token bucket with eviction and the token
      meter. Admissions are bounded by burst and rate up to a stated rounding slack, scopes do not influence each
      other, and a window of the meter grants at most its limit and what reconciliations hand back. Two theorems
      show how a roll-over and a wrap-around exceed the limit.
    \<^item> \<^verbatim>\<open>Coordination\<close> (\<^verbatim>\<open>internal/platform/coordination\<close>, \<^verbatim>\<open>internal/resilience/leasegate\<close>): the contract of a
      budget ledger as the locale \<open>budget_ledger\<close>, the in-process ledger as its interpretation, leases, the
      in-flight counter, budget slices and the lease gate. Ledgers stay within limits and settle once; a granted
      lease keeps its slot.
    \<^item> \<^verbatim>\<open>Budget\<close> and \<^verbatim>\<open>Budget_Enforcer\<close> (\<^verbatim>\<open>internal/finops/budget\<close>, \<^verbatim>\<open>internal/app/budgetenforcer.go\<close>): the window
      ledgers per policy, the fail modes over any ledger (the locale \<open>fail_mode_ledger\<close> extends \<open>budget_ledger\<close>,
      and a sublocale makes the wrapped ledger a ledger again), user and unit windows, and the enforcer. Hard limits
      hold across roll-overs and sweeps, the reserved counter is the sum of the open reservations, settlements
      happen once, and the slice of the enforcer mirrors the manager.
    \<^item> \<^verbatim>\<open>Snapshot\<close> (\<^verbatim>\<open>internal/kernel/runtime/snapshot.go\<close>): the compiled records, indexes, look-ups and the registry.
    \<^item> \<^verbatim>\<open>Credential_Pool\<close> (\<^verbatim>\<open>internal/resilience/credentialpool\<close>): eligibility, four selection orders (the locale
      \<open>selection_order\<close>, interpreted on rotation and on sorting by a key) and the picker.
    \<^item> \<^verbatim>\<open>Routing\<close> (\<^verbatim>\<open>internal/routing/model/planner.go\<close>, \<^verbatim>\<open>internal/agentic/routing\<close>): exclusions, scores and
      strategies. A plan holds exactly the admissible deployments, independent of the order of the policy.
    \<^item> \<^verbatim>\<open>Execution\<close> and \<^verbatim>\<open>Stream_Attempt\<close> (\<^verbatim>\<open>internal/gateway/execution\<close>, \<^verbatim>\<open>internal/resilience/retry\<close>): the attempt
      loops with the history of calls to breaker, leases, counters, invoker and sleeper, and one streaming attempt
      as a transition system of the invoker's goroutine and the select loop. The locales \<open>request_contract\<close>,
      \<open>plan_contract\<close> and \<open>pool_contract\<close> carry an invariant of the history through the loops and are interpreted
      once for the balance of leases and once for the number of calls. Calls are bounded, leases are returned,
      committed output is never replayed, a first-token timeout is invisible to the client.
    \<^item> \<^verbatim>\<open>Config\<close> (\<^verbatim>\<open>internal/controlplane/config\<close>): the document, validator, compiler and drift. A compiled snapshot
      has no dangling reference.
    \<^item> \<^verbatim>\<open>Interaction\<close> (\<^verbatim>\<open>internal/kernel/interaction\<close>, \<^verbatim>\<open>internal/kernel/errors\<close>, \<^verbatim>\<open>internal/gateway/approval\<close>): the
      values the stages exchange, client-safe errors and the approval checkpoint.
    \<^item> \<^verbatim>\<open>Admission\<close> (\<^verbatim>\<open>internal/tokenizer\<close>, \<^verbatim>\<open>internal/contextguard\<close>, parts of \<^verbatim>\<open>internal/app/pipeline.go\<close>): token
      estimates, choice of the budget policy, context guard, reservation.
    \<^item> \<^verbatim>\<open>Response_Cache\<close> (\<^verbatim>\<open>internal/cache\<close>, \<^verbatim>\<open>internal/gateway/cache\<close>): keys, the LRU store behind the locale
      \<open>response_store\<close>, the vector index and both handlers. A cached response stays within its tenant and project.
    \<^item> \<^verbatim>\<open>Accounting\<close> (\<^verbatim>\<open>internal/finops/accounting\<close>, \<^verbatim>\<open>internal/finops/pricing\<close>, \<^verbatim>\<open>internal/app/routingmetrics.go\<close>):
      usage facts, the finalizer, prices, chargeback and routing metrics.
    \<^item> \<^verbatim>\<open>Request_Pipeline\<close> (\<^verbatim>\<open>internal/kernel/pipeline\<close>, \<^verbatim>\<open>internal/app/pipeline.go\<close>): the runner with early exits and
      panics, and every stage composed as in \<^verbatim>\<open>litePipeline.Run\<close>. When a run returns, its reservation is settled.
    \<^item> This theory: what the compiler, the planner and the credential source promise together.

  \<^bold>\<open>Loops and bounds.\<close> Every loop is a structural recursion or a function with a termination proof; no definition
  takes fuel. The executor's loops recurse over the deployments of the plan, the credentials of the picker and the
  attempts that remain, and the number of interactions of a request is bounded by a theorem. Bounds on numbers appear
  only as hypotheses, where the code's arithmetic would wrap or round otherwise, and the wrap-around itself is the
  subject of theorems of its own.

  \<^bold>\<open>Not modelled.\<close> The Redis implementations of limiter, ledger, leases, counters and cache are scripts or commands
  of a remote store. SQL repositories, migrations and aggregates have the meaning of the database. Protocol
  adapters, connectors, the HTTP server, the admin API and the identity services translate JSON, check signatures and
  call repositories or remote services. The guardrail engine is regular expressions and remote detectors; its
  verdicts are answers of the environment of the pipeline. The durable spool and federation are outside the request
  path modelled here. Observability, tracing and the operational metrics sink do not influence a request. The
  publication service, bundles, secrets, mail, process wiring, commands, load tests and the console are not part of
  the properties above. The request pipeline is modelled with one instant for the breaker readings of a stage, and
  interference of other requests happens between stages.
\<close>

subsection \<open>From a published document to a credential\<close>

definition usable_credential :: "tenant_snapshot \<Rightarrow> string \<Rightarrow> string \<Rightarrow> bool" where
  "usable_credential s provider c \<longleftrightarrow>
     (case snap_Credential s c of None \<Rightarrow> False | Some x \<Rightarrow> cr_Status x = ''enabled'' \<and> cr_ProviderID x = provider)"

text \<open>The credential source the pipeline hands to the executor, \<^verbatim>\<open>internal/app/pipeline.go\<close>.\<close>

definition credential_source ::
  "(string \<Rightarrow> string) \<Rightarrow> (f64 \<Rightarrow> f64) \<Rightarrow> tenant_snapshot \<Rightarrow> (string \<Rightarrow> string \<Rightarrow> bool) option \<Rightarrow> (string \<Rightarrow> string \<Rightarrow> int) option
     \<Rightarrow> string \<Rightarrow> deployment \<Rightarrow> pool_error + picker" where
  "credential_source sha mlog s circuit inflight requestID d =
     (let state = NewSnapshotState s (dp_ID d);
          state = (case circuit of None \<Rightarrow> state | Some isopen \<Rightarrow> WithCircuit (Some isopen) state);
          state = (case inflight of None \<Rightarrow> state | Some busy \<Rightarrow> WithInflight (Some (busy (dp_ID d))) state)
      in case FromSnapshot s d (Some (pool_state_of state)) of Inl e \<Rightarrow> Inl e
         | Inr pool \<Rightarrow> NewPicker sha mlog pool requestID)"

lemma state_Eligible_source:
  assumes "st = (case inflight of None \<Rightarrow> st0 | Some busy \<Rightarrow> WithInflight (Some (busy i)) st0)"
    "st0 = (case circuit of None \<Rightarrow> NewSnapshotState s i | Some isopen \<Rightarrow> WithCircuit (Some isopen) (NewSnapshotState s i))"
  shows "ps_Eligible (pool_state_of st) c \<longleftrightarrow>
    (case snap_Credential s c of None \<Rightarrow> False | Some x \<Rightarrow> cr_Status x = ''enabled'' \<and> provider_available s (cr_ProviderID x)
       \<and> (case circuit of None \<Rightarrow> True | Some isopen \<Rightarrow> \<not> isopen i c))"
  using assms by (auto simp: pool_state_of_def state_Eligible_def NewSnapshotState_def WithCircuit_def WithInflight_def
      provider_available_def split: option.splits)

lemma typed_deployment_pool:
  assumes "snapshot_typed s" "snap_Deployment s i = Some d" "dp_CredentialID d \<noteq> ''''"
  obtains p where "FromSnapshot s d st = Inr p" "po_state p = st" "po_members p \<noteq> []"
    "\<forall>m \<in> set (po_members p). credential_of s (dp_ProviderID d) (pm_CredentialID m)"
    "if dp_PoolID d = '''' then map pm_CredentialID (po_members p) = [dp_CredentialID d]
     else \<exists>q. snap_CredentialPool s (dp_PoolID d) = Some q \<and> po_members p = cq_Members q"
proof -
  have t: "deployment_typed s d" using assms unfolding snapshot_typed_def by blast
  show thesis
  proof (cases "dp_PoolID d = ''''")
    case True
    with assms(3) t show ?thesis by (intro that) (auto simp: FromSnapshot_def pool_New_def deployment_typed_def)
  next
    case False
    with t obtain q where q: "snap_CredentialPool s (dp_PoolID d) = Some q" "pool_typed s (dp_ProviderID d) q"
      unfolding deployment_typed_def by blast
    then have "cq_Strategy q \<in> set poolStrategies" "cq_Members q \<noteq> []"
      "\<forall>m \<in> set (cq_Members q). credential_of s (dp_ProviderID d) (pm_CredentialID m)"
      unfolding pool_typed_def by blast+
    with False q(1) show ?thesis by (intro that) (auto simp: FromSnapshot_def pool_New_def)
  qed
qed

lemma admissible_member:
  assumes "admissible inp s i" "snap_Deployment s i = Some d"
    and "if dp_PoolID d = '''' then map pm_CredentialID ms = [dp_CredentialID d]
         else \<exists>q. snap_CredentialPool s (dp_PoolID d) = Some q \<and> ms = cq_Members q"
  obtains m where "m \<in> set ms" "credential_available s (pm_CredentialID m)" "dp_PoolID d = '''' \<Longrightarrow> pm_CredentialID m = dp_CredentialID d"
  using assms
  by (auto simp: admissible_def pool_available_def credential_available_def list_ex_iff split: option.splits if_splits)


definition served_input :: plan_input where
  "served_input = example_input\<lparr>in_Snapshot := Some (NewTenantSnapshot (compile_data (\<lambda>s. s) example_document 1 0 []))\<rparr>"

abbreviation served_plan :: "planner \<times> route_plan option \<times> plan_error option" where
  "served_plan \<equiv> planner_Plan (\<lambda>s. s) (\<lambda>x. x) (\<lambda>_. 0) served_input"

lemma served_plan_ok:
  "map_option pl_fallback (fst (snd served_plan)) = Some [''d''] \<and> snd (snd served_plan) = None"
  by code_simp

lemma served_deployment:
  "map_option (\<lambda>d. (dp_CredentialID d, dp_PoolID d)) (snap_Deployment (NewTenantSnapshot (compile_data (\<lambda>s. s) example_document 1 0 [])) ''d'')
     = Some (''c'', ''q'')"
  by code_simp


end
